(* ===== verification/Prelude.thy ===== *)
theory Prelude
  imports Main "HOL-Library.Word" "HOL-Library.Multiset" "HOL-Library.Monad_Syntax"
begin

text \<open>
  What the components of the development share: names for the C integer types, the reading of
  undefined behaviour, bounded memory access on arrays, exchanges of array cells, and the bridge
  from bitwise operations on machine words to arithmetic on naturals.

  An execution of C code is a value of an option type: \<^term>\<open>None\<close> stands for undefined behaviour
  (a read or a write outside an object), so that \<open>\<exists>r. f x = Some r\<close> is memory safety.  Error
  codes, null results and exceptions that the code itself returns are ordinary values under
  \<^term>\<open>Some\<close>.
\<close>

unbundle bit_operations_syntax

type_synonym u8 = "8 word"
type_synonym u16 = "16 word"
type_synonym u32 = "32 word"
type_synonym u64 = "64 word"
type_synonym size_t = "64 word"

named_theorems mem_simps \<open>evaluation of bounded memory accesses\<close>
named_theorems word_nat \<open>machine word operations as arithmetic on naturals\<close>

text \<open>The conversion of an integer to \<open>int\<close>: 32 bits, two's complement.\<close>

definition c_int :: "int \<Rightarrow> int" where
  "c_int x = signed_take_bit 31 x"

lemma c_int_small: "- (2 ^ 31) \<le> x \<Longrightarrow> x < 2 ^ 31 \<Longrightarrow> c_int x = x"
  by (simp add: c_int_def signed_take_bit_int_eq_self)

section \<open>Bounded memory access\<close>

definition rd :: "'a list \<Rightarrow> nat \<Rightarrow> 'a option" where
  "rd xs i = (if i < length xs then Some (xs ! i) else None)"

definition wr :: "'a list \<Rightarrow> nat \<Rightarrow> 'a \<Rightarrow> 'a list option" where
  "wr xs i v = (if i < length xs then Some (xs[i := v]) else None)"

text \<open>\<open>memcpy(dst + off, src, len)\<close> where \<open>src\<close> lists the \<open>len\<close> bytes that are copied.\<close>

definition memcpy_at :: "'a list \<Rightarrow> nat \<Rightarrow> 'a list \<Rightarrow> 'a list option" where
  "memcpy_at dst off src =
     (if off + length src \<le> length dst
      then Some (take off dst @ src @ drop (off + length src) dst) else None)"

lemma rd_Some [mem_simps]: "i < length xs \<Longrightarrow> rd xs i = Some (xs ! i)"
  by (simp add: rd_def)

lemma wr_Some [mem_simps]: "i < length xs \<Longrightarrow> wr xs i v = Some (xs[i := v])"
  by (simp add: wr_def)

lemma memcpy_at_Some [mem_simps]:
  "off + length src \<le> length dst \<Longrightarrow>
   memcpy_at dst off src = Some (take off dst @ src @ drop (off + length src) dst)"
  by (simp add: memcpy_at_def)

lemma rd_eq_Some_iff: "rd xs i = Some v \<longleftrightarrow> i < length xs \<and> v = xs ! i"
  by (auto simp: rd_def)

lemma wr_eq_Some_iff: "wr xs i v = Some ys \<longleftrightarrow> i < length xs \<and> ys = xs[i := v]"
  by (auto simp: wr_def)

section \<open>Total correctness of partial computations\<close>

text \<open>\<open>ok m Q\<close>: the computation \<open>m\<close> meets no undefined behaviour, and its result satisfies \<open>Q\<close>.
  The rules in \<open>ok_intros\<close> run through a computation from its first statement to its last.\<close>

definition ok :: "'a option \<Rightarrow> ('a \<Rightarrow> bool) \<Rightarrow> bool" where
  "ok m Q \<longleftrightarrow> (\<exists>r. m = Some r \<and> Q r)"

named_theorems ok_intros \<open>rules for total correctness\<close>

lemma ok_Some [simp]: "ok (Some r) Q = Q r"
  by (simp add: ok_def)

lemma ok_None [simp]: "\<not> ok None Q"
  by (simp add: ok_def)

lemma ok_bind [ok_intros]: "ok m (\<lambda>x. ok (f x) Q) \<Longrightarrow> ok (m \<bind> f) Q"
  by (auto simp: ok_def)

lemma ok_if [ok_intros]: "(b \<Longrightarrow> ok m Q) \<Longrightarrow> (\<not> b \<Longrightarrow> ok m' Q) \<Longrightarrow> ok (if b then m else m') Q"
  by simp

lemma ok_rd [ok_intros]: "i < length xs \<Longrightarrow> Q (xs ! i) \<Longrightarrow> ok (rd xs i) Q"
  by (simp add: rd_def)

lemma ok_wr [ok_intros]: "i < length xs \<Longrightarrow> Q (xs[i := v]) \<Longrightarrow> ok (wr xs i v) Q"
  by (simp add: wr_def)

lemma ok_memcpy_at [ok_intros]:
  "off + length src \<le> length dst \<Longrightarrow> Q (take off dst @ src @ drop (off + length src) dst) \<Longrightarrow>
   ok (memcpy_at dst off src) Q"
  by (simp add: memcpy_at_def)

lemma ok_prod [ok_intros]:
  "(\<And>a b. x = (a, b) \<Longrightarrow> ok (f a b) Q) \<Longrightarrow> ok (case x of (a, b) \<Rightarrow> f a b) Q"
  by (cases x) simp

lemma ok_let [ok_intros]: "(\<And>x. x = t \<Longrightarrow> ok (f x) Q) \<Longrightarrow> ok (let x = t in f x) Q"
  by simp

lemma ok_mono: "ok m P \<Longrightarrow> (\<And>r. P r \<Longrightarrow> Q r) \<Longrightarrow> ok m Q"
  by (auto simp: ok_def)

lemma ok_conj: "ok m P \<Longrightarrow> ok m Q \<Longrightarrow> ok m (\<lambda>r. P r \<and> Q r)"
  by (auto simp: ok_def)

lemma okE: "ok m Q \<Longrightarrow> (\<And>r. m = Some r \<Longrightarrow> Q r \<Longrightarrow> P) \<Longrightarrow> P"
  by (auto simp: ok_def)

lemma okD: "ok m Q \<Longrightarrow> m = Some r \<Longrightarrow> Q r"
  by (auto simp: ok_def)

lemma ok_exists: "ok m Q \<Longrightarrow> \<exists>r. m = Some r \<and> Q r"
  by (simp add: ok_def)

text \<open>The partial version, for facts about results that do not depend on safety.\<close>

definition upto_ub :: "'a option \<Rightarrow> ('a \<Rightarrow> bool) \<Rightarrow> bool" where
  "upto_ub m Q \<longleftrightarrow> (\<forall>r. m = Some r \<longrightarrow> Q r)"

named_theorems upto_intros \<open>rules for partial correctness\<close>

lemma upto_Some [simp]: "upto_ub (Some r) Q = Q r"
  by (simp add: upto_ub_def)

lemma upto_None [simp]: "upto_ub None Q"
  by (simp add: upto_ub_def)

lemma upto_bind [upto_intros]: "(\<And>x. m = Some x \<Longrightarrow> upto_ub (f x) Q) \<Longrightarrow> upto_ub (m \<bind> f) Q"
  by (cases m) auto

lemma upto_if [upto_intros]:
  "(b \<Longrightarrow> upto_ub m Q) \<Longrightarrow> (\<not> b \<Longrightarrow> upto_ub m' Q) \<Longrightarrow> upto_ub (if b then m else m') Q"
  by simp

lemma upto_prod [upto_intros]:
  "(\<And>a b. x = (a, b) \<Longrightarrow> upto_ub (f a b) Q) \<Longrightarrow> upto_ub (case x of (a, b) \<Rightarrow> f a b) Q"
  by (cases x) simp

lemma upto_let [upto_intros]: "(\<And>x. x = t \<Longrightarrow> upto_ub (f x) Q) \<Longrightarrow> upto_ub (let x = t in f x) Q"
  by simp

lemma upto_mono: "upto_ub m P \<Longrightarrow> (\<And>r. P r \<Longrightarrow> Q r) \<Longrightarrow> upto_ub m Q"
  by (auto simp: upto_ub_def)

lemma uptoD: "upto_ub m Q \<Longrightarrow> m = Some r \<Longrightarrow> Q r"
  by (auto simp: upto_ub_def)

section \<open>Exchanging array cells\<close>

definition swap_at :: "'a list \<Rightarrow> nat \<Rightarrow> nat \<Rightarrow> 'a list option" where
  "swap_at xs i j = do {
     a \<leftarrow> rd xs i;
     b \<leftarrow> rd xs j;
     ys \<leftarrow> wr xs i b;
     wr ys j a }"

definition swapped :: "'a list \<Rightarrow> nat \<Rightarrow> nat \<Rightarrow> 'a list" where
  "swapped xs i j = xs[i := xs ! j, j := xs ! i]"

lemma ok_swap_at [ok_intros]:
  "i < length xs \<Longrightarrow> j < length xs \<Longrightarrow> Q (swapped xs i j) \<Longrightarrow> ok (swap_at xs i j) Q"
  by (simp add: swap_at_def swapped_def rd_def wr_def)

lemma swap_at_SomeD: "swap_at xs i j = Some ys \<Longrightarrow> i < length xs \<and> j < length xs \<and> ys = swapped xs i j"
  by (auto simp: swap_at_def swapped_def rd_def wr_def split: if_splits)

lemma length_swapped [simp]: "length (swapped xs i j) = length xs"
  by (simp add: swapped_def)

lemma swapped_nth [simp]:
  "i < length xs \<Longrightarrow> j < length xs \<Longrightarrow> k < length xs \<Longrightarrow>
   swapped xs i j ! k = (if k = i then xs ! j else if k = j then xs ! i else xs ! k)"
  by (auto simp: swapped_def nth_list_update)

lemma mset_swapped [simp]: "i < length xs \<Longrightarrow> j < length xs \<Longrightarrow> mset (swapped xs i j) = mset xs"
  unfolding swapped_def by (rule mset_swap)

text \<open>Two arrays that agree outside the index range from \<open>l\<close> to \<open>h\<close> (excluded) and hold the same
  elements, so that the range itself holds a permutation.\<close>

definition perm_range :: "nat \<Rightarrow> nat \<Rightarrow> 'a list \<Rightarrow> 'a list \<Rightarrow> bool" where
  "perm_range l h xs ys \<longleftrightarrow> mset ys = mset xs \<and> (\<forall>k. k < l \<or> h \<le> k \<longrightarrow> k < length xs \<longrightarrow> ys ! k = xs ! k)"

lemma perm_range_refl [simp]: "perm_range l h xs xs"
  by (simp add: perm_range_def)

lemma perm_range_length: "perm_range l h xs ys \<Longrightarrow> length ys = length xs"
  unfolding perm_range_def by (metis size_mset)

lemma perm_range_trans: "perm_range l h xs ys \<Longrightarrow> perm_range l h ys zs \<Longrightarrow> perm_range l h xs zs"
  using perm_range_length [of l h xs ys] by (auto simp: perm_range_def)

lemma perm_range_widen: "perm_range l h xs ys \<Longrightarrow> l' \<le> l \<Longrightarrow> h \<le> h' \<Longrightarrow> perm_range l' h' xs ys"
  by (auto simp: perm_range_def)

lemma perm_range_swapped:
  "l \<le> i \<Longrightarrow> i < h \<Longrightarrow> l \<le> j \<Longrightarrow> j < h \<Longrightarrow> h \<le> length xs \<Longrightarrow> perm_range l h xs (swapped xs i j)"
  by (auto simp: perm_range_def)

lemma perm_range_outside:
  "perm_range l h xs ys \<Longrightarrow> k < l \<or> h \<le> k \<Longrightarrow> k < length xs \<Longrightarrow> ys ! k = xs ! k"
  by (auto simp: perm_range_def)

text \<open>Sequencing of computations that permute a range.\<close>

lemma ok_bind_perm:
  assumes "ok m (perm_range l h xs)"
    and "\<And>ys. m = Some ys \<Longrightarrow> perm_range l h xs ys \<Longrightarrow> length ys = length xs \<Longrightarrow>
      ok (f ys) (perm_range l h ys)"
  shows "ok (m \<bind> f) (perm_range l h xs)"
  using assms(1)
  by (elim okE) (auto simp: perm_range_length intro!: ok_mono [OF assms(2)] intro: perm_range_trans)

definition slice :: "nat \<Rightarrow> nat \<Rightarrow> 'a list \<Rightarrow> 'a list" where
  "slice l h xs = take (h - l) (drop l xs)"

lemma slice_split: "l \<le> h \<Longrightarrow> xs = take l xs @ slice l h xs @ drop h xs"
  by (metis append_take_drop_id drop_drop le_add_diff_inverse2 slice_def)

lemma length_slice [simp]: "h \<le> length xs \<Longrightarrow> length (slice l h xs) = h - l"
  by (simp add: slice_def)

lemma slice_nth [simp]: "l + k < h \<Longrightarrow> h \<le> length xs \<Longrightarrow> slice l h xs ! k = xs ! (l + k)"
  by (simp add: slice_def)

lemma perm_range_mset_slice:
  assumes "perm_range l h xs ys" and "l \<le> h" and "h \<le> length xs"
  shows "mset (slice l h ys) = mset (slice l h xs)"
proof -
  have len: "length ys = length xs" using assms(1) by (rule perm_range_length)
  have "take l ys = take l xs"
    using assms len by (intro nth_equalityI) (auto simp: perm_range_def)
  moreover have "drop h ys = drop h xs"
    using assms len by (intro nth_equalityI) (auto simp: perm_range_def)
  moreover have "mset ys = mset xs" using assms(1) by (simp add: perm_range_def)
  ultimately show ?thesis
    using arg_cong [OF slice_split [OF assms(2), of xs], of mset]
      arg_cong [OF slice_split [OF assms(2), of ys], of mset]
    by simp
qed

lemma perm_range_all:
  assumes "perm_range l h xs ys" and "h \<le> length xs"
    and "\<And>k. l \<le> k \<Longrightarrow> k < h \<Longrightarrow> P (xs ! k)" and "l \<le> k" and "k < h"
  shows "P (ys ! k)"
proof -
  have len: "length ys = length xs" using assms(1) by (rule perm_range_length)
  have "slice l h ys ! (k - l) \<in> set (slice l h ys)"
    using assms len by (intro nth_mem) auto
  moreover have "set (slice l h ys) = set (slice l h xs)"
    using perm_range_mset_slice [OF assms(1) _ assms(2)] assms(4,5)
    by (metis le_less_trans less_imp_le set_mset_mset)
  ultimately have "ys ! k \<in> set (slice l h xs)" using assms len by simp
  then obtain j where "j < h - l" "ys ! k = slice l h xs ! j"
    using assms(2) by (metis in_set_conv_nth length_slice)
  then show ?thesis using assms(2) assms(3) [of "l + j"] by simp
qed

section \<open>Bitwise operations as arithmetic\<close>

lemma div_eq_range: "0 < d \<Longrightarrow> n div d = m \<longleftrightarrow> m * d \<le> n \<and> n < (m + 1) * (d :: nat)"
  by (metis add.commute div_nat_eqI div_times_less_eq_dividend dividend_less_div_times mult.commute
      mult_Suc plus_1_eq_Suc)

lemma unat_push_bit_small [word_nat]:
  fixes a :: "'a::len word"
  assumes "unat a * 2 ^ k < 2 ^ LENGTH('a)"
  shows "unat (push_bit k a) = unat a * 2 ^ k"
proof -
  have "unat (push_bit k a) = take_bit LENGTH('a) (push_bit k (unat a))"
    by (rule unsigned_push_bit_eq)
  also have "\<dots> = unat a * 2 ^ k"
    using assms by (simp add: push_bit_eq_mult take_bit_nat_eq_self)
  finally show ?thesis .
qed

lemma unat_drop_bit [word_nat]: "unat (drop_bit k (a :: 'a::len word)) = unat a div 2 ^ k"
proof -
  have "unat (drop_bit k a) = drop_bit k (take_bit LENGTH('a) (unat a))"
    by (rule unsigned_drop_bit_eq)
  then show ?thesis by (simp add: drop_bit_eq_div take_bit_nat_eq_self)
qed

lemma unat_and_mask [word_nat]: "unat ((a :: 'a::len word) AND mask k) = unat a mod 2 ^ k"
proof -
  have "unat (take_bit k a) = unat a mod 2 ^ k"
    by (cases "k \<le> LENGTH('a)")
      (auto simp: unsigned_take_bit_eq simp flip: take_bit_eq_mod)
  then show ?thesis by (simp add: take_bit_eq_mask)
qed

lemma unat_u8_less: "unat (b :: u8) < 256"
proof -
  have "unat b < 2 ^ 8" using unsigned_less [of b] by simp
  then show ?thesis by simp
qed

lemma unat_ucast_mod [word_nat]:
  "unat (ucast (a :: 'a::len word) :: 'b::len word) = unat a mod 2 ^ LENGTH('b)"
  by (simp add: unsigned_ucast_eq take_bit_eq_mod)

text \<open>A bitwise or of a value below \<open>2 ^ k\<close> with a multiple of \<open>2 ^ k\<close> is an addition.\<close>

lemma or_nat_add:
  fixes m n :: nat
  assumes "m < 2 ^ k"
  shows "n * 2 ^ k OR m = n * 2 ^ k + m"
proof -
  have "n * 2 ^ k AND m = 0"
  proof (rule bit_eqI)
    fix i
    have "bit m i \<Longrightarrow> i < k"
      using assms by (metis bit_take_bit_iff take_bit_nat_eq_self_iff)
    moreover have "bit (n * 2 ^ k) i \<Longrightarrow> k \<le> i"
      by (metis bit_push_bit_iff push_bit_eq_mult)
    ultimately show "bit (n * 2 ^ k AND m) i = bit (0::nat) i"
      by (auto simp: bit_and_iff)
  qed
  then show ?thesis by (simp add: disjunctive_add_eq_or)
qed

lemma unat_or_add:
  fixes a b :: "'a::len word"
  assumes "unat a = n * 2 ^ k" and "unat b < 2 ^ k"
  shows "unat (a OR b) = unat a + unat b"
  using or_nat_add [OF assms(2), of n] assms(1) by (simp add: unsigned_or_eq)

end
