(* ===== verification/Utf8.thy ===== *)
theory Utf8
  imports Prelude
begin

text \<open>
  The UTF-8 codec of \<open>src/native/quickjs/cutils.c\<close>: \<open>unicode_to_utf8\<close> and
  \<open>unicode_from_utf8\<close>.  The encoder returns the bytes it writes (its C result is their number,
  0 for a value of more than 31 bits); the decoder returns \<open>Some None\<close> for the C result -1, and
  \<open>None\<close> where it would read past the end of its input.
\<close>

section \<open>Model\<close>

definition unicode_to_utf8 :: "u32 \<Rightarrow> u8 list" where
  "unicode_to_utf8 c =
     (let tail0 = ucast ((c AND 0x3f) OR 0x80);
          tail = (\<lambda>k. ucast ((drop_bit k c AND 0x3f) OR 0x80))
      in if c < 0x80 then [ucast c]
         else if c < 0x800 then [ucast (drop_bit 6 c OR 0xc0), tail0]
         else if c < 0x10000 then [ucast (drop_bit 12 c OR 0xe0), tail 6, tail0]
         else if c < 0x00200000 then [ucast (drop_bit 18 c OR 0xf0), tail 12, tail 6, tail0]
         else if c < 0x04000000 then
           [ucast (drop_bit 24 c OR 0xf8), tail 18, tail 12, tail 6, tail0]
         else if c < 0x80000000 then
           [ucast (drop_bit 30 c OR 0xfc), tail 24, tail 18, tail 12, tail 6, tail0]
         else [])"

definition utf8_min_code :: "u32 list" where
  "utf8_min_code = [0x80, 0x800, 0x10000, 0x00200000, 0x04000000]"

definition utf8_first_code_mask :: "u32 list" where
  "utf8_first_code_mask = [0x1f, 0xf, 0x7, 0x3, 0x1]"

text \<open>The \<open>switch\<close> on the first byte: the number of continuation bytes, or the default branch.\<close>

definition utf8_lead :: "u8 \<Rightarrow> nat option" where
  "utf8_lead c =
     (if 0xc0 \<le> c \<and> c \<le> 0xdf then Some 1
      else if 0xe0 \<le> c \<and> c \<le> 0xef then Some 2
      else if 0xf0 \<le> c \<and> c \<le> 0xf7 then Some 3
      else if 0xf8 \<le> c \<and> c \<le> 0xfb then Some 4
      else if 0xfc \<le> c \<and> c \<le> 0xfd then Some 5
      else None)"

text \<open>The \<open>for\<close> loop over the continuation bytes.\<close>

fun utf8_cont :: "nat \<Rightarrow> u32 \<Rightarrow> u8 list \<Rightarrow> (u32 \<times> u8 list) option option" where
  "utf8_cont 0 c p = Some (Some (c, p))"
| "utf8_cont (Suc l) c [] = None"
| "utf8_cont (Suc l) c (b # p) =
     (if b < 0x80 \<or> 0xc0 \<le> b then Some None
      else utf8_cont l (push_bit 6 c OR (ucast b AND 0x3f)) p)"

definition unicode_from_utf8 :: "u8 list \<Rightarrow> int \<Rightarrow> (u32 \<times> u8 list) option option" where
  "unicode_from_utf8 p max_len =
     (case p of
        [] \<Rightarrow> None
      | c # p \<Rightarrow>
          if c < 0x80 then Some (Some (ucast c, p))
          else (case utf8_lead c of
                  None \<Rightarrow> Some None
                | Some l \<Rightarrow>
                    if int l > max_len - 1 then Some None
                    else (case utf8_cont l (ucast c AND utf8_first_code_mask ! (l - 1)) p of
                            None \<Rightarrow> None
                          | Some None \<Rightarrow> Some None
                          | Some (Some (c', p')) \<Rightarrow>
                              if c' < utf8_min_code ! (l - 1) then Some None
                              else Some (Some (c', p')))))"

section \<open>The codec on naturals\<close>

lemma utf8_or_tag:
  fixes x m :: u32
  assumes "unat x < 2 ^ k" and "unat m = n * 2 ^ k" and "unat m + unat x < 256"
  shows "unat (ucast (x OR m) :: u8) = unat m + unat x"
proof -
  have "unat (m OR x) = unat m + unat x"
    using assms(2,1) by (rule unat_or_add)
  then show ?thesis using assms(3) by (simp add: or.commute unat_ucast_mod)
qed

lemma mask6: "(0x3f :: u32) = mask 6" "(0x3f :: u8) = mask 6"
  by (simp_all add: mask_eq_exp_minus_1)

lemma utf8_tail_byte:
  "unat (ucast ((drop_bit k c AND 0x3f) OR 0x80) :: u8) = 128 + (unat (c :: u32) div 2 ^ k) mod 64"
proof -
  have "unat (drop_bit k c AND 0x3f) = (unat c div 2 ^ k) mod 64"
    by (simp add: mask6 word_nat)
  then show ?thesis
    using utf8_or_tag [of "drop_bit k c AND 0x3f" 6 "0x80" 2] by simp
qed

lemma utf8_lead_byte:
  assumes "unat c div 2 ^ j < 2 ^ k" and "unat (m :: u32) = n * 2 ^ k" and "unat m + 2 ^ k \<le> 256"
  shows "unat (ucast (drop_bit j c OR m) :: u8) = unat m + unat (c :: u32) div 2 ^ j"
  using utf8_or_tag [of "drop_bit j c" k m n] assms by (simp add: word_nat)

lemma unat_unicode_to_utf8:
  fixes c :: u32
  defines "n \<equiv> unat c"
  shows "map unat (unicode_to_utf8 c) =
    (if n < 0x80 then [n]
     else if n < 0x800 then [192 + n div 64, 128 + n mod 64]
     else if n < 0x10000 then [224 + n div 4096, 128 + n div 64 mod 64, 128 + n mod 64]
     else if n < 0x200000 then
       [240 + n div 262144, 128 + n div 4096 mod 64, 128 + n div 64 mod 64, 128 + n mod 64]
     else if n < 0x4000000 then
       [248 + n div 16777216, 128 + n div 262144 mod 64, 128 + n div 4096 mod 64,
        128 + n div 64 mod 64, 128 + n mod 64]
     else if n < 0x80000000 then
       [252 + n div 1073741824, 128 + n div 16777216 mod 64, 128 + n div 262144 mod 64,
        128 + n div 4096 mod 64, 128 + n div 64 mod 64, 128 + n mod 64]
     else [])"
proof -
  note t = utf8_tail_byte [of 6 c] utf8_tail_byte [of 12 c] utf8_tail_byte [of 18 c]
    utf8_tail_byte [of 24 c] utf8_tail_byte [of 0 c, simplified]
  note d = unicode_to_utf8_def Let_def n_def word_less_nat_alt
  consider "n < 0x80" | "0x80 \<le> n" "n < 0x800" | "0x800 \<le> n" "n < 0x10000"
    | "0x10000 \<le> n" "n < 0x200000" | "0x200000 \<le> n" "n < 0x4000000"
    | "0x4000000 \<le> n" "n < 0x80000000" | "0x80000000 \<le> n"
    by linarith
  then show ?thesis
  proof cases
    case 1 then show ?thesis by (simp add: d unat_ucast_mod)
  next
    case 2 then show ?thesis using utf8_lead_byte [of c 6 5 "0xc0" 6] by (simp add: d t)
  next
    case 3 then show ?thesis using utf8_lead_byte [of c 12 4 "0xe0" 14] by (simp add: d t)
  next
    case 4 then show ?thesis using utf8_lead_byte [of c 18 3 "0xf0" 30] by (simp add: d t)
  next
    case 5 then show ?thesis using utf8_lead_byte [of c 24 2 "0xf8" 62] by (simp add: d t)
  next
    case 6 then show ?thesis using utf8_lead_byte [of c 30 1 "0xfc" 126] by (simp add: d t)
  next
    case 7 then show ?thesis by (simp add: d)
  qed
qed

lemma length_unicode_to_utf8:
  "length (unicode_to_utf8 c) =
    (let n = unat c in
     if n < 0x80 then 1 else if n < 0x800 then 2 else if n < 0x10000 then 3
     else if n < 0x200000 then 4 else if n < 0x4000000 then 5 else if n < 0x80000000 then 6 else 0)"
  unfolding Let_def length_map [of unat, symmetric]
  by (simp only: unat_unicode_to_utf8 if_distrib [of length] list.size) simp

lemma unat_ucast_u8: "unat (ucast (b :: u8) :: u32) = unat b"
proof -
  have "unat b < 2 ^ 8" using unsigned_less [of b] by simp
  then show ?thesis by (simp add: unat_ucast_mod)
qed

lemma utf8_cont_step:
  assumes "unat c < 2 ^ 25"
  shows "unat (push_bit 6 (c :: u32) OR (ucast (b :: u8) AND 0x3f)) = unat c * 64 + unat b mod 64"
proof -
  have p: "unat (push_bit 6 c) = unat c * 2 ^ 6"
    using assms by (intro unat_push_bit_small) simp
  have "unat (ucast b AND 0x3f :: u32) = unat b mod 64"
    by (simp add: mask6 unat_and_mask unat_ucast_u8)
  then show ?thesis using unat_or_add [OF p, of "ucast b AND 0x3f"] p by simp
qed
text \<open>The value the continuation loop accumulates.\<close>

definition utf8_acc :: "nat \<Rightarrow> u8 list \<Rightarrow> nat" where
  "utf8_acc n bs = foldl (\<lambda>a b. a * 64 + unat b mod 64) n bs"

definition utf8_is_cont :: "u8 \<Rightarrow> bool" where
  "utf8_is_cont b \<longleftrightarrow> 0x80 \<le> b \<and> b < 0xc0"

lemma utf8_acc_less: "utf8_acc n bs < (n + 1) * 64 ^ length bs"
proof (induction bs arbitrary: n)
  case Nil
  then show ?case by (simp add: utf8_acc_def)
next
  case (Cons b bs)
  have "utf8_acc n (b # bs) < (n * 64 + unat b mod 64 + 1) * 64 ^ length bs"
    using Cons [of "n * 64 + unat b mod 64"] by (simp add: utf8_acc_def)
  also have "\<dots> \<le> (n * 64 + 64) * 64 ^ length bs"
    by (intro mult_right_mono) (auto simp: Suc_le_eq)
  finally show ?case by (simp add: algebra_simps)
qed

lemma utf8_cont_ok:
  assumes "unat c < 2 ^ (31 - 6 * length bs)" and "length bs \<le> 5" and "list_all utf8_is_cont bs"
  shows "\<exists>c'. utf8_cont (length bs) c (bs @ p) = Some (Some (c', p)) \<and> unat c' = utf8_acc (unat c) bs"
  using assms
proof (induction bs arbitrary: c)
  case Nil
  then show ?case by (simp add: utf8_acc_def)
next
  case (Cons b bs)
  let ?c = "push_bit 6 c OR (ucast b AND 0x3f)"
  have "(2::nat) ^ (31 - 6 * length (b # bs)) \<le> 2 ^ 25" by (intro power_increasing) auto
  then have c: "unat ?c = unat c * 64 + unat b mod 64"
    using Cons.prems(1) by (intro utf8_cont_step) simp
  have e: "(2::nat) ^ (31 - 6 * length bs) = 64 * 2 ^ (31 - 6 * length (b # bs))"
  proof -
    have "31 - 6 * length bs = 6 + (31 - 6 * length (b # bs))" using Cons.prems(2) by simp
    then show ?thesis by (simp only: power_add) simp
  qed
  have "unat ?c < 64 * 2 ^ (31 - 6 * length (b # bs))"
    using Cons.prems(1) unfolding c by (simp add: Suc_le_eq)
  with Cons.IH [of ?c] Cons.prems(2,3) e c show ?case
    by (auto simp: utf8_acc_def utf8_is_cont_def)
qed

lemma utf8_cont_SomeD:
  "utf8_cont l c p = Some (Some (c', p')) \<Longrightarrow>
   \<exists>bs. p = bs @ p' \<and> length bs = l \<and> list_all utf8_is_cont bs"
proof (induction l c p rule: utf8_cont.induct)
  case (3 l c b p)
  then have b: "utf8_is_cont b"
    by (auto simp: utf8_is_cont_def split: if_splits)
  from 3 obtain bs where "p = bs @ p'" "length bs = l" "list_all utf8_is_cont bs"
    by (auto split: if_splits)
  with b show ?case by (intro exI [of _ "b # bs"]) simp
qed simp_all

lemma utf8_cont_total: "l \<le> length p \<Longrightarrow> \<exists>r. utf8_cont l c p = Some r"
  by (induction l c p rule: utf8_cont.induct) auto

lemma utf8_lead_cases:
  "utf8_lead c = Some l \<longleftrightarrow> l \<in> {1..5} \<and> unat c div 2 ^ (6 - l) = 2 ^ (2 + l) - 2"
proof -
  consider "l = 0" | "l = 1" | "l = 2" | "l = 3" | "l = 4" | "l = 5" | "5 < l" by linarith
  then show ?thesis
    by cases (auto simp: utf8_lead_def word_le_nat_alt div_eq_range)
qed

lemma utf8_first_code:
  assumes "l \<in> {1..5}"
  shows "unat (ucast (c :: u8) AND utf8_first_code_mask ! (l - 1)) = unat c mod 2 ^ (6 - l)"
proof -
  have "utf8_first_code_mask ! (l - 1) = mask (6 - l)"
  proof -
    consider "l = 1" | "l = 2" | "l = 3" | "l = 4" | "l = 5" using assms by fastforce
    then show ?thesis by cases (simp_all add: utf8_first_code_mask_def mask_eq_exp_minus_1)
  qed
  then show ?thesis by (simp add: unat_and_mask unat_ucast_u8)
qed

lemma utf8_min_code_nat:
  "l \<in> {1..5} \<Longrightarrow> unat (utf8_min_code ! (l - 1)) = (if l = 1 then 128 else 2 ^ (5 * l + 1))"
proof -
  assume "l \<in> {1..5}"
  then consider "l = 1" | "l = 2" | "l = 3" | "l = 4" | "l = 5" by fastforce
  then show ?thesis by cases (simp_all add: utf8_min_code_def)
qed

text \<open>The decoder on a lead byte and its continuation bytes.\<close>

lemma unicode_from_utf8_multi:
  assumes lead: "utf8_lead c = Some (length bs)" and bs: "list_all utf8_is_cont bs"
    and len: "int (length bs) < max_len"
  defines "v \<equiv> utf8_acc (unat c mod 2 ^ (6 - length bs)) bs"
  shows "\<exists>c'. unat c' = v \<and> unicode_from_utf8 (c # bs @ p) max_len =
    (if v < unat (utf8_min_code ! (length bs - 1)) then Some None else Some (Some (c', p)))"
proof -
  let ?l = "length bs" and ?c = "ucast c AND utf8_first_code_mask ! (length bs - 1) :: u32"
  have l: "?l \<in> {1..5}" and hi: "\<not> c < 0x80"
    using lead by (auto simp: utf8_lead_def word_less_nat_alt word_le_nat_alt split: if_splits)
  have c: "unat ?c = unat c mod 2 ^ (6 - ?l)"
    using l by (rule utf8_first_code)
  have "6 - ?l \<le> 31 - 6 * ?l" using l by auto
  then have "(2::nat) ^ (6 - ?l) \<le> 2 ^ (31 - 6 * ?l)" by (rule power_increasing) simp
  with c have "unat ?c < 2 ^ (31 - 6 * ?l)"
    by (metis less_le_trans mod_less_divisor zero_less_numeral zero_less_power)
  then obtain c' where "utf8_cont ?l ?c (bs @ p) = Some (Some (c', p))" "unat c' = v"
    using utf8_cont_ok [of ?c bs p] l bs c by (auto simp: v_def)
  with lead hi len show ?thesis
    by (intro exI [of _ c']) (simp add: unicode_from_utf8_def word_less_nat_alt)
qed

lemma unicode_from_utf8_SomeD:
  assumes "unicode_from_utf8 p max_len = Some (Some (c, p'))"
  shows "(\<exists>b. p = b # p' \<and> b < 0x80 \<and> c = ucast b) \<or>
    (\<exists>b bs. p = b # bs @ p' \<and> utf8_lead b = Some (length bs) \<and> list_all utf8_is_cont bs \<and>
      int (length bs) < max_len \<and>
      unat c = utf8_acc (unat b mod 2 ^ (6 - length bs)) bs \<and>
      unat (utf8_min_code ! (length bs - 1)) \<le> unat c)"
proof (cases p)
  case Nil
  with assms show ?thesis by (simp add: unicode_from_utf8_def)
next
  case (Cons b q)
  show ?thesis
  proof (cases "b < 0x80")
    case True
    with assms Cons show ?thesis by (simp add: unicode_from_utf8_def)
  next
    case False
    with assms Cons obtain l where l: "utf8_lead b = Some l" "int l < max_len"
      "utf8_cont l (ucast b AND utf8_first_code_mask ! (l - 1)) q = Some (Some (c, p'))"
      by (auto simp: unicode_from_utf8_def split: option.splits if_splits)
    from utf8_cont_SomeD [OF l(3)] obtain bs where
      bs: "q = bs @ p'" "length bs = l" "list_all utf8_is_cont bs" by blast
    have "utf8_lead b = Some (length bs)" "int (length bs) < max_len"
      using l bs by simp_all
    from unicode_from_utf8_multi [OF this(1) bs(3) this(2), of p'] obtain c' where
      c': "unat c' = utf8_acc (unat b mod 2 ^ (6 - length bs)) bs"
      "Some (Some (c, p')) = (if unat c' < unat (utf8_min_code ! (length bs - 1))
         then Some None else Some (Some (c', p')))"
      using assms Cons bs(1) by auto
    then have "c' = c" "unat (utf8_min_code ! (length bs - 1)) \<le> unat c"
      by (auto split: if_splits)
    moreover have "p = b # bs @ p'" using Cons bs(1) by simp
    ultimately show ?thesis using c'(1) l(1,2) bs(2,3) by (intro disjI2 exI [of _ b] exI [of _ bs]) simp
  qed
qed

lemma utf8_is_cont_nat: "utf8_is_cont b \<longleftrightarrow> unat b div 64 = 2"
  by (simp add: utf8_is_cont_def word_le_nat_alt word_less_nat_alt div_eq_range)

lemma ucast_ucast_u8: "ucast (ucast (b :: u8) :: u32) = b"
  using unat_ucast_u8 [of b] unat_u8_less [of b] by (simp add: word_unat_eq_iff unat_ucast_mod)

text \<open>The continuation bytes of \<open>n\<close>, most significant first, as the encoder emits them.\<close>

fun utf8_tail :: "nat \<Rightarrow> nat \<Rightarrow> nat list" where
  "utf8_tail 0 n = []"
| "utf8_tail (Suc l) n = (128 + n div 64 ^ l mod 64) # utf8_tail l n"

lemma utf8_tail_numeral:
  "utf8_tail (numeral k) n =
     (128 + n div 64 ^ pred_numeral k mod 64) # utf8_tail (pred_numeral k) n"
  by (simp only: numeral_eq_Suc [of k] utf8_tail.simps)

lemma utf8_acc_tail:
  "map unat bs = utf8_tail l n \<Longrightarrow>
   length bs = l \<and> list_all utf8_is_cont bs \<and> utf8_acc (n div 64 ^ l) bs = n"
proof (induction l arbitrary: bs)
  case 0
  then show ?case by (simp add: utf8_acc_def)
next
  case (Suc l)
  then obtain b bs' where b: "bs = b # bs'" "unat b = 128 + n div 64 ^ l mod 64"
    "map unat bs' = utf8_tail l n" by auto
  have "n div 64 ^ Suc l * 64 + unat b mod 64 = n div 64 ^ l"
    unfolding b(2) by (simp add: mod_add_eq [symmetric, of 128] div_mult2_eq [symmetric] power_Suc2 del: power_Suc)
      (simp add: div_mult2_eq)
  moreover have "utf8_is_cont b" unfolding utf8_is_cont_nat b(2) by simp
  ultimately show ?case using Suc.IH [OF b(3)] b(1) by (simp add: utf8_acc_def)
qed

lemma utf8_lead_tagged:
  assumes "l \<in> {1..5}" and "unat b = (2 ^ (2 + l) - 2) * 2 ^ (6 - l) + x" and "x < 2 ^ (6 - l)"
  shows "utf8_lead b = Some l \<and> unat b mod 2 ^ (6 - l) = x"
  using assms by (simp add: utf8_lead_cases)

lemma unicode_to_utf8_shape:
  assumes "0x80 \<le> unat c" and "unat c < 0x80000000"
  obtains l b bs where "l \<in> {1..5}" "unicode_to_utf8 c = b # bs" "map unat bs = utf8_tail l (unat c)"
    "unat b = (2 ^ (2 + l) - 2) * 2 ^ (6 - l) + unat c div 64 ^ l"
    "unat c div 64 ^ l < 2 ^ (6 - l)" "unat (utf8_min_code ! (l - 1)) \<le> unat c"
proof -
  let ?n = "unat c"
  note e = unat_unicode_to_utf8 [of c]
  have "\<exists>l. l \<in> {1..5} \<and> map unat (unicode_to_utf8 c) =
      ((2 ^ (2 + l) - 2) * 2 ^ (6 - l) + ?n div 64 ^ l) # utf8_tail l ?n \<and>
      ?n div 64 ^ l < 2 ^ (6 - l) \<and> unat (utf8_min_code ! (l - 1)) \<le> ?n"
  proof -
    consider "?n < 0x800" | "0x800 \<le> ?n" "?n < 0x10000"
      | "0x10000 \<le> ?n" "?n < 0x200000" | "0x200000 \<le> ?n" "?n < 0x4000000"
      | "0x4000000 \<le> ?n" using assms by linarith
    then show ?thesis
    proof cases
      case 1
      with assms e show ?thesis
        by (intro exI [of _ 1]) (simp add: utf8_min_code_def div_less_iff_less_mult utf8_tail_numeral)
    next
      case 2
      with assms e show ?thesis
        by (intro exI [of _ 2]) (simp add: utf8_min_code_def div_less_iff_less_mult utf8_tail_numeral)
    next
      case 3
      with assms e show ?thesis
        by (intro exI [of _ 3]) (simp add: utf8_min_code_def div_less_iff_less_mult utf8_tail_numeral)
    next
      case 4
      with assms e show ?thesis
        by (intro exI [of _ 4]) (simp add: utf8_min_code_def div_less_iff_less_mult utf8_tail_numeral)
    next
      case 5
      with assms e show ?thesis
        by (intro exI [of _ 5]) (simp add: utf8_min_code_def div_less_iff_less_mult utf8_tail_numeral)
    qed
  qed
  then show thesis using that by (auto simp: map_eq_Cons_conv)
qed

section \<open>Round trips\<close>

text \<open>C15.  Encoding then decoding is the identity: every value of at most 31 bits that
  \<open>unicode_to_utf8\<close> encodes is read back by \<open>unicode_from_utf8\<close>, whatever bytes follow, when
  \<open>max_len\<close> admits the encoding; the decoder stops right after it.\<close>

theorem utf8_encode_decode:
  assumes "c < 0x80000000" and "int (length (unicode_to_utf8 c)) \<le> max_len"
  shows "unicode_from_utf8 (unicode_to_utf8 c @ p) max_len = Some (Some (c, p))"
proof (cases "unat c < 0x80")
  case True
  then have "ucast (ucast c :: u8) = c"
    by (simp add: word_unat_eq_iff unat_ucast_u8 unat_ucast_mod)
  with True show ?thesis
    by (simp add: unicode_to_utf8_def unicode_from_utf8_def word_less_nat_alt unat_ucast_mod)
next
  case False
  with assms(1) obtain l b bs where s: "l \<in> {1..5}" "unicode_to_utf8 c = b # bs"
      "map unat bs = utf8_tail l (unat c)" "unat b = (2 ^ (2 + l) - 2) * 2 ^ (6 - l) + unat c div 64 ^ l"
      "unat c div 64 ^ l < 2 ^ (6 - l)" "unat (utf8_min_code ! (l - 1)) \<le> unat c"
    by (auto simp: word_less_nat_alt not_less elim: unicode_to_utf8_shape)
  note t = utf8_acc_tail [OF s(3)] and b = utf8_lead_tagged [OF s(1,4,5)]
  have "utf8_lead b = Some (length bs)" "list_all utf8_is_cont bs" "int (length bs) < max_len"
    using t b assms(2) s(2) by auto
  from unicode_from_utf8_multi [OF this, of p] obtain c' where "unat c' = unat c"
    "unicode_from_utf8 (b # bs @ p) max_len = Some (Some (c', p))"
    using t b s(6) by auto
  with s(2) show ?thesis by (simp add: word_unat_eq_iff)
qed


theorem utf8_encode_decode_witness:
  "(0x20ac :: u32) < 0x80000000 \<and> int (length (unicode_to_utf8 0x20ac)) \<le> 3 \<and>
   unicode_from_utf8 (unicode_to_utf8 0x20ac @ [0x41]) 3 = Some (Some (0x20ac, [0x41]))"
proof -
  have h: "(0x20ac :: u32) < 0x80000000" "int (length (unicode_to_utf8 0x20ac)) \<le> 3"
    by (simp_all add: unicode_to_utf8_def)
  show ?thesis using h utf8_encode_decode [OF h, of "[0x41]"] by blast
qed

lemma utf8_acc_ge: "n * 64 ^ length bs \<le> utf8_acc n bs"
proof (induction bs arbitrary: n)
  case Nil
  then show ?case by (simp add: utf8_acc_def)
next
  case (Cons b bs)
  have "n * 64 * 64 ^ length bs \<le> (n * 64 + unat b mod 64) * 64 ^ length bs" by simp
  also have "\<dots> \<le> utf8_acc n (b # bs)"
    using Cons [of "n * 64 + unat b mod 64"] by (simp add: utf8_acc_def)
  finally show ?case by (simp add: mult.assoc)
qed

lemma utf8_acc_div: "utf8_acc n bs div 64 ^ length bs = n"
  using utf8_acc_less [of n bs] utf8_acc_ge [of n bs] by (simp add: div_eq_range)

lemma utf8_tail_acc:
  "list_all utf8_is_cont bs \<Longrightarrow> utf8_tail (length bs) (utf8_acc n bs) = map unat bs"
proof (induction bs arbitrary: n)
  case Nil
  then show ?case by simp
next
  case (Cons b bs)
  have acc: "utf8_acc n (b # bs) = utf8_acc (n * 64 + unat b mod 64) bs"
    by (simp add: utf8_acc_def)
  have "unat b div 64 = 2" using Cons.prems by (simp add: utf8_is_cont_nat)
  then have "128 + unat b mod 64 = unat b" using div_mult_mod_eq [of "unat b" 64] by simp
  then show ?case
    using Cons.IH [of "n * 64 + unat b mod 64"] Cons.prems
    by (simp add: acc utf8_acc_div)
qed

lemma utf8_shape_bound:
  fixes n :: nat
  assumes "k \<in> {1..5}" and "n div 64 ^ k < 2 ^ (6 - k)"
  shows "n < 2 ^ (5 * k + 6)"
proof -
  have "n < 2 ^ (6 - k) * 64 ^ k" using assms(2) by (simp add: div_less_iff_less_mult)
  also have "\<dots> = 2 ^ (6 - k + 6 * k)" by (simp add: power_add power_mult)
  also have "6 - k + 6 * k = 5 * k + 6" using assms(1) by simp
  finally show ?thesis .
qed

lemma utf8_shape_unique:
  assumes "l \<in> {1..5}" "l' \<in> {1..5}"
    and "n div 64 ^ l < 2 ^ (6 - l)" "unat (utf8_min_code ! (l - 1)) \<le> n"
    and "n div 64 ^ l' < 2 ^ (6 - l')" "unat (utf8_min_code ! (l' - 1)) \<le> n"
  shows "l = l'"
proof -
  have False if "k < k'" "k \<in> {1..5}" "k' \<in> {1..5}" "n < 2 ^ (5 * k + 6)"
    "unat (utf8_min_code ! (k' - 1)) \<le> n" for k k'
  proof -
    have "(2::nat) ^ (5 * k + 6) \<le> 2 ^ (5 * k' + 1)" using that(1) by (intro power_increasing) auto
    moreover have "unat (utf8_min_code ! (k' - 1)) = 2 ^ (5 * k' + 1)"
      using that(1,2) utf8_min_code_nat [OF that(3)] by auto
    ultimately show False using that(4,5) by linarith
  qed
  from this [of l l'] this [of l' l] utf8_shape_bound [OF assms(1,3)] utf8_shape_bound [OF assms(2,5)] assms show ?thesis
    by (metis linorder_neqE_nat)
qed

text \<open>C16.  Decoding is canonical: the bytes a successful \<open>unicode_from_utf8\<close> consumes are exactly
  the encoding that \<open>unicode_to_utf8\<close> gives of the value it returns (no overlong form is
  accepted), the value has at most 31 bits, and no more than \<open>max_len\<close> bytes are consumed
  (one byte is always read).\<close>

theorem utf8_decode_canonical:
  assumes "unicode_from_utf8 p max_len = Some (Some (c, p'))"
  shows "p = unicode_to_utf8 c @ p' \<and> c < 0x80000000 \<and> int (length (unicode_to_utf8 c)) \<le> max 1 max_len"
  using unicode_from_utf8_SomeD [OF assms]
proof (elim disjE exE conjE)
  fix b assume b: "p = b # p'" "b < 0x80" "c = ucast b"
  then have "unat c = unat b" "ucast c = b" by (simp_all add: unat_ucast_u8 ucast_ucast_u8)
  with b show ?thesis
    by (simp add: unicode_to_utf8_def word_less_nat_alt)
next
  fix b and bs :: "u8 list"
  let ?l = "length bs"
  assume b: "p = b # bs @ p'" "utf8_lead b = Some ?l" "list_all utf8_is_cont bs"
    and len: "int ?l < max_len" and v: "unat c = utf8_acc (unat b mod 2 ^ (6 - ?l)) bs"
    and m: "unat (utf8_min_code ! (?l - 1)) \<le> unat c"
  have l: "?l \<in> {1..5}" and tag: "unat b div 2 ^ (6 - ?l) = 2 ^ (2 + ?l) - 2"
    using b(2) by (auto simp: utf8_lead_cases)
  have hd: "unat c div 64 ^ ?l = unat b mod 2 ^ (6 - ?l)" unfolding v by (rule utf8_acc_div)
  have bits: "unat c div 64 ^ ?l < 2 ^ (6 - ?l)" unfolding hd by simp
  have "(2::nat) ^ (5 * ?l + 6) \<le> 2 ^ 31" using l by (intro power_increasing) auto
  then have up: "unat c < 0x80000000" using utf8_shape_bound [OF l bits] by simp
  have "(2::nat) ^ 7 \<le> 2 ^ (5 * ?l + 1)" if "?l \<noteq> 1" using l that by (intro power_increasing) auto
  then have lo: "0x80 \<le> unat c" using m utf8_min_code_nat [OF l] by (auto split: if_splits)
  obtain l' b' bs' where s: "l' \<in> {1..5}" "unicode_to_utf8 c = b' # bs'"
      "map unat bs' = utf8_tail l' (unat c)" "unat b' = (2 ^ (2 + l') - 2) * 2 ^ (6 - l') + unat c div 64 ^ l'"
      "unat c div 64 ^ l' < 2 ^ (6 - l')" "unat (utf8_min_code ! (l' - 1)) \<le> unat c"
    using lo up by (rule unicode_to_utf8_shape)
  have l': "l' = ?l" using utf8_shape_unique [OF s(1) l s(5,6) bits m] .
  have "unat b' = unat b" using s(4) div_mult_mod_eq [of "unat b" "2 ^ (6 - ?l)"] tag hd l' by simp
  moreover have "map unat bs' = map unat bs" using s(3) utf8_tail_acc [OF b(3)] v l' by simp
  ultimately have "unicode_to_utf8 c = b # bs"
    using s(2) by (simp add: word_unat_eq_iff inj_map_eq_map inj_def)
  with b(1) up len show ?thesis by (simp add: word_less_nat_alt)
qed

theorem utf8_decode_canonical_witness:
  "unicode_from_utf8 [0xe2, 0x82, 0xac, 0x41] 4 = Some (Some (0x20ac, [0x41])) \<and>
   [0xe2, 0x82, 0xac, 0x41] = unicode_to_utf8 0x20ac @ [0x41]"
proof -
  have h: "unicode_from_utf8 [0xe2, 0x82, 0xac, 0x41] 4 = Some (Some (0x20ac, [0x41]))"
    by code_simp
  show ?thesis using h utf8_decode_canonical [OF h] by blast
qed

text \<open>C17.  Memory safety of the decoder: when the input has at least one byte and \<open>max_len\<close> does not
  exceed its length, \<open>unicode_from_utf8\<close> never reads past the end of the input.\<close>

theorem utf8_decode_safe:
  assumes "p \<noteq> []" and "max_len \<le> int (length p)"
  shows "\<exists>r. unicode_from_utf8 p max_len = Some r"
proof -
  obtain c q where p: "p = c # q" using assms(1) by (cases p) auto
  show ?thesis
  proof (cases "utf8_lead c")
    case None
    then show ?thesis by (simp add: p unicode_from_utf8_def)
  next
    case (Some l)
    show ?thesis
    proof (cases "max_len - 1 < int l")
      case True
      with Some show ?thesis by (simp add: p unicode_from_utf8_def)
    next
      case False
      then have "l \<le> length q" using assms(2) p by simp
      then obtain r where "utf8_cont l (ucast c AND utf8_first_code_mask ! (l - 1)) q = Some r"
        using utf8_cont_total by blast
      with Some False show ?thesis by (simp add: p unicode_from_utf8_def split: option.split)
    qed
  qed
qed

theorem utf8_decode_safe_witness:
  "\<exists>r. unicode_from_utf8 [0xe2, 0x82] 2 = Some r"
  by (rule utf8_decode_safe) simp_all

end
