(* ===== verification/Rqsort.thy ===== *)
theory Rqsort
  imports Prelude
begin

text \<open>
  The sorting routine of \<open>src/native/quickjs/cutils.c\<close>: \<open>heapsortx\<close>, \<open>med3\<close> and \<open>rqsort\<close>.

  An array of \<open>nmemb\<close> elements of \<open>size\<close> bytes is a list with one entry per element: the pointer
  \<open>base + k * size\<close> is the index \<open>k\<close>.  The C code keeps several positions twice, as a count and as
  a pointer (\<open>i\<close> and \<open>pi\<close>, \<open>lt\<close> and \<open>plt\<close>, \<open>gt\<close> and \<open>pgt\<close>); the model keeps the index.  Every
  element access is bounded: \<^term>\<open>None\<close> is an access outside the array, or an overflow of the
  local array \<open>stack[50]\<close>.  The comparison function is an arbitrary function to the integers, since
  its callers pass functions that may not be consistent.
\<close>

section \<open>Model\<close>

type_synonym 'a cmp_f = "'a \<Rightarrow> 'a \<Rightarrow> int"

definition cmp_at :: "'a cmp_f \<Rightarrow> 'a list \<Rightarrow> nat \<Rightarrow> nat \<Rightarrow> int option" where
  "cmp_at cmp xs i j = do { a \<leftarrow> rd xs i; b \<leftarrow> rd xs j; Some (cmp a b) }"

text \<open>The inner loop of both phases of \<open>heapsortx\<close>: sift the element at \<open>r\<close> down in the heap that
  occupies \<open>n\<close> elements from \<open>base\<close>.\<close>

definition heap_child :: "'a cmp_f \<Rightarrow> nat \<Rightarrow> nat \<Rightarrow> 'a list \<Rightarrow> nat \<Rightarrow> nat option" where
  "heap_child cmp base n xs c =
     (if c < n - 1 then do {
        d \<leftarrow> cmp_at cmp xs (base + c) (base + c + 1);
        Some (if d \<le> 0 then c + 1 else c) }
      else Some c)"

lemma heap_child_bounds:
  "heap_child cmp base n xs c = Some c' \<Longrightarrow> c < n \<Longrightarrow> c \<le> c' \<and> c' < n \<and> c' \<le> c + 1"
  by (auto simp: heap_child_def split: if_splits bind_splits)

function sift_down :: "'a cmp_f \<Rightarrow> nat \<Rightarrow> nat \<Rightarrow> 'a list \<Rightarrow> nat \<Rightarrow> 'a list option" where
  "sift_down cmp base n xs r =
     (if r * 2 + 1 < n then do {
        c \<leftarrow> heap_child cmp base n xs (r * 2 + 1);
        d \<leftarrow> cmp_at cmp xs (base + r) (base + c);
        if d > 0 then Some xs
        else do {
          ys \<leftarrow> swap_at xs (base + r) (base + c);
          sift_down cmp base n ys c } }
      else Some xs)"
  by pat_completeness auto
termination
  by (relation "measure (\<lambda>(cmp, base, n, xs, r). n - r)") (auto dest!: heap_child_bounds)

declare sift_down.simps [simp del]

primrec heap_build :: "'a cmp_f \<Rightarrow> nat \<Rightarrow> nat \<Rightarrow> nat \<Rightarrow> 'a list \<Rightarrow> 'a list option" where
  "heap_build cmp base n 0 xs = Some xs"
| "heap_build cmp base n (Suc i) xs = do {
     ys \<leftarrow> sift_down cmp base n xs i;
     heap_build cmp base n i ys }"

primrec heap_extract :: "'a cmp_f \<Rightarrow> nat \<Rightarrow> nat \<Rightarrow> 'a list \<Rightarrow> 'a list option" where
  "heap_extract cmp base 0 xs = Some xs"
| "heap_extract cmp base (Suc i) xs = do {
     ys \<leftarrow> swap_at xs base (base + Suc i);
     zs \<leftarrow> sift_down cmp base (Suc i) ys 0;
     heap_extract cmp base i zs }"

definition heapsortx :: "'a cmp_f \<Rightarrow> nat \<Rightarrow> nat \<Rightarrow> 'a list \<Rightarrow> 'a list option" where
  "heapsortx cmp base nmemb xs =
     (if nmemb > 1 then do {
        ys \<leftarrow> heap_build cmp base nmemb (nmemb div 2) xs;
        heap_extract cmp base (nmemb - 1) ys }
      else Some xs)"

definition med3 :: "'a cmp_f \<Rightarrow> 'a list \<Rightarrow> nat \<Rightarrow> nat \<Rightarrow> nat \<Rightarrow> nat option" where
  "med3 cmp xs a b c = do {
     ab \<leftarrow> cmp_at cmp xs a b;
     if ab < 0 then do {
       bc \<leftarrow> cmp_at cmp xs b c;
       if bc < 0 then Some b
       else do { ac \<leftarrow> cmp_at cmp xs a c; Some (if ac < 0 then c else a) } }
     else do {
       bc \<leftarrow> cmp_at cmp xs b c;
       if bc > 0 then Some b
       else do { ac \<leftarrow> cmp_at cmp xs a c; Some (if ac < 0 then a else c) } } }"

text \<open>The two scans of the partition loop.  All positions are relative to \<open>ptr\<close>; the pivot is the
  element 0.\<close>

function scan_left :: "'a cmp_f \<Rightarrow> nat \<Rightarrow> 'a list \<Rightarrow> nat \<Rightarrow> nat \<Rightarrow> nat \<Rightarrow> ('a list \<times> nat \<times> nat) option" where
  "scan_left cmp ptr xs i lt pj =
     (if i < pj then do {
        c \<leftarrow> cmp_at cmp xs ptr (ptr + i);
        if c \<ge> 0 then
          (if c = 0 then do {
             ys \<leftarrow> swap_at xs (ptr + lt) (ptr + i);
             scan_left cmp ptr ys (i + 1) (lt + 1) pj }
           else scan_left cmp ptr xs (i + 1) lt pj)
        else Some (xs, i, lt) }
      else Some (xs, i, lt))"
  by pat_completeness auto
termination
  by (relation "measure (\<lambda>(cmp, ptr, xs, i, lt, pj). pj - i)") auto

declare scan_left.simps [simp del]

text \<open>The second scan decrements \<open>pj\<close> before each test; \<open>pj = 0\<close> cannot occur there, because the
  first element is the pivot and \<open>pi\<close> is past it: it would be a pointer before the segment.\<close>

fun scan_right :: "'a cmp_f \<Rightarrow> nat \<Rightarrow> 'a list \<Rightarrow> nat \<Rightarrow> nat \<Rightarrow> nat \<Rightarrow> ('a list \<times> nat \<times> nat) option" where
  "scan_right cmp ptr xs i 0 gt = None"
| "scan_right cmp ptr xs i (Suc pj) gt =
     (if i < pj then do {
        c \<leftarrow> cmp_at cmp xs ptr (ptr + pj);
        if c \<le> 0 then
          (if c = 0 then do {
             ys \<leftarrow> swap_at xs (ptr + (gt - 1)) (ptr + pj);
             scan_right cmp ptr ys i pj (gt - 1) }
           else scan_right cmp ptr xs i pj gt)
        else Some (xs, pj, gt) }
      else Some (xs, pj, gt))"

lemma scan_left_index:
  "upto_ub (scan_left cmp ptr xs i lt pj) (\<lambda>(ys, i', lt').
     i \<le> i' \<and> lt \<le> lt' \<and> lt' + i \<le> lt + i' \<and> (i \<le> pj \<longrightarrow> i' \<le> pj))"
proof (induction cmp ptr xs i lt pj rule: scan_left.induct)
  case (1 cmp ptr xs i lt pj)
  show ?case
    by (subst scan_left.simps)
      (auto intro!: upto_intros upto_mono [OF "1.IH"(1)] upto_mono [OF "1.IH"(2)])
qed

lemma scan_right_index:
  "upto_ub (scan_right cmp ptr xs i pj gt) (\<lambda>(ys, pj', gt').
     pj' < pj \<and> gt' \<le> gt \<and> (pj \<le> gt \<longrightarrow> pj' \<le> gt') \<and> (i \<le> gt \<longrightarrow> pj \<le> gt \<longrightarrow> i \<le> gt'))"
proof (induction cmp ptr xs i pj gt rule: scan_right.induct)
  case (2 cmp ptr xs i pj gt)
  show ?case
    by (auto intro!: upto_intros upto_mono [OF "2.IH"(1)] upto_mono [OF "2.IH"(2)])
qed simp

lemma scan_right_less: "scan_right cmp ptr xs i pj gt = Some (ys, pj', gt') \<Longrightarrow> pj' < pj"
  using uptoD [OF scan_right_index] by fastforce

text \<open>The partition loop; its result is the array, \<open>i\<close>, \<open>lt\<close> and \<open>gt\<close>.\<close>

function partition_loop ::
  "'a cmp_f \<Rightarrow> nat \<Rightarrow> 'a list \<Rightarrow> nat \<Rightarrow> nat \<Rightarrow> nat \<Rightarrow> nat \<Rightarrow> ('a list \<times> nat \<times> nat \<times> nat) option" where
  "partition_loop cmp ptr xs i lt pj gt = do {
     (ys, i', lt') \<leftarrow> scan_left cmp ptr xs i lt pj;
     (zs, pj', gt') \<leftarrow> scan_right cmp ptr ys i' pj gt;
     if i' \<ge> pj' then Some (zs, i', lt', gt')
     else do {
       us \<leftarrow> swap_at zs (ptr + i') (ptr + pj');
       partition_loop cmp ptr us (i' + 1) lt' pj' gt' } }"
  by pat_completeness auto
termination
  by (relation "measure (\<lambda>(cmp, ptr, xs, i, lt, pj, gt). pj)") (auto dest: scan_right_less)

declare partition_loop.simps [simp del]

text \<open>\<open>swap_block(a, b, span)\<close> exchanges \<open>span\<close> elements, first to last.\<close>

primrec swap_block :: "'a list \<Rightarrow> nat \<Rightarrow> nat \<Rightarrow> nat \<Rightarrow> 'a list option" where
  "swap_block xs a b 0 = Some xs"
| "swap_block xs a b (Suc k) = do {
     ys \<leftarrow> swap_at xs a b;
     swap_block ys (a + 1) (b + 1) k }"

text \<open>One round of the quicksort loop: the pivot moves to the front, the partition loop runs, and
  the elements identical to the pivot are moved from both ends to the middle.  The result is the
  array and the final \<open>lt\<close> and \<open>gt\<close>.\<close>

definition partition_step :: "'a cmp_f \<Rightarrow> nat \<Rightarrow> nat \<Rightarrow> 'a list \<Rightarrow> ('a list \<times> nat \<times> nat) option" where
  "partition_step cmp ptr nmemb xs = do {
     let m4 = nmemb div 4;
     m \<leftarrow> med3 cmp xs (ptr + m4) (ptr + 2 * m4) (ptr + 3 * m4);
     ys \<leftarrow> swap_at xs ptr m;
     (zs, i, lt, gt) \<leftarrow> partition_loop cmp ptr ys 1 1 nmemb nmemb;
     let span = (if lt > i - lt then i - lt else lt);
     us \<leftarrow> swap_block zs ptr (ptr + i - span) span;
     let span' = (if nmemb - gt > gt - i then gt - i else nmemb - gt);
     vs \<leftarrow> swap_block us (ptr + i) (ptr + nmemb - span') span';
     Some (vs, i - lt, nmemb - (gt - i)) }"

text \<open>Insertion sort of a short fragment.\<close>

primrec insert_down :: "'a cmp_f \<Rightarrow> nat \<Rightarrow> nat \<Rightarrow> 'a list \<Rightarrow> 'a list option" where
  "insert_down cmp ptr 0 xs = Some xs"
| "insert_down cmp ptr (Suc j) xs = do {
     c \<leftarrow> cmp_at cmp xs (ptr + j) (ptr + Suc j);
     if c > 0 then do {
       ys \<leftarrow> swap_at xs (ptr + Suc j) (ptr + j);
       insert_down cmp ptr j ys }
     else Some xs }"

function insertion_loop :: "'a cmp_f \<Rightarrow> nat \<Rightarrow> nat \<Rightarrow> nat \<Rightarrow> 'a list \<Rightarrow> 'a list option" where
  "insertion_loop cmp ptr nmemb pi xs =
     (if pi < nmemb then do {
        ys \<leftarrow> insert_down cmp ptr pi xs;
        insertion_loop cmp ptr nmemb (pi + 1) ys }
      else Some xs)"
  by pat_completeness auto
termination
  by (relation "measure (\<lambda>(cmp, ptr, nmemb, pi, xs). nmemb - pi)") auto

declare insertion_loop.simps [simp del]

lemma partition_loop_index:
  "upto_ub (partition_loop cmp ptr xs i lt pj gt) (\<lambda>(ys, i', lt', gt').
     i \<le> pj \<longrightarrow> pj \<le> gt \<longrightarrow> lt \<le> i \<longrightarrow> lt \<le> lt' \<and> lt' \<le> i' \<and> i' \<le> gt' \<and> gt' \<le> gt)"
proof (induction cmp ptr xs i lt pj gt rule: partition_loop.induct)
  case (1 cmp ptr xs i lt pj gt)
  show ?case
    apply (subst partition_loop.simps)
    apply (intro upto_intros)
    subgoal by (auto dest!: uptoD [OF scan_left_index] uptoD [OF scan_right_index])
    subgoal for x a b aa ba xa ab bb ac bc xb
      apply (rule upto_mono [OF "1.IH"])
            apply (assumption | rule refl)+
      by (auto dest!: uptoD [OF scan_left_index] uptoD [OF scan_right_index])
    done
qed

lemma partition_step_index:
  assumes "partition_step cmp ptr nmemb xs = Some (ys, lt, gt)" and "0 < nmemb"
  shows "lt < gt \<and> gt \<le> nmemb"
proof -
  have "upto_ub (partition_step cmp ptr nmemb xs) (\<lambda>(ys, lt, gt). lt < gt \<and> gt \<le> nmemb)"
    unfolding partition_step_def using assms(2)
    by (intro upto_intros) (auto dest!: uptoD [OF partition_loop_index])
  then show ?thesis using assms(1) by (auto dest: uptoD)
qed

type_synonym rq_segment = "nat \<times> nat \<times> nat"

text \<open>The local array \<open>stack[50]\<close>, top first.\<close>

definition rq_push :: "rq_segment \<Rightarrow> rq_segment list \<Rightarrow> rq_segment list option" where
  "rq_push e st = (if length st < 50 then Some (e # st) else None)"

function quick_loop ::
  "'a cmp_f \<Rightarrow> nat \<Rightarrow> nat \<Rightarrow> nat \<Rightarrow> rq_segment list \<Rightarrow> 'a list \<Rightarrow>
   ('a list \<times> nat \<times> nat \<times> rq_segment list) option" where
  "quick_loop cmp ptr nmemb depth st xs =
     (if nmemb > 6 then
        (if depth + 1 > 50 then do {
           ys \<leftarrow> heapsortx cmp ptr nmemb xs;
           Some (ys, ptr, 0, st) }
         else do {
           (ys, lt, gt) \<leftarrow> partition_step cmp ptr nmemb xs;
           if lt > nmemb - gt then do {
             st' \<leftarrow> rq_push (ptr, lt, depth + 1) st;
             quick_loop cmp (ptr + gt) (nmemb - gt) (depth + 1) st' ys }
           else do {
             st' \<leftarrow> rq_push (ptr + gt, nmemb - gt, depth + 1) st;
             quick_loop cmp ptr lt (depth + 1) st' ys } })
      else Some (xs, ptr, nmemb, st))"
  by pat_completeness auto
termination
  by (relation "measure (\<lambda>(cmp, ptr, nmemb, depth, st, xs). nmemb)")
    (auto dest!: partition_step_index)

declare quick_loop.simps [simp del]

definition rq_work :: "rq_segment list \<Rightarrow> nat" where
  "rq_work st = sum_list (map (\<lambda>(ptr, n, d). n + 1) st)"

lemma quick_loop_work:
  "upto_ub (quick_loop cmp ptr nmemb depth st xs)
     (\<lambda>(ys, ptr', n', st'). n' + rq_work st' \<le> nmemb + rq_work st)"
proof (induction cmp ptr nmemb depth st xs rule: quick_loop.induct)
  case (1 cmp ptr nmemb depth st xs)
  show ?case
    apply (subst quick_loop.simps)
    apply (intro upto_intros)
    subgoal by simp
    subgoal for x ys b lt gt st'
      by (rule upto_mono [OF "1.IH"(1)])
        (auto dest!: partition_step_index simp: rq_push_def rq_work_def split: if_splits)
    subgoal for x ys b lt gt st'
      by (rule upto_mono [OF "1.IH"(2)])
        (auto dest!: partition_step_index simp: rq_push_def rq_work_def split: if_splits)
    subgoal by simp
    done
qed

function rqsort_loop :: "'a cmp_f \<Rightarrow> rq_segment list \<Rightarrow> 'a list \<Rightarrow> 'a list option" where
  "rqsort_loop cmp [] xs = Some xs"
| "rqsort_loop cmp ((ptr, nmemb, depth) # st) xs = do {
     (ys, ptr', nmemb', st') \<leftarrow> quick_loop cmp ptr nmemb depth st xs;
     zs \<leftarrow> insertion_loop cmp ptr' nmemb' 1 ys;
     rqsort_loop cmp st' zs }"
  by pat_completeness auto
termination
  by (relation "measure (\<lambda>(cmp, st, xs). rq_work st)")
    (auto dest!: uptoD [OF quick_loop_work] simp: rq_work_def)

declare rqsort_loop.simps [simp del]

definition rqsort :: "'a cmp_f \<Rightarrow> nat \<Rightarrow> nat \<Rightarrow> 'a list \<Rightarrow> 'a list option" where
  "rqsort cmp nmemb sz xs =
     (if nmemb < 2 \<or> sz = 0 then Some xs
      else rqsort_loop cmp [(0, nmemb, 0)] xs)"

section \<open>Safety for every comparison function\<close>

lemma ok_cmp_at [ok_intros]:
  "i < length xs \<Longrightarrow> j < length xs \<Longrightarrow> Q (cmp (xs ! i) (xs ! j)) \<Longrightarrow> ok (cmp_at cmp xs i j) Q"
  by (simp add: cmp_at_def rd_def)

lemma ok_heap_child:
  assumes "base + n \<le> length xs" and "c < n"
  shows "ok (heap_child cmp base n xs c) (\<lambda>c'. c \<le> c' \<and> c' < n)"
  unfolding heap_child_def using assms by (intro ok_intros) auto

lemma sift_down_safe:
  "base + n \<le> length xs \<Longrightarrow> ok (sift_down cmp base n xs r) (perm_range base (base + n) xs)"
proof (induction cmp base n xs r rule: sift_down.induct)
  case (1 cmp base n xs r)
  show ?case
  proof (cases "r * 2 + 1 < n")
    case True
    from ok_heap_child [OF "1.prems" True, of cmp] obtain c where
      c: "heap_child cmp base n xs (r * 2 + 1) = Some c" "r * 2 + 1 \<le> c" "c < n"
      by (auto elim: okE)
    have d: "cmp_at cmp xs (base + r) (base + c) = Some (cmp (xs ! (base + r)) (xs ! (base + c)))"
      using c "1.prems" by (simp add: cmp_at_def rd_def)
    let ?ys = "swapped xs (base + r) (base + c)"
    have s: "swap_at xs (base + r) (base + c) = Some ?ys"
      using c "1.prems" by (simp add: swap_at_def swapped_def rd_def wr_def)
    have p: "perm_range base (base + n) xs ?ys"
      using c "1.prems" by (intro perm_range_swapped) auto
    have "ok (sift_down cmp base n ?ys c) (perm_range base (base + n) xs)"
      if "\<not> 0 < cmp (xs ! (base + r)) (xs ! (base + c))"
      using "1.IH" [OF True c(1) d that s] "1.prems" by (auto elim!: ok_mono intro: perm_range_trans [OF p])
    then show ?thesis
      using True c(1) by (subst sift_down.simps) (simp add: d s)
  next
    case False
    then show ?thesis by (subst sift_down.simps) simp
  qed
qed

lemma heap_build_safe:
  "base + n \<le> length xs \<Longrightarrow> ok (heap_build cmp base n i xs) (perm_range base (base + n) xs)"
proof (induction i arbitrary: xs)
  case (Suc i)
  show ?case
    unfolding heap_build.simps
    by (rule ok_bind_perm [OF sift_down_safe]) (use Suc in simp_all)
qed simp

lemma heap_extract_safe:
  "base + n \<le> length xs \<Longrightarrow> i < n \<Longrightarrow> ok (heap_extract cmp base i xs) (perm_range base (base + n) xs)"
proof (induction i arbitrary: xs)
  case (Suc i)
  have sift: "ok (sift_down cmp base (Suc i) ys 0) (perm_range base (base + n) ys)"
    if "length ys = length xs" for ys
    using Suc.prems that by (intro ok_mono [OF sift_down_safe]) (auto elim: perm_range_widen)
  show ?case
    unfolding heap_extract.simps
  proof (rule ok_bind_perm)
    show "ok (swap_at xs base (base + Suc i)) (perm_range base (base + n) xs)"
      using Suc.prems by (intro ok_swap_at perm_range_swapped) auto
    show "ok (sift_down cmp base (Suc i) ys 0 \<bind> heap_extract cmp base i) (perm_range base (base + n) ys)"
      if "length ys = length xs" for ys
      using that Suc by (intro ok_bind_perm sift) auto
  qed
qed simp

lemma heapsortx_safe:
  "base + n \<le> length xs \<Longrightarrow> ok (heapsortx cmp base n xs) (perm_range base (base + n) xs)"
  unfolding heapsortx_def
  by (intro ok_if ok_bind_perm heap_build_safe heap_extract_safe) auto

lemma ok_med3:
  "a < length xs \<Longrightarrow> b < length xs \<Longrightarrow> c < length xs \<Longrightarrow> ok (med3 cmp xs a b c) (\<lambda>m. m \<in> {a, b, c})"
  unfolding med3_def by (intro ok_intros) auto

lemma insert_down_safe:
  "j < n \<Longrightarrow> ptr + n \<le> length xs \<Longrightarrow> ok (insert_down cmp ptr j xs) (perm_range ptr (ptr + n) xs)"
proof (induction j arbitrary: xs)
  case (Suc j)
  have "ok (swap_at xs (ptr + Suc j) (ptr + j) \<bind> insert_down cmp ptr j) (perm_range ptr (ptr + n) xs)"
    using Suc by (intro ok_bind_perm ok_swap_at perm_range_swapped) auto
  then show ?case using Suc.prems by (auto intro!: ok_bind ok_cmp_at)
qed simp

lemma insertion_loop_safe:
  "ptr + n \<le> length xs \<Longrightarrow> ok (insertion_loop cmp ptr n i xs) (perm_range ptr (ptr + n) xs)"
proof (induction cmp ptr n i xs rule: insertion_loop.induct)
  case (1 cmp ptr n i xs)
  have "ok (insert_down cmp ptr i xs \<bind> insertion_loop cmp ptr n (i + 1)) (perm_range ptr (ptr + n) xs)"
    if "i < n"
    using "1" that by (intro ok_bind_perm insert_down_safe) auto
  then show ?case by (subst insertion_loop.simps) auto
qed

lemma swap_block_safe:
  "l \<le> a \<Longrightarrow> a + k \<le> h \<Longrightarrow> l \<le> b \<Longrightarrow> b + k \<le> h \<Longrightarrow> h \<le> length xs \<Longrightarrow>
   ok (swap_block xs a b k) (perm_range l h xs)"
proof (induction k arbitrary: xs a b)
  case (Suc k)
  then show ?case
    unfolding swap_block.simps by (intro ok_bind_perm ok_swap_at perm_range_swapped) auto
qed simp

text \<open>The partition invariant.  It speaks of the values the comparison with the pivot \<open>p\<close> returned, so
  it needs no assumption on the comparison function.\<close>

definition part_left :: "'a cmp_f \<Rightarrow> 'a \<Rightarrow> nat \<Rightarrow> 'a list \<Rightarrow> nat \<Rightarrow> nat \<Rightarrow> bool" where
  "part_left cmp p ptr xs lt i \<longleftrightarrow>
     (\<forall>k. 1 \<le> k \<and> k < lt \<longrightarrow> cmp p (xs ! (ptr + k)) = 0) \<and>
     (\<forall>k. lt \<le> k \<and> k < i \<longrightarrow> cmp p (xs ! (ptr + k)) > 0)"

definition part_right :: "'a cmp_f \<Rightarrow> 'a \<Rightarrow> nat \<Rightarrow> nat \<Rightarrow> 'a list \<Rightarrow> nat \<Rightarrow> nat \<Rightarrow> bool" where
  "part_right cmp p ptr n xs pj gt \<longleftrightarrow>
     (\<forall>k. pj \<le> k \<and> k < gt \<longrightarrow> cmp p (xs ! (ptr + k)) < 0) \<and>
     (\<forall>k. gt \<le> k \<and> k < n \<longrightarrow> cmp p (xs ! (ptr + k)) = 0)"

lemma scan_left_ok:
  "ptr + pj \<le> length xs \<Longrightarrow> 1 \<le> lt \<Longrightarrow> lt \<le> i \<Longrightarrow> i \<le> pj \<Longrightarrow>
   part_left cmp (xs ! ptr) ptr xs lt i \<Longrightarrow>
   ok (scan_left cmp ptr xs i lt pj) (\<lambda>(ys, i', lt').
     perm_range (Suc ptr) (ptr + pj) xs ys \<and> part_left cmp (xs ! ptr) ptr ys lt' i' \<and>
     1 \<le> lt' \<and> lt' \<le> i' \<and> i \<le> i' \<and> i' \<le> pj \<and> (i' < pj \<longrightarrow> cmp (xs ! ptr) (ys ! (ptr + i')) < 0))"
proof (induction cmp ptr xs i lt pj rule: scan_left.induct)
  case (1 cmp ptr xs i lt pj)
  show ?case
  proof (cases "i < pj")
    case True
    let ?c = "cmp (xs ! ptr) (xs ! (ptr + i))" and ?ys = "swapped xs (ptr + lt) (ptr + i)"
    have c: "cmp_at cmp xs ptr (ptr + i) = Some ?c"
      using "1.prems" True by (simp add: cmp_at_def rd_def)
    have s: "swap_at xs (ptr + lt) (ptr + i) = Some ?ys"
      using "1.prems" True by (simp add: swap_at_def swapped_def rd_def wr_def)
    have p: "perm_range (Suc ptr) (ptr + pj) xs ?ys"
      using "1.prems" True by (intro perm_range_swapped) auto
    have piv: "?ys ! ptr = xs ! ptr" using "1.prems" True by simp
    consider "?c < 0" | "?c = 0" | "?c > 0" by linarith
    then show ?thesis
    proof cases
      case 1
      with True c "1.prems" show ?thesis by (subst scan_left.simps) simp
    next
      case 2
      have "part_left cmp (xs ! ptr) ptr ?ys (lt + 1) (i + 1)"
        using 2 "1.prems" True by (auto simp: part_left_def less_Suc_eq)
      with "1.IH"(1) [OF True c _ 2 s] "1.prems" True 2 piv
      have "ok (scan_left cmp ptr ?ys (i + 1) (lt + 1) pj) (\<lambda>(ys, i', lt').
        perm_range (Suc ptr) (ptr + pj) ?ys ys \<and> part_left cmp (xs ! ptr) ptr ys lt' i' \<and>
        1 \<le> lt' \<and> lt' \<le> i' \<and> i + 1 \<le> i' \<and> i' \<le> pj \<and> (i' < pj \<longrightarrow> cmp (xs ! ptr) (ys ! (ptr + i')) < 0))"
        by simp
      with 2 True c s show ?thesis
        by (subst scan_left.simps) (auto elim!: ok_mono intro: perm_range_trans [OF p])
    next
      case 3
      have "part_left cmp (xs ! ptr) ptr xs lt (i + 1)"
        using 3 "1.prems" True by (auto simp: part_left_def less_Suc_eq)
      with "1.IH"(2) [OF True c] "1.prems" True 3
      have "ok (scan_left cmp ptr xs (i + 1) lt pj) (\<lambda>(ys, i', lt').
        perm_range (Suc ptr) (ptr + pj) xs ys \<and> part_left cmp (xs ! ptr) ptr ys lt' i' \<and>
        1 \<le> lt' \<and> lt' \<le> i' \<and> i + 1 \<le> i' \<and> i' \<le> pj \<and> (i' < pj \<longrightarrow> cmp (xs ! ptr) (ys ! (ptr + i')) < 0))"
        by simp
      with 3 True c show ?thesis by (subst scan_left.simps) (auto elim!: ok_mono)
    qed
  next
    case False
    with "1.prems" show ?thesis by (subst scan_left.simps) simp
  qed
qed

lemma part_right_extend:
  "part_right cmp p ptr n xs (Suc pj) gt \<Longrightarrow> cmp p (xs ! (ptr + pj)) < 0 \<Longrightarrow> part_right cmp p ptr n xs pj gt"
  unfolding part_right_def by (metis Suc_leI le_neq_implies_less)

lemma scan_right_ok:
  "ptr + n \<le> length xs \<Longrightarrow> 1 \<le> i \<Longrightarrow> i \<le> pj \<Longrightarrow> pj \<le> gt \<Longrightarrow> gt \<le> n \<Longrightarrow>
   part_right cmp (xs ! ptr) ptr n xs pj gt \<Longrightarrow>
   (i < pj \<longrightarrow> cmp (xs ! ptr) (xs ! (ptr + i)) < 0) \<Longrightarrow>
   ok (scan_right cmp ptr xs i pj gt) (\<lambda>(ys, pj', gt').
     perm_range (Suc (ptr + i)) (ptr + n) xs ys \<and> gt' \<le> n \<and> pj' < pj \<and>
     (if i < pj' then pj' < gt' \<and> cmp (xs ! ptr) (ys ! (ptr + pj')) > 0 \<and>
        part_right cmp (xs ! ptr) ptr n ys (pj' + 1) gt'
      else i \<le> gt' \<and> part_right cmp (xs ! ptr) ptr n ys i gt'))"
proof (induction cmp ptr xs i pj gt rule: scan_right.induct)
  case (2 cmp ptr xs i pj gt)
  show ?case
  proof (cases "i < pj")
    case True
    let ?p = "xs ! ptr"
    obtain g where g: "gt = Suc g" using "2.prems"(4) by (cases gt) auto
    let ?c = "cmp ?p (xs ! (ptr + pj))" and ?ys = "swapped xs (ptr + g) (ptr + pj)"
    have c: "cmp_at cmp xs ptr (ptr + pj) = Some ?c"
      using "2.prems" True by (simp add: cmp_at_def rd_def)
    have s: "swap_at xs (ptr + (gt - 1)) (ptr + pj) = Some ?ys"
      using "2.prems" True g by (simp add: swap_at_def swapped_def rd_def wr_def)
    have p: "perm_range (Suc (ptr + i)) (ptr + n) xs ?ys"
      using "2.prems" True g by (intro perm_range_swapped) auto
    have piv: "?ys ! ptr = ?p" "?ys ! (ptr + i) = xs ! (ptr + i)" using "2.prems" True g by auto
    let ?Q = "\<lambda>zs (ys, pj', gt').
     perm_range (Suc (ptr + i)) (ptr + n) zs ys \<and> gt' \<le> n \<and> pj' < pj \<and>
     (if i < pj' then pj' < gt' \<and> cmp ?p (ys ! (ptr + pj')) > 0 \<and>
        part_right cmp ?p ptr n ys (pj' + 1) gt'
      else i \<le> gt' \<and> part_right cmp ?p ptr n ys i gt')"
    consider "?c < 0" | "?c = 0" | "?c > 0" by linarith
    then show ?thesis
    proof cases
      case 1
      have "part_right cmp ?p ptr n xs pj gt"
        using 1 "2.prems"(6) by (rule part_right_extend [rotated])
      then have "ok (scan_right cmp ptr xs i pj gt) (?Q xs)"
        using 1 "2.prems" True by (intro "2.IH"(2) [OF True c]) simp_all
      with 1 True c show ?thesis by (auto elim!: ok_mono)
    next
      case 2
      have "part_right cmp ?p ptr n ?ys pj g"
        unfolding part_right_def
      proof (intro conjI allI impI)
        fix k assume k: "pj \<le> k \<and> k < g"
        then show "cmp ?p (?ys ! (ptr + k)) < 0"
          using "2.prems"(1,4,5,6) g by (cases "k = pj") (auto simp: part_right_def)
      next
        fix k assume k: "g \<le> k \<and> k < n"
        then show "cmp ?p (?ys ! (ptr + k)) = 0"
          using 2 "2.prems"(1,4,5,6) g by (cases "k = g") (auto simp: part_right_def)
      qed
      then have "ok (scan_right cmp ptr ?ys i pj (gt - 1)) (?Q ?ys)"
        using 2 "2.prems" True piv g
        by (intro "2.IH"(1) [OF True c _ 2 s, unfolded piv]) simp_all
      with 2 True c s g show ?thesis by (auto elim!: ok_mono intro: perm_range_trans [OF p])
    next
      case 3
      with True c "2.prems" show ?thesis by simp
    qed
  next
    case False
    then show ?thesis
      using "2.prems" by (auto simp: le_Suc_eq intro: part_right_extend)
  qed
qed simp

lemma part_left_cong:
  "part_left cmp p ptr xs lt i \<Longrightarrow> 1 \<le> lt \<Longrightarrow> lt \<le> i \<Longrightarrow>
   (\<And>k. 1 \<le> k \<Longrightarrow> k < i \<Longrightarrow> ys ! (ptr + k) = xs ! (ptr + k)) \<Longrightarrow> part_left cmp p ptr ys lt i"
  by (simp add: part_left_def)

lemma part_right_cong:
  "part_right cmp p ptr n xs pj gt \<Longrightarrow> pj \<le> gt \<Longrightarrow>
   (\<And>k. pj \<le> k \<Longrightarrow> k < n \<Longrightarrow> ys ! (ptr + k) = xs ! (ptr + k)) \<Longrightarrow> gt \<le> n \<Longrightarrow> part_right cmp p ptr n ys pj gt"
  by (simp add: part_right_def)

lemma part_left_swap:
  assumes "part_left cmp p ptr xs lt i" "1 \<le> lt" "lt \<le> i" "i < j" "ptr + j < length xs"
    and "cmp p (xs ! (ptr + j)) > 0"
  shows "part_left cmp p ptr (swapped xs (ptr + i) (ptr + j)) lt (i + 1)"
  using assms by (auto simp: part_left_def less_Suc_eq)

lemma part_right_swap:
  assumes "part_right cmp p ptr n xs (Suc j) gt" "i < j" "j < gt" "gt \<le> n" "ptr + n \<le> length xs"
    and "cmp p (xs ! (ptr + i)) < 0"
  shows "part_right cmp p ptr n (swapped xs (ptr + i) (ptr + j)) j gt"
proof (rule part_right_extend)
  show "part_right cmp p ptr n (swapped xs (ptr + i) (ptr + j)) (Suc j) gt"
    using assms by (intro part_right_cong [OF assms(1)]) auto
  show "cmp p (swapped xs (ptr + i) (ptr + j) ! (ptr + j)) < 0"
    using assms by simp
qed

lemma partition_loop_ok:
  "ptr + n \<le> length xs \<Longrightarrow> 1 \<le> lt \<Longrightarrow> lt \<le> i \<Longrightarrow> i \<le> pj \<Longrightarrow> pj \<le> gt \<Longrightarrow> gt \<le> n \<Longrightarrow>
   part_left cmp (xs ! ptr) ptr xs lt i \<Longrightarrow> part_right cmp (xs ! ptr) ptr n xs pj gt \<Longrightarrow>
   ok (partition_loop cmp ptr xs i lt pj gt) (\<lambda>(ys, i', lt', gt').
     perm_range (Suc ptr) (ptr + n) xs ys \<and> 1 \<le> lt' \<and> lt' \<le> i' \<and> i' \<le> gt' \<and> gt' \<le> n \<and>
     part_left cmp (xs ! ptr) ptr ys lt' i' \<and> part_right cmp (xs ! ptr) ptr n ys i' gt')"
proof (induction cmp ptr xs i lt pj gt rule: partition_loop.induct)
  case (1 cmp ptr xs i lt pj gt)
  let ?p = "xs ! ptr"
  obtain ys i' lt' where l: "scan_left cmp ptr xs i lt pj = Some (ys, i', lt')"
    and ys: "perm_range (Suc ptr) (ptr + pj) xs ys" "part_left cmp ?p ptr ys lt' i'"
      "1 \<le> lt'" "lt' \<le> i'" "i \<le> i'" "i' \<le> pj" "i' < pj \<longrightarrow> cmp ?p (ys ! (ptr + i')) < 0"
    using scan_left_ok [of ptr pj xs lt i cmp] "1.prems" by (auto elim!: okE)
  have len: "length ys = length xs" and piv: "ys ! ptr = ?p"
    using perm_range_length [OF ys(1)] perm_range_outside [OF ys(1)] "1.prems" by auto
  have "part_right cmp ?p ptr n ys pj gt"
    using "1.prems" perm_range_outside [OF ys(1)]
    by (intro part_right_cong [OF "1.prems"(8)]) auto
  then obtain zs pj' gt' where r: "scan_right cmp ptr ys i' pj gt = Some (zs, pj', gt')"
    and zs: "perm_range (Suc (ptr + i')) (ptr + n) ys zs" "gt' \<le> n" "pj' < pj"
      "if i' < pj' then pj' < gt' \<and> cmp ?p (zs ! (ptr + pj')) > 0 \<and> part_right cmp ?p ptr n zs (pj' + 1) gt'
       else i' \<le> gt' \<and> part_right cmp ?p ptr n zs i' gt'"
    using scan_right_ok [of ptr n ys i' pj gt cmp, unfolded piv] "1.prems" ys len piv
    by (auto elim!: okE)
  have lenz: "length zs = length xs" and pivz: "zs ! ptr = ?p"
    using perm_range_length [OF zs(1)] perm_range_outside [OF zs(1)] "1.prems" len piv by auto
  have same: "zs ! (ptr + k) = ys ! (ptr + k)" if "k \<le> i'" "k < n" for k
    using perm_range_outside [OF zs(1)] "1.prems" len that by auto
  have pz: "perm_range (Suc ptr) (ptr + n) xs zs"
    using "1.prems" by (intro perm_range_trans [OF perm_range_widen [OF ys(1)] perm_range_widen [OF zs(1)]]) auto
  have lz: "part_left cmp ?p ptr zs lt' i'"
    using ys "1.prems" by (intro part_left_cong [OF ys(2)] same) auto
  show ?case
  proof (cases "i' < pj'")
    case False
    then show ?thesis
      using l r zs ys pz lz by (subst partition_loop.simps) simp
  next
    case True
    let ?us = "swapped zs (ptr + i') (ptr + pj')"
    have n: "pj' < n" using True zs by auto
    have s: "swap_at zs (ptr + i') (ptr + pj') = Some ?us"
      using True n lenz "1.prems" by (simp add: swap_at_def swapped_def rd_def wr_def)
    have pu: "perm_range (Suc ptr) (ptr + n) zs ?us"
      using True n lenz "1.prems" ys by (intro perm_range_swapped) auto
    have pivu: "?us ! ptr = ?p" using True n lenz pivz "1.prems" ys by simp
    have "cmp ?p (zs ! (ptr + i')) < 0" using same [of i'] True n ys zs by simp
    then have "part_right cmp (?us ! ptr) ptr n ?us pj' gt'"
      unfolding pivu using True n lenz zs "1.prems" by (intro part_right_swap) auto
    moreover have "part_left cmp (?us ! ptr) ptr ?us lt' (i' + 1)"
      unfolding pivu using True n lenz zs ys lz "1.prems" by (intro part_left_swap) auto
    ultimately have "ok (partition_loop cmp ptr ?us (i' + 1) lt' pj' gt') (\<lambda>(vs, i'', lt'', gt'').
      perm_range (Suc ptr) (ptr + n) ?us vs \<and> 1 \<le> lt'' \<and> lt'' \<le> i'' \<and> i'' \<le> gt'' \<and> gt'' \<le> n \<and>
      part_left cmp (?us ! ptr) ptr vs lt'' i'' \<and> part_right cmp (?us ! ptr) ptr n vs i'' gt'')"
      using True n lenz zs ys "1.prems" by (intro "1.IH" [OF l refl refl r refl refl _ s]) auto
    with True l r s show ?thesis
      unfolding pivu
      by (subst partition_loop.simps) (auto elim!: ok_mono intro: perm_range_trans [OF pz] perm_range_trans [OF pu])
  qed
qed

lemma swap_block_nth:
  "a + k \<le> b \<or> k = 0 \<Longrightarrow> b + k \<le> length xs \<Longrightarrow>
   ok (swap_block xs a b k) (\<lambda>ys.
     (\<forall>j < k. ys ! (a + j) = xs ! (b + j) \<and> ys ! (b + j) = xs ! (a + j)) \<and>
     (\<forall>m < length xs. (m < a \<or> a + k \<le> m) \<longrightarrow> (m < b \<or> b + k \<le> m) \<longrightarrow> ys ! m = xs ! m))"
proof (induction k arbitrary: xs a b)
  case (Suc k)
  let ?ys = "swapped xs a b"
  have s: "swap_at xs a b = Some ?ys"
    using Suc.prems by (simp add: swap_at_def swapped_def rd_def wr_def)
  have "ok (swap_block ?ys (a + 1) (b + 1) k) (\<lambda>zs.
     (\<forall>j < k. zs ! (a + 1 + j) = ?ys ! (b + 1 + j) \<and> zs ! (b + 1 + j) = ?ys ! (a + 1 + j)) \<and>
     (\<forall>m < length xs. (m < a + 1 \<or> a + 1 + k \<le> m) \<longrightarrow> (m < b + 1 \<or> b + 1 + k \<le> m) \<longrightarrow> zs ! m = ?ys ! m))"
    using Suc.IH [of "a + 1" "b + 1" ?ys] Suc.prems by simp
  then show ?case
    unfolding swap_block.simps s bind.bind_lunit
  proof (rule ok_mono, elim conjE, intro conjI allI impI)
    fix zs j
    assume sw: "\<forall>j < k. zs ! (a + 1 + j) = ?ys ! (b + 1 + j) \<and> zs ! (b + 1 + j) = ?ys ! (a + 1 + j)"
      and out: "\<forall>m < length xs. (m < a + 1 \<or> a + 1 + k \<le> m) \<longrightarrow> (m < b + 1 \<or> b + 1 + k \<le> m) \<longrightarrow>
        zs ! m = ?ys ! m"
    show "zs ! (a + j) = xs ! (b + j)" "zs ! (b + j) = xs ! (a + j)" if "j < Suc k"
      using sw out that Suc.prems by (cases j; force)+
  next
    fix zs m
    assume "\<forall>m < length xs. (m < a + 1 \<or> a + 1 + k \<le> m) \<longrightarrow> (m < b + 1 \<or> b + 1 + k \<le> m) \<longrightarrow>
        zs ! m = ?ys ! m" and "m < length xs" "m < a \<or> a + Suc k \<le> m" "m < b \<or> b + Suc k \<le> m"
    then show "zs ! m = xs ! m" using Suc.prems by auto
  qed
qed simp

text \<open>Two adjacent regions, of \<open>a\<close> and \<open>b\<close> elements, exchange their positions (not keeping the order
  inside each) when the shorter span is exchanged between the two ends.\<close>

lemma swap_block_regions:
  assumes E: "\<And>k. k < a \<Longrightarrow> E (xs ! (l + k))" and F: "\<And>k. k < b \<Longrightarrow> F (xs ! (l + (a + k)))"
    and len: "l + (a + b) \<le> length xs" and s: "s = min a b"
  shows "ok (swap_block xs l (l + (a + b) - s) s) (\<lambda>ys. perm_range l (l + (a + b)) xs ys \<and>
    (\<forall>k. k < b \<longrightarrow> F (ys ! (l + k))) \<and> (\<forall>k. k < a \<longrightarrow> E (ys ! (l + (b + k)))))"
proof -
  let ?m = "swap_block xs l (l + (a + b) - s) s"
  have p: "ok ?m (perm_range l (l + (a + b)) xs)"
    using len s by (intro swap_block_safe) auto
  have n: "ok ?m (\<lambda>ys.
     (\<forall>j < s. ys ! (l + j) = xs ! (l + (a + b) - s + j) \<and> ys ! (l + (a + b) - s + j) = xs ! (l + j)) \<and>
     (\<forall>m < length xs. (m < l \<or> l + s \<le> m) \<longrightarrow> (m < l + (a + b) - s \<or> l + (a + b) - s + s \<le> m) \<longrightarrow>
        ys ! m = xs ! m))"
    using len s by (intro swap_block_nth) auto
  show ?thesis
  proof (rule ok_mono [OF ok_conj [OF p n]], elim conjE, intro conjI allI impI)
    fix ys k
    assume sw: "\<forall>j < s. ys ! (l + j) = xs ! (l + (a + b) - s + j) \<and> ys ! (l + (a + b) - s + j) = xs ! (l + j)"
      and out: "\<forall>m < length xs. (m < l \<or> l + s \<le> m) \<longrightarrow> (m < l + (a + b) - s \<or> l + (a + b) - s + s \<le> m) \<longrightarrow>
        ys ! m = xs ! m"
    show "F (ys ! (l + k))" if "k < b"
    proof (cases "k < s")
      case True
      then have "l + (a + b) - s + k = l + (a + (b - s + k))" and "b - s + k < b" using s by auto
      then show ?thesis using sw True F [of "b - s + k"] by metis
    next
      case False
      then have "s = a" using that s by auto
      then have "ys ! (l + k) = xs ! (l + k)" using out False that len by simp
      then show ?thesis using F [of "k - a"] \<open>s = a\<close> False that by simp
    qed
    show "E (ys ! (l + (b + k)))" if "k < a"
    proof (cases "a - s \<le> k")
      case True
      then have "l + (b + k) = l + (a + b) - s + (k - (a - s))" and "k - (a - s) < s" "k - (a - s) < a"
        using s that by auto
      then show ?thesis using sw E [of "k - (a - s)"] by metis
    next
      case False
      then have "s = b" using that s by auto
      then have "ys ! (l + (b + k)) = xs ! (l + (b + k))" using out False that len by simp
      then show ?thesis using E [of "b + k"] \<open>s = b\<close> False that by simp
    qed
  qed
qed

text \<open>One round of the loop on \<open>n\<close> elements from \<open>ptr\<close>: a permutation of the segment in three parts.\<close>

abbreviation same_as :: "'a cmp_f \<Rightarrow> 'a \<Rightarrow> 'a \<Rightarrow> bool" where
  "same_as cmp p x \<equiv> x = p \<or> cmp p x = 0"

definition partitioned :: "'a cmp_f \<Rightarrow> nat \<Rightarrow> nat \<Rightarrow> 'a list \<Rightarrow> nat \<Rightarrow> nat \<Rightarrow> bool" where
  "partitioned cmp ptr n xs lt gt \<longleftrightarrow> lt < gt \<and> gt \<le> n \<and> (\<exists>p.
     (\<forall>k. k < lt \<longrightarrow> cmp p (xs ! (ptr + k)) > 0) \<and>
     (\<forall>k. lt \<le> k \<and> k < gt \<longrightarrow> same_as cmp p (xs ! (ptr + k))) \<and>
     (\<forall>k. gt \<le> k \<and> k < n \<longrightarrow> cmp p (xs ! (ptr + k)) < 0))"

lemma gather_left:
  assumes "part_left cmp p ptr xs lt i" and "xs ! ptr = p" and "1 \<le> lt" and "lt \<le> i" and "ptr + i \<le> length xs"
  shows "ok (swap_block xs ptr (ptr + i - min lt (i - lt)) (min lt (i - lt))) (\<lambda>ys.
    perm_range ptr (ptr + i) xs ys \<and> (\<forall>k. k < i - lt \<longrightarrow> cmp p (ys ! (ptr + k)) > 0) \<and>
    (\<forall>k. i - lt \<le> k \<and> k < i \<longrightarrow> same_as cmp p (ys ! (ptr + k))))"
proof -
  have "same_as cmp p (xs ! (ptr + k))" if "k < lt" for k
    using assms(1,2) that by (cases k) (auto simp: part_left_def)
  moreover have "cmp p (xs ! (ptr + (lt + k))) > 0" if "k < i - lt" for k
    using assms(1) that by (simp add: part_left_def)
  ultimately have "ok (swap_block xs ptr (ptr + i - min lt (i - lt)) (min lt (i - lt))) (\<lambda>ys.
    perm_range ptr (ptr + i) xs ys \<and> (\<forall>k. k < i - lt \<longrightarrow> cmp p (ys ! (ptr + k)) > 0) \<and>
    (\<forall>k. k < lt \<longrightarrow> same_as cmp p (ys ! (ptr + (i - lt + k)))))"
    using swap_block_regions [of lt "same_as cmp p" xs ptr "i - lt" "\<lambda>x. cmp p x > 0" "min lt (i - lt)"] assms(4,5)
    by simp
  then show ?thesis
  proof (rule ok_mono, elim conjE, intro conjI allI impI)
    fix ys k
    assume "\<forall>k. k < lt \<longrightarrow> same_as cmp p (ys ! (ptr + (i - lt + k)))" and k: "i - lt \<le> k \<and> k < i"
    moreover have "i - lt + (k - (i - lt)) = k" "k - (i - lt) < lt" using k assms(4) by auto
    ultimately show "same_as cmp p (ys ! (ptr + k))" by metis
  qed auto
qed

lemma gather_right:
  assumes "part_right cmp p ptr n xs i gt" and "i \<le> gt" and "gt \<le> n" and "ptr + n \<le> length xs"
  shows "ok (swap_block xs (ptr + i) (ptr + n - min (n - gt) (gt - i)) (min (n - gt) (gt - i))) (\<lambda>ys.
    perm_range (ptr + i) (ptr + n) xs ys \<and>
    (\<forall>k. i \<le> k \<and> k < n - (gt - i) \<longrightarrow> same_as cmp p (ys ! (ptr + k))) \<and>
    (\<forall>k. n - (gt - i) \<le> k \<and> k < n \<longrightarrow> cmp p (ys ! (ptr + k)) < 0))"
proof -
  have "cmp p (xs ! (ptr + i + k)) < 0" if "k < gt - i" for k
    using assms(1) that by (simp add: part_right_def add.assoc)
  moreover have "same_as cmp p (xs ! (ptr + i + (gt - i + k)))" if "k < n - gt" for k
    using assms(1,2) that by (simp add: part_right_def add.assoc)
  ultimately have "ok (swap_block xs (ptr + i) (ptr + n - min (n - gt) (gt - i)) (min (n - gt) (gt - i))) (\<lambda>ys.
    perm_range (ptr + i) (ptr + n) xs ys \<and> (\<forall>k. k < n - gt \<longrightarrow> same_as cmp p (ys ! (ptr + i + k))) \<and>
    (\<forall>k. k < gt - i \<longrightarrow> cmp p (ys ! (ptr + i + (n - gt + k))) < 0))"
    using swap_block_regions [of "gt - i" "\<lambda>x. cmp p x < 0" xs "ptr + i" "n - gt" "same_as cmp p" "min (n - gt) (gt - i)"]
      assms(2-4) by (simp add: min.commute)
  then show ?thesis
  proof (rule ok_mono, elim conjE, intro conjI allI impI)
    fix ys k
    assume e: "\<forall>k. k < n - gt \<longrightarrow> same_as cmp p (ys ! (ptr + i + k))"
      and l: "\<forall>k. k < gt - i \<longrightarrow> cmp p (ys ! (ptr + i + (n - gt + k))) < 0"
    show "same_as cmp p (ys ! (ptr + k))" if "i \<le> k \<and> k < n - (gt - i)"
    proof -
      have "ptr + i + (k - i) = ptr + k" "k - i < n - gt" using that assms(2,3) by auto
      then show ?thesis using e by metis
    qed
    show "cmp p (ys ! (ptr + k)) < 0" if "n - (gt - i) \<le> k \<and> k < n"
    proof -
      have "ptr + i + (n - gt + (k - (n - (gt - i)))) = ptr + k" "k - (n - (gt - i)) < gt - i"
        using that assms(2,3) by auto
      then show ?thesis using l by metis
    qed
  qed
qed

text \<open>The pivot is moved to the front of the segment.\<close>

lemma ok_pivot:
  assumes "ptr + n \<le> length xs" and "0 < n"
  shows "ok (med3 cmp xs (ptr + n div 4) (ptr + 2 * (n div 4)) (ptr + 3 * (n div 4)) \<bind> swap_at xs ptr)
    (perm_range ptr (ptr + n) xs)"
proof -
  have m4: "3 * (n div 4) < n" using assms(2) by linarith
  have "ok (med3 cmp xs (ptr + n div 4) (ptr + 2 * (n div 4)) (ptr + 3 * (n div 4)))
      (\<lambda>m. m \<in> {ptr + n div 4, ptr + 2 * (n div 4), ptr + 3 * (n div 4)})"
    using m4 assms(1) by (intro ok_med3) auto
  then show ?thesis
    using m4 assms by (intro ok_bind) (auto elim!: ok_mono intro!: ok_swap_at perm_range_swapped)
qed

lemma partition_step_ok:
  assumes len: "ptr + n \<le> length xs" and n: "0 < n"
  shows "ok (partition_step cmp ptr n xs) (\<lambda>(ys, lt, gt).
    perm_range ptr (ptr + n) xs ys \<and> partitioned cmp ptr n ys lt gt)"
proof -
  obtain ys where ys: "med3 cmp xs (ptr + n div 4) (ptr + 2 * (n div 4)) (ptr + 3 * (n div 4)) \<bind> swap_at xs ptr = Some ys"
    and py: "perm_range ptr (ptr + n) xs ys" using ok_pivot [OF len n] by (auto elim: okE)
  let ?p = "ys ! ptr"
  have ly: "length ys = length xs" using py by (rule perm_range_length)
  obtain zs i lt gt where zs: "partition_loop cmp ptr ys 1 1 n n = Some (zs, i, lt, gt)"
    and pz: "perm_range (Suc ptr) (ptr + n) ys zs" and i: "1 \<le> lt" "lt \<le> i" "i \<le> gt" "gt \<le> n"
    and pl: "part_left cmp ?p ptr zs lt i" and pr: "part_right cmp ?p ptr n zs i gt"
    using partition_loop_ok [of ptr n ys 1 1 n n cmp] len n ly
    by (auto elim!: okE simp: part_left_def part_right_def)
  have lz: "length zs = length xs" and piv: "zs ! ptr = ?p"
    using perm_range_length [OF pz] perm_range_outside [OF pz, of ptr] ly len n by auto
  obtain us where us: "swap_block zs ptr (ptr + i - min lt (i - lt)) (min lt (i - lt)) = Some us"
    and pu: "perm_range ptr (ptr + i) zs us" and u: "\<forall>k. k < i - lt \<longrightarrow> cmp ?p (us ! (ptr + k)) > 0"
      "\<forall>k. i - lt \<le> k \<and> k < i \<longrightarrow> same_as cmp ?p (us ! (ptr + k))"
    using gather_left [OF pl piv i(1,2)] lz len i by (auto elim: okE)
  have lu: "length us = length xs" using perm_range_length [OF pu] lz by simp
  have "part_right cmp ?p ptr n us i gt"
    using perm_range_outside [OF pu] lz len i by (intro part_right_cong [OF pr]) auto
  then obtain vs where vs: "swap_block us (ptr + i) (ptr + n - min (n - gt) (gt - i)) (min (n - gt) (gt - i)) = Some vs"
    and pv: "perm_range (ptr + i) (ptr + n) us vs"
    and v: "\<forall>k. i \<le> k \<and> k < n - (gt - i) \<longrightarrow> same_as cmp ?p (vs ! (ptr + k))"
      "\<forall>k. n - (gt - i) \<le> k \<and> k < n \<longrightarrow> cmp ?p (vs ! (ptr + k)) < 0"
    using gather_right [of cmp ?p ptr n us i gt] lu len i by (auto elim!: okE)
  have same: "vs ! (ptr + k) = us ! (ptr + k)" if "k < i" for k
    using perm_range_outside [OF pv] that lu len i by simp
  have "partitioned cmp ptr n vs (i - lt) (n - (gt - i))"
    unfolding partitioned_def using u v i same
    by (intro conjI exI [of _ ?p]) (auto, metis not_less)
  moreover have "perm_range ptr (ptr + n) ys zs" "perm_range ptr (ptr + n) zs us" "perm_range ptr (ptr + n) us vs"
    using pz pu pv i by (auto elim: perm_range_widen)
  then have "perm_range ptr (ptr + n) xs vs" using py by (blast intro: perm_range_trans)
  moreover have "(if b < a then b else a) = min a b" for a b :: nat by (simp add: min_def)
  then have "partition_step cmp ptr n xs = Some (vs, i - lt, n - (gt - i))"
    using ys zs us vs unfolding partition_step_def by (auto simp: Let_def bind_eq_Some_conv)
  ultimately show ?thesis by simp
qed

end
