(* ===== verification/Exchange.thy ===== *)
theory Exchange
  imports Rqsort
begin

text \<open>
  The exchange functions of \<open>src/native/quickjs/cutils.c\<close> that \<open>rqsort\<close> selects by the alignment of
  the array and the size of its elements.  Here memory is the byte list of the array and the
  functions move 1, 2, 4, 8 or 16 bytes at a time; the sorting theories exchange whole elements.  The
  claim at the end is the refinement between the two.
\<close>

section \<open>The exchange functions\<close>

definition rdn :: "u8 list \<Rightarrow> nat \<Rightarrow> nat \<Rightarrow> u8 list option" where
  "rdn mem a w = (if a + w \<le> length mem then Some (take w (drop a mem)) else None)"

text \<open>\<open>t = *ap; *ap = *bp; *bp = t\<close> on an integer of \<open>w\<close> bytes.\<close>

definition exchange_unit :: "nat \<Rightarrow> u8 list \<Rightarrow> nat \<Rightarrow> nat \<Rightarrow> u8 list option" where
  "exchange_unit w mem a b = do {
     t \<leftarrow> rdn mem a w;
     u \<leftarrow> rdn mem b w;
     mem' \<leftarrow> memcpy_at mem a u;
     memcpy_at mem' b t }"

primrec exchange_units :: "nat \<Rightarrow> nat \<Rightarrow> u8 list \<Rightarrow> nat \<Rightarrow> nat \<Rightarrow> u8 list option" where
  "exchange_units w 0 mem a b = Some mem"
| "exchange_units w (Suc k) mem a b = do {
     mem' \<leftarrow> exchange_unit w mem a b;
     exchange_units w k mem' (a + w) (b + w) }"

type_synonym exchange_f = "u8 list \<Rightarrow> nat \<Rightarrow> nat \<Rightarrow> nat \<Rightarrow> u8 list option"

definition exchange_bytes :: exchange_f where
  "exchange_bytes mem a b sz = exchange_units 1 sz mem a b"

definition exchange_one_byte :: exchange_f where
  "exchange_one_byte mem a b sz = exchange_unit 1 mem a b"

definition exchange_int16s :: exchange_f where
  "exchange_int16s mem a b sz = exchange_units 2 (sz div 2) mem a b"

definition exchange_one_int16 :: exchange_f where
  "exchange_one_int16 mem a b sz = exchange_unit 2 mem a b"

definition exchange_int32s :: exchange_f where
  "exchange_int32s mem a b sz = exchange_units 4 (sz div 4) mem a b"

definition exchange_one_int32 :: exchange_f where
  "exchange_one_int32 mem a b sz = exchange_unit 4 mem a b"

definition exchange_int64s :: exchange_f where
  "exchange_int64s mem a b sz = exchange_units 8 (sz div 8) mem a b"

definition exchange_one_int64 :: exchange_f where
  "exchange_one_int64 mem a b sz = exchange_unit 8 mem a b"

definition exchange_one_int128 :: exchange_f where
  "exchange_one_int128 mem a b sz = do {
     t \<leftarrow> rdn mem a 8;
     u \<leftarrow> rdn mem (a + 8) 8;
     x \<leftarrow> rdn mem b 8;
     m1 \<leftarrow> memcpy_at mem a x;
     y \<leftarrow> rdn m1 (b + 8) 8;
     m2 \<leftarrow> memcpy_at m1 (a + 8) y;
     m3 \<leftarrow> memcpy_at m2 b t;
     memcpy_at m3 (b + 8) u }"

primrec exchange_int128s_loop :: "nat \<Rightarrow> u8 list \<Rightarrow> nat \<Rightarrow> nat \<Rightarrow> u8 list option" where
  "exchange_int128s_loop 0 mem a b = Some mem"
| "exchange_int128s_loop (Suc k) mem a b = do {
     mem' \<leftarrow> exchange_one_int128 mem a b 16;
     exchange_int128s_loop k mem' (a + 16) (b + 16) }"

definition exchange_int128s :: exchange_f where
  "exchange_int128s mem a b sz = exchange_int128s_loop (sz div 16) mem a b"

definition exchange_func :: "u64 \<Rightarrow> size_t \<Rightarrow> exchange_f" where
  "exchange_func base sz =
     (let k = unat ((base OR sz) AND 15) in
      if k = 0 then (if sz = 8 * 2 then exchange_one_int128 else exchange_int128s)
      else if k = 8 then (if sz = 8 then exchange_one_int64 else exchange_int64s)
      else if k = 4 \<or> k = 12 then (if sz = 4 then exchange_one_int32 else exchange_int32s)
      else if k = 2 \<or> k = 6 \<or> k = 10 \<or> k = 14 then (if sz = 2 then exchange_one_int16 else exchange_int16s)
      else (if sz = 1 then exchange_one_byte else exchange_bytes))"

section \<open>What they exchange\<close>

definition exchanged :: "'a list \<Rightarrow> nat \<Rightarrow> nat \<Rightarrow> nat \<Rightarrow> 'a list" where
  "exchanged mem a b n = map (\<lambda>p. if a \<le> p \<and> p < a + n then mem ! (b + (p - a))
     else if b \<le> p \<and> p < b + n then mem ! (a + (p - b)) else mem ! p) [0..<length mem]"

text \<open>Two regions of \<open>n\<close> bytes inside the memory that are equal or do not overlap.\<close>

definition regions :: "'a list \<Rightarrow> nat \<Rightarrow> nat \<Rightarrow> nat \<Rightarrow> bool" where
  "regions mem a b n \<longleftrightarrow> a + n \<le> length mem \<and> b + n \<le> length mem \<and> (a = b \<or> a + n \<le> b \<or> b + n \<le> a)"

lemma length_exchanged [simp]: "length (exchanged mem a b n) = length mem"
  by (simp add: exchanged_def)

lemma exchanged_nth:
  "p < length mem \<Longrightarrow> exchanged mem a b n ! p =
     (if a \<le> p \<and> p < a + n then mem ! (b + (p - a)) else if b \<le> p \<and> p < b + n then mem ! (a + (p - b)) else mem ! p)"
  by (simp add: exchanged_def)

lemma memcpy_at_nth:
  "memcpy_at dst off src = Some dst' \<Longrightarrow> p < length dst \<Longrightarrow>
   dst' ! p = (if off \<le> p \<and> p < off + length src then src ! (p - off) else dst ! p)"
  by (auto simp: memcpy_at_def nth_append min_def split: if_splits)

lemma memcpy_at_length: "memcpy_at dst off src = Some dst' \<Longrightarrow> length dst' = length dst"
  by (auto simp: memcpy_at_def split: if_splits)

lemma memcpy_at_total: "off + length src \<le> length dst \<Longrightarrow> \<exists>dst'. memcpy_at dst off src = Some dst'"
  by (simp add: memcpy_at_def)

lemma exchange_unit_ok:
  assumes "regions mem a b w"
  shows "exchange_unit w mem a b = Some (exchanged mem a b w)"
proof -
  have r: "rdn mem a w = Some (take w (drop a mem))" "rdn mem b w = Some (take w (drop b mem))"
    using assms by (auto simp: rdn_def regions_def)
  obtain m1 where m1: "memcpy_at mem a (take w (drop b mem)) = Some m1"
    using assms memcpy_at_total [of a "take w (drop b mem)" mem] by (auto simp: regions_def)
  obtain m2 where m2: "memcpy_at m1 b (take w (drop a mem)) = Some m2"
    using assms memcpy_at_total [of b "take w (drop a mem)" m1] memcpy_at_length [OF m1] by (auto simp: regions_def)
  have "m2 = exchanged mem a b w"
  proof (rule nth_equalityI)
    show "m2 ! p = exchanged mem a b w ! p" if "p < length m2" for p
      using that assms memcpy_at_length [OF m1] memcpy_at_length [OF m2]
      by (auto simp: memcpy_at_nth [OF m2] memcpy_at_nth [OF m1] exchanged_nth regions_def)
  qed (use memcpy_at_length [OF m1] memcpy_at_length [OF m2] in simp)
  then show ?thesis using r m1 m2 by (simp add: exchange_unit_def)
qed

lemma exchanged_0 [simp]: "exchanged mem a b 0 = mem"
  by (intro nth_equalityI) (auto simp: exchanged_nth)

lemma exchanged_add:
  assumes "regions mem a b (w + m)"
  shows "exchanged (exchanged mem a b w) (a + w) (b + w) m = exchanged mem a b (w + m)"
proof (rule nth_equalityI)
  fix p assume "p < length (exchanged (exchanged mem a b w) (a + w) (b + w) m)"
  then have p: "p < length mem" by simp
  consider "a = b" | "a + (w + m) \<le> b" | "b + (w + m) \<le> a" using assms by (auto simp: regions_def)
  then show "exchanged (exchanged mem a b w) (a + w) (b + w) m ! p = exchanged mem a b (w + m) ! p"
    using p assms by cases (auto simp: exchanged_nth regions_def)
qed simp

lemma regions_mono: "regions mem a b n \<Longrightarrow> m \<le> n \<Longrightarrow> regions mem a b m"
  by (auto simp: regions_def)

lemma regions_rest:
  "regions mem a b (w + m) \<Longrightarrow> regions (exchanged mem a b w) (a + w) (b + w) m"
  by (auto simp: regions_def)

lemma exchange_units_ok:
  "regions mem a b (w * k) \<Longrightarrow> exchange_units w k mem a b = Some (exchanged mem a b (w * k))"
proof (induction k arbitrary: mem a b)
  case (Suc k)
  then have r: "regions mem a b (w + w * k)" by simp
  have "exchange_unit w mem a b = Some (exchanged mem a b w)"
    using regions_mono [OF r] by (intro exchange_unit_ok) simp
  then show ?case using Suc.IH [OF regions_rest [OF r]] exchanged_add [OF r] by simp
qed simp

lemma exchange_one_int128_ok:
  assumes "regions mem a b 16"
  shows "exchange_one_int128 mem a b sz = Some (exchanged mem a b 16)"
proof -
  have len: "a + 16 \<le> length mem" "b + 16 \<le> length mem" "a = b \<or> a + 16 \<le> b \<or> b + 16 \<le> a"
    using assms by (auto simp: regions_def)
  obtain m1 where m1: "memcpy_at mem a (take 8 (drop b mem)) = Some m1"
    using len memcpy_at_total [of a "take 8 (drop b mem)" mem] by auto
  note l1 = memcpy_at_length [OF m1]
  obtain m2 where m2: "memcpy_at m1 (a + 8) (take 8 (drop (b + 8) m1)) = Some m2"
    using len l1 memcpy_at_total [of "a + 8" "take 8 (drop (b + 8) m1)" m1] by auto
  note l2 = memcpy_at_length [OF m2]
  obtain m3 where m3: "memcpy_at m2 b (take 8 (drop a mem)) = Some m3"
    using len l1 l2 memcpy_at_total [of b "take 8 (drop a mem)" m2] by auto
  note l3 = memcpy_at_length [OF m3]
  obtain m4 where m4: "memcpy_at m3 (b + 8) (take 8 (drop (a + 8) mem)) = Some m4"
    using len l1 l2 l3 memcpy_at_total [of "b + 8" "take 8 (drop (a + 8) mem)" m3] by auto
  note l4 = memcpy_at_length [OF m4]
  have "m4 = exchanged mem a b 16"
  proof (rule nth_equalityI)
    show "m4 ! p = exchanged mem a b 16 ! p" if "p < length m4" for p
    proof -
      have p: "p < length mem" using that l1 l2 l3 l4 by simp
      have v1: "m1 ! q = (if a \<le> q \<and> q < a + 8 then mem ! (b + (q - a)) else mem ! q)" if "q < length mem" for q
        using that len by (auto simp: memcpy_at_nth [OF m1])
      have v2: "m2 ! q = (if a \<le> q \<and> q < a + 16 then mem ! (b + (q - a)) else mem ! q)" if "q < length mem" for q
        using that len l1 by (auto simp: memcpy_at_nth [OF m2] v1)
      show ?thesis
        using p len l1 l2 l3 by (auto simp: memcpy_at_nth [OF m4] memcpy_at_nth [OF m3] v2 exchanged_nth)
    qed
  qed (use l1 l2 l3 l4 in simp)
  then show ?thesis
    using len l1 m1 m2 m3 m4 by (simp add: exchange_one_int128_def rdn_def)
qed

lemma exchange_int128s_loop_ok:
  "regions mem a b (16 * k) \<Longrightarrow> exchange_int128s_loop k mem a b = Some (exchanged mem a b (16 * k))"
proof (induction k arbitrary: mem a b)
  case (Suc k)
  then have r: "regions mem a b (16 + 16 * k)" by simp
  have "exchange_one_int128 mem a b 16 = Some (exchanged mem a b 16)"
    using regions_mono [OF r] by (intro exchange_one_int128_ok) simp
  then show ?case using Suc.IH [OF regions_rest [OF r]] exchanged_add [OF r] by simp
qed simp

section \<open>Alignment\<close>

lemma low_bits_dvd:
  assumes "unat ((base OR s) AND 15) mod 2 ^ k = 0" "k \<le> 4"
  shows "2 ^ k dvd unat (s :: u64)"
proof -
  have z: "take_bit k (unat ((base OR s) AND 15)) = 0" using assms(1) by (simp add: take_bit_eq_mod)
  have fifteen: "(15 :: u64) = mask 4" by (simp add: mask_eq_exp_minus_1)
  have "\<not> bit s i" if "i < k" for i
    using arg_cong [OF z, of "\<lambda>n. bit n i"] that assms(2) by (auto simp: bit_simps fifteen)
  then have "take_bit k (unat s) = 0"
    by (intro bit_eqI) (auto simp: bit_simps)
  then show ?thesis by (simp add: take_bit_eq_mod mod_0_imp_dvd)
qed

lemma exchange_func_ok:
  assumes r: "regions mem a b n" and n: "n = m * unat sz" and s: "s = sz \<and> m = 1 \<or> s = sz OR 128"
  shows "exchange_func base s mem a b n = Some (exchanged mem a b n)"
proof -
  define k where "k = unat ((base OR s) AND 15)"
  have big: "s \<noteq> 16 \<and> s \<noteq> 8 \<and> s \<noteq> 4 \<and> s \<noteq> 2 \<and> s \<noteq> 1" if "s = sz OR 128"
  proof -
    have "bit s 7" using that by (simp add: bit_simps)
    then show ?thesis by auto
  qed
  have one: "n = unat s" if "s = 16 \<or> s = 8 \<or> s = 4 \<or> s = 2 \<or> s = 1"
    using that big s n by auto
  have dvd: "2 ^ j dvd n" if "k mod 2 ^ j = 0" "j \<le> 4" for j
    using s
  proof
    assume "s = sz \<and> m = 1"
    then show ?thesis using low_bits_dvd [of base s j] that n by (simp add: k_def)
  next
    assume "s = sz OR 128"
    then have "base OR s = (base OR 128) OR sz" by (simp add: ac_simps)
    then show ?thesis using low_bits_dvd [of "base OR 128" sz j] that n by (simp add: k_def)
  qed
  have units: "exchange_units w (n div w) mem a b = Some (exchanged mem a b n)" if "w dvd n" for w
    using exchange_units_ok [of mem a b w "n div w"] r that by simp
  have pairs: "exchange_int128s_loop (n div 16) mem a b = Some (exchanged mem a b n)" if "16 dvd n"
    using exchange_int128s_loop_ok [of mem a b "n div 16"] r that by simp
  consider "k = 0" | "k = 8" | "k = 4 \<or> k = 12" | "k = 2 \<or> k = 6 \<or> k = 10 \<or> k = 14"
    | "k \<noteq> 0" "k \<noteq> 8" "k \<noteq> 4" "k \<noteq> 12" "k \<noteq> 2" "k \<noteq> 6" "k \<noteq> 10" "k \<noteq> 14" by blast
  then show ?thesis
  proof cases
    case 1
    then show ?thesis using dvd [of 4] pairs one r
      by (auto simp: exchange_func_def k_def exchange_one_int128_ok exchange_int128s_def)
  next
    case 2
    then show ?thesis using dvd [of 3] units [of 8] one r
      by (auto simp: exchange_func_def k_def exchange_one_int64_def exchange_int64s_def exchange_unit_ok)
  next
    case 3
    then show ?thesis using dvd [of 2] units [of 4] one r
      by (auto simp: exchange_func_def k_def exchange_one_int32_def exchange_int32s_def exchange_unit_ok)
  next
    case 4
    then show ?thesis using dvd [of 1] units [of 2] one r
      by (auto simp: exchange_func_def k_def exchange_one_int16_def exchange_int16s_def exchange_unit_ok)
  next
    case 5
    then show ?thesis using units [of 1] one r
      by (auto simp: exchange_func_def k_def exchange_one_byte_def exchange_bytes_def exchange_unit_ok)
  qed
qed

section \<open>Arrays of elements\<close>

lemma length_concat_uniform: "\<forall>x \<in> set xs. length x = n \<Longrightarrow> length (concat xs) = length xs * n"
  by (induction xs) auto

lemma concat_uniform_nth:
  "\<forall>x \<in> set xs. length x = n \<Longrightarrow> i < length xs \<Longrightarrow> q < n \<Longrightarrow> concat xs ! (i * n + q) = xs ! i ! q"
proof (induction xs arbitrary: i)
  case (Cons x xs)
  then show ?case by (cases i) (auto simp: nth_append)
qed simp

lemma index_split:
  assumes "p < N * (n :: nat)"
  obtains i q where "p = i * n + q" "i < N" "q < n"
proof -
  have "0 < n" using assms by (cases n) auto
  then show ?thesis
    using that [of "p div n" "p mod n"] assms by (simp add: less_mult_imp_div_less)
qed

lemma uniform_swapped:
  "\<forall>x \<in> set xs. length x = n \<Longrightarrow> i < length xs \<Longrightarrow> j < length xs \<Longrightarrow> \<forall>x \<in> set (swapped xs i j). length x = n"
  unfolding swapped_def using set_update_subset_insert by (metis insertE length_list_update nth_mem subsetD)

lemma block_index: "q < n \<Longrightarrow> a * n \<le> i * n + q \<and> i * n + q < a * n + n \<longleftrightarrow> i = (a :: nat)"
proof
  assume "q < n" "a * n \<le> i * n + q \<and> i * n + q < a * n + n"
  then have "(i * n + q) div n = a" by (intro div_nat_eqI) (auto simp: mult.commute)
  moreover have "(i * n + q) div n = i" using \<open>q < n\<close> by simp
  ultimately show "i = a" by simp
qed simp

lemma exchanged_concat:
  assumes u: "\<forall>x \<in> set xs. length x = n" and ij: "i < length xs" "j < length xs"
  shows "exchanged (concat xs) (i * n) (j * n) n = concat (swapped xs i j)"
proof (rule nth_equalityI)
  note l = length_concat_uniform [OF u] length_concat_uniform [OF uniform_swapped [OF u ij]]
  show "length (exchanged (concat xs) (i * n) (j * n) n) = length (concat (swapped xs i j))" using l by simp
  fix p assume p: "p < length (exchanged (concat xs) (i * n) (j * n) n)"
  then obtain k q where kq: "p = k * n + q" "k < length xs" "q < n"
    using l index_split [of p "length xs" n] by auto
  have "exchanged (concat xs) (i * n) (j * n) n ! p =
      (if k = i then concat xs ! (j * n + q) else if k = j then concat xs ! (i * n + q) else concat xs ! p)"
    using p kq block_index [OF kq(3), of i k] block_index [OF kq(3), of j k] by (simp add: exchanged_nth)
  also have "\<dots> = swapped xs i j ! k ! q"
    using kq ij by (simp add: concat_uniform_nth [OF u])
  also have "\<dots> = concat (swapped xs i j) ! p"
    using concat_uniform_nth [OF uniform_swapped [OF u ij], of k q] kq by simp
  finally show "exchanged (concat xs) (i * n) (j * n) n ! p = concat (swapped xs i j) ! p" .
qed

lemma regions_elements:
  assumes "\<forall>x \<in> set xs. length x = n" "a + k \<le> length xs" "b + k \<le> length xs" "a = b \<or> a + k \<le> b \<or> b + k \<le> a"
  shows "regions (concat xs) (a * n) (b * n) (k * n)"
proof -
  have "a * n + k * n \<le> length xs * n" "b * n + k * n \<le> length xs * n"
    "a = b \<or> a * n + k * n \<le> b * n \<or> b * n + k * n \<le> a * n"
    using assms(2-4) by (auto simp flip: add_mult_distrib intro: mult_le_mono1)
  then show ?thesis using length_concat_uniform [OF assms(1)] by (auto simp: regions_def)
qed

lemma exchanged_block:
  assumes "\<forall>x \<in> set xs. length x = n" "a + k \<le> b" "b + k \<le> length xs"
  shows "swap_block xs a b k \<bind> (\<lambda>ys. Some (concat ys)) = Some (exchanged (concat xs) (a * n) (b * n) (k * n))"
  using assms
proof (induction k arbitrary: xs a b)
  case (Suc k)
  then have ab: "a < length xs" "b < length xs" by auto
  have s: "swap_at xs a b = Some (swapped xs a b)"
    using ok_swap_at [of a xs b "(=) (swapped xs a b)"] ab by (auto simp: ok_def)
  have "swap_block (swapped xs a b) (a + 1) (b + 1) k \<bind> (\<lambda>ys. Some (concat ys)) =
      Some (exchanged (concat (swapped xs a b)) ((a + 1) * n) ((b + 1) * n) (k * n))"
    using Suc.prems uniform_swapped [OF Suc.prems(1) ab] by (intro Suc.IH) auto
  also have "\<dots> = Some (exchanged (exchanged (concat xs) (a * n) (b * n) n) (a * n + n) (b * n + n) (k * n))"
    using exchanged_concat [OF Suc.prems(1) ab] by (simp add: add.commute)
  also have "\<dots> = Some (exchanged (concat xs) (a * n) (b * n) (Suc k * n))"
    using exchanged_add [of "concat xs" "a * n" "b * n" n "k * n"] regions_elements [of xs n a "Suc k" b] Suc.prems
    by simp
  finally show ?case using s by simp
qed simp

section \<open>Claims\<close>

text \<open>C14. On an array whose elements are \<open>sz\<close> bytes long, the exchange function selected for any base
  address exchanges exactly the elements \<open>i\<close> and \<open>j\<close>, and the one selected for blocks does what the
  element-wise \<open>swap_block\<close> of the sorting model does: moving 2, 4, 8 or 16 bytes at a time loses
  nothing.\<close>

theorem exchange_func_refines_swap:
  assumes "\<forall>x \<in> set xs. length x = unat sz"
    and "i < length xs" "j < length xs" "a + k \<le> b" "b + k \<le> length xs"
  shows "exchange_func base sz (concat xs) (i * unat sz) (j * unat sz) (unat sz) = Some (concat (swapped xs i j))
    \<and> exchange_func base (sz OR 128) (concat xs) (a * unat sz) (b * unat sz) (k * unat sz)
        = swap_block xs a b k \<bind> (\<lambda>ys. Some (concat ys))"
proof
  have "i = j \<or> i + 1 \<le> j \<or> j + 1 \<le> i" by arith
  then have "regions (concat xs) (i * unat sz) (j * unat sz) (1 * unat sz)"
    using assms(1-3) by (intro regions_elements) auto
  then show "exchange_func base sz (concat xs) (i * unat sz) (j * unat sz) (unat sz) = Some (concat (swapped xs i j))"
    using exchange_func_ok [of "concat xs" "i * unat sz" "j * unat sz" "unat sz" 1 sz sz base]
      exchanged_concat [OF assms(1-3)] by simp
  have "regions (concat xs) (a * unat sz) (b * unat sz) (k * unat sz)"
    using assms(1,4,5) by (intro regions_elements) auto
  then show "exchange_func base (sz OR 128) (concat xs) (a * unat sz) (b * unat sz) (k * unat sz)
        = swap_block xs a b k \<bind> (\<lambda>ys. Some (concat ys))"
    using exchange_func_ok [of "concat xs" "a * unat sz" "b * unat sz" "k * unat sz" k sz "sz OR 128" base]
      exchanged_block [OF assms(1,4,5)] by simp
qed

theorem exchange_func_refines_swap_witness:
  "exchange_func 4096 2 [1, 2, 3, 4, 5, 6] 0 4 2 = Some [5, 6, 3, 4, 1, 2]"
  using exchange_func_refines_swap [of "[[1, 2], [3, 4], [5, 6]]" 2 0 2 0 1 2 4096] by (simp add: swapped_def)

end
