(* ===== verification/DList.thy ===== *)
theory DList
  imports Prelude
begin

text \<open>
  The intrusive doubly linked lists of \<open>src/native/quickjs/list.h\<close> on a heap with one map per
  field of \<open>struct list_head\<close>.  A list is a ring through its head; \<open>dlist\<close> is the abstraction to the
  list of the elements in order.  Reading or writing a field of an address that holds no
  \<open>list_head\<close> is undefined.
\<close>

section \<open>The operations\<close>

type_synonym addr = nat

record list_heap =
  lh_prev :: "addr \<rightharpoonup> addr"
  lh_next :: "addr \<rightharpoonup> addr"

definition NULL :: addr where
  "NULL = 0"

definition set_prev :: "addr \<Rightarrow> addr \<Rightarrow> list_heap \<Rightarrow> list_heap option" where
  "set_prev a v h = (if a \<in> dom (lh_prev h) then Some (h\<lparr>lh_prev := (lh_prev h)(a \<mapsto> v)\<rparr>) else None)"

definition set_next :: "addr \<Rightarrow> addr \<Rightarrow> list_heap \<Rightarrow> list_heap option" where
  "set_next a v h = (if a \<in> dom (lh_next h) then Some (h\<lparr>lh_next := (lh_next h)(a \<mapsto> v)\<rparr>) else None)"

definition init_list_head :: "addr \<Rightarrow> list_heap \<Rightarrow> list_heap option" where
  "init_list_head head h = do {
     h1 \<leftarrow> set_prev head head h;
     set_next head head h1 }"

definition list_add_between :: "addr \<Rightarrow> addr \<Rightarrow> addr \<Rightarrow> list_heap \<Rightarrow> list_heap option" where
  "list_add_between el prev nxt h = do {
     h1 \<leftarrow> set_next prev el h;
     h2 \<leftarrow> set_prev el prev h1;
     h3 \<leftarrow> set_next el nxt h2;
     set_prev nxt el h3 }"

definition list_add :: "addr \<Rightarrow> addr \<Rightarrow> list_heap \<Rightarrow> list_heap option" where
  "list_add el head h = do {
     n \<leftarrow> lh_next h head;
     list_add_between el head n h }"

definition list_add_tail :: "addr \<Rightarrow> addr \<Rightarrow> list_heap \<Rightarrow> list_heap option" where
  "list_add_tail el head h = do {
     p \<leftarrow> lh_prev h head;
     list_add_between el p head h }"

definition list_del :: "addr \<Rightarrow> list_heap \<Rightarrow> list_heap option" where
  "list_del el h = do {
     prev \<leftarrow> lh_prev h el;
     nxt \<leftarrow> lh_next h el;
     h1 \<leftarrow> set_next prev nxt h;
     h2 \<leftarrow> set_prev nxt prev h1;
     h3 \<leftarrow> set_prev el NULL h2;
     set_next el NULL h3 }"

definition list_empty :: "addr \<Rightarrow> list_heap \<Rightarrow> bool option" where
  "list_empty el h = do {
     n \<leftarrow> lh_next h el;
     Some (n = el) }"

text \<open>The iteration macros.  The body of \<open>list_for_each\<close> may not change the list and that of
  \<open>list_for_each_safe\<close> may unlink or free the current element, because the next one is fetched
  before the body runs; each is given fuel for the number of elements.\<close>

fun list_for_each :: "nat \<Rightarrow> (addr \<Rightarrow> 's \<Rightarrow> 's) \<Rightarrow> addr \<Rightarrow> addr \<Rightarrow> list_heap \<Rightarrow> 's \<Rightarrow> 's option" where
  "list_for_each fuel f el head h s =
     (if el = head then Some s
      else (case fuel of 0 \<Rightarrow> None | Suc k \<Rightarrow> do {
        n \<leftarrow> lh_next h el;
        list_for_each k f n head h (f el s) }))"

declare list_for_each.simps [simp del]

fun list_for_each_safe ::
  "nat \<Rightarrow> (addr \<Rightarrow> list_heap \<Rightarrow> list_heap option) \<Rightarrow> addr \<Rightarrow> addr \<Rightarrow> addr \<Rightarrow> list_heap \<Rightarrow> list_heap option" where
  "list_for_each_safe fuel f el el1 head h =
     (if el = head then Some h
      else (case fuel of 0 \<Rightarrow> None | Suc k \<Rightarrow> do {
        h1 \<leftarrow> f el h;
        n \<leftarrow> lh_next h1 el1;
        list_for_each_safe k f el1 n head h1 }))"

declare list_for_each_safe.simps [simp del]

definition for_each :: "nat \<Rightarrow> (addr \<Rightarrow> 's \<Rightarrow> 's) \<Rightarrow> addr \<Rightarrow> list_heap \<Rightarrow> 's \<Rightarrow> 's option" where
  "for_each fuel f head h s = do {
     el \<leftarrow> lh_next h head;
     list_for_each fuel f el head h s }"

definition for_each_safe :: "nat \<Rightarrow> (addr \<Rightarrow> list_heap \<Rightarrow> list_heap option) \<Rightarrow> addr \<Rightarrow> list_heap \<Rightarrow> list_heap option" where
  "for_each_safe fuel f head h = do {
     el \<leftarrow> lh_next h head;
     el1 \<leftarrow> lh_next h el;
     list_for_each_safe fuel f el el1 head h }"

section \<open>Rings\<close>

fun links :: "list_heap \<Rightarrow> addr \<Rightarrow> addr list \<Rightarrow> addr \<Rightarrow> bool" where
  "links h a [] b = (lh_next h a = Some b \<and> lh_prev h b = Some a)"
| "links h a (x # xs) b = (lh_next h a = Some x \<and> lh_prev h x = Some a \<and> links h x xs b)"

definition dlist :: "list_heap \<Rightarrow> addr \<Rightarrow> addr list \<Rightarrow> bool" where
  "dlist h head xs \<longleftrightarrow> distinct (head # xs) \<and> links h head xs head"

definition allocated :: "list_heap \<Rightarrow> addr \<Rightarrow> bool" where
  "allocated h a \<longleftrightarrow> a \<in> dom (lh_prev h) \<and> a \<in> dom (lh_next h)"

lemma links_append [simp]: "links h a (xs @ y # ys) b \<longleftrightarrow> links h a xs y \<and> links h y ys b"
  by (induction xs arbitrary: a) auto

lemma links_ends:
  assumes "links h a xs b"
  shows "lh_next h a = Some (hd (xs @ [b]))" "lh_prev h b = Some (last (a # xs))"
proof -
  show "lh_next h a = Some (hd (xs @ [b]))" using assms by (cases xs) auto
  show "lh_prev h b = Some (last (a # xs))" using assms by (induction xs arbitrary: a) auto
qed

text \<open>Only the \<open>next\<close> fields of \<open>a\<close> and \<open>xs\<close> and the \<open>prev\<close> fields of \<open>xs\<close> and \<open>b\<close> matter.\<close>

lemma links_frame:
  assumes "links h a xs b" "\<And>u. u \<in> set (a # xs) \<Longrightarrow> lh_next h' u = lh_next h u"
    "\<And>u. u \<in> set (xs @ [b]) \<Longrightarrow> lh_prev h' u = lh_prev h u"
  shows "links h' a xs b"
  using assms by (induction xs arbitrary: a) auto

lemma links_init: "xs = ys @ [z] \<Longrightarrow> links h a xs b \<longleftrightarrow> links h a ys z \<and> lh_next h z = Some b \<and> lh_prev h b = Some z"
  by simp

lemma dlist_init:
  "allocated h head \<Longrightarrow> \<exists>h'. init_list_head head h = Some h' \<and> dlist h' head []"
  by (auto simp: init_list_head_def set_prev_def set_next_def allocated_def dlist_def)

lemma list_add_between_eq:
  assumes "p \<in> dom (lh_next h)" "allocated h el" "n \<in> dom (lh_prev h)"
  shows "list_add_between el p n h =
    Some (h\<lparr>lh_prev := (lh_prev h)(el \<mapsto> p, n \<mapsto> el), lh_next := (lh_next h)(p \<mapsto> el, el \<mapsto> n)\<rparr>)"
  using assms by (auto simp: list_add_between_def set_prev_def set_next_def allocated_def)

lemma list_add_ok:
  assumes d: "dlist h head xs" and el: "allocated h el" "el \<notin> set (head # xs)"
  shows "ok (list_add el head h) (\<lambda>h'. dlist h' head (el # xs))"
proof -
  define n where "n = hd (xs @ [head])"
  have l: "links h head xs head" using d by (simp add: dlist_def)
  have n: "lh_next h head = Some n" "lh_prev h n = Some head"
    using l by (cases xs; simp add: n_def)+
  define h' where "h' = h\<lparr>lh_prev := (lh_prev h)(el \<mapsto> head, n \<mapsto> el), lh_next := (lh_next h)(head \<mapsto> el, el \<mapsto> n)\<rparr>"
  have "list_add el head h = Some h'"
    using n el(1) by (simp add: list_add_def list_add_between_eq h'_def domI)
  moreover have "links h' head (el # xs) head"
  proof (cases xs)
    case Nil
    then show ?thesis using el by (auto simp: h'_def n_def)
  next
    case (Cons x ys)
    have "links h' x ys head"
      by (rule links_frame [of h x ys head]) (use d el Cons in \<open>auto simp: dlist_def h'_def n_def\<close>)
    then show ?thesis using el Cons by (auto simp: h'_def n_def)
  qed
  ultimately show ?thesis using d el by (auto simp: dlist_def)
qed

lemma list_add_tail_ok:
  assumes d: "dlist h head xs" and el: "allocated h el" "el \<notin> set (head # xs)"
  shows "ok (list_add_tail el head h) (\<lambda>h'. dlist h' head (xs @ [el]))"
proof -
  define p where "p = last (head # xs)"
  have l: "links h head xs head" using d by (simp add: dlist_def)
  have p: "lh_prev h head = Some p" "lh_next h p = Some head"
    using l by (cases xs rule: rev_cases; simp add: p_def)+
  define h' where "h' = h\<lparr>lh_prev := (lh_prev h)(el \<mapsto> p, head \<mapsto> el), lh_next := (lh_next h)(p \<mapsto> el, el \<mapsto> head)\<rparr>"
  have "list_add_tail el head h = Some h'"
    using p el(1) by (simp add: list_add_tail_def list_add_between_eq h'_def domI)
  moreover have "links h' head (xs @ [el]) head"
  proof (cases xs rule: rev_cases)
    case Nil
    then show ?thesis using el by (auto simp: h'_def p_def)
  next
    case (snoc ys y)
    have "links h' head ys y"
      by (rule links_frame [of h head ys y]) (use d el snoc in \<open>auto simp: dlist_def h'_def p_def\<close>)
    then show ?thesis using el snoc by (auto simp: h'_def p_def)
  qed
  ultimately show ?thesis using d el by (auto simp: dlist_def)
qed

lemma list_del_ok:
  assumes d: "dlist h head (xs @ el # ys)"
  shows "ok (list_del el h) (\<lambda>h'. dlist h' head (xs @ ys) \<and> lh_prev h' el = Some NULL \<and> lh_next h' el = Some NULL)"
proof -
  define p where "p = last (head # xs)"
  define n where "n = hd (ys @ [head])"
  have l: "links h head xs el" "links h el ys head" and dist: "distinct (head # xs @ el # ys)"
    using d by (auto simp: dlist_def)
  have e: "lh_prev h el = Some p" "lh_next h el = Some n" using links_ends(2) [OF l(1)] links_ends(1) [OF l(2)]
    by (simp_all add: p_def n_def)
  have pn: "lh_next h p = Some el" "lh_prev h n = Some el"
    using l by (cases xs rule: rev_cases; simp add: p_def) (use l in \<open>cases ys; simp add: n_def\<close>)
  have "p \<in> set (head # xs)" "n \<in> set (ys @ [head])" unfolding p_def n_def by (intro last_in_set hd_in_set; simp)+
  then have ne: "p \<noteq> el" "n \<noteq> el" using dist by auto
  define h' where "h' = h\<lparr>lh_prev := (lh_prev h)(n \<mapsto> p, el \<mapsto> NULL), lh_next := (lh_next h)(p \<mapsto> n, el \<mapsto> NULL)\<rparr>"
  have run: "list_del el h = Some h'"
    using e pn ne by (auto simp: list_del_def set_prev_def set_next_def h'_def)
  have "links h' head (xs @ ys) head"
  proof (cases xs rule: rev_cases; cases ys)
    assume "xs = []" "ys = []"
    then show ?thesis using dist by (auto simp: h'_def p_def n_def)
  next
    fix y ys' assume s: "xs = []" "ys = y # ys'"
    have "links h' y ys' head"
      by (rule links_frame [of h y ys' head]) (use l(2) dist s in \<open>auto simp: h'_def p_def n_def\<close>)
    then show ?thesis using dist s by (auto simp: h'_def p_def n_def)
  next
    fix xs' x assume s: "xs = xs' @ [x]" "ys = []"
    have "links h' head xs' x"
      by (rule links_frame [of h head xs' x]) (use l(1) dist s in \<open>auto simp: h'_def p_def n_def\<close>)
    then show ?thesis using dist s by (auto simp: h'_def p_def n_def)
  next
    fix xs' x y ys' assume s: "xs = xs' @ [x]" "ys = y # ys'"
    have "links h' head xs' x"
      by (rule links_frame [of h head xs' x]) (use l(1) dist s in \<open>auto simp: h'_def p_def n_def\<close>)
    moreover have "links h' y ys' head"
      by (rule links_frame [of h y ys' head]) (use l(2) dist s in \<open>auto simp: h'_def p_def n_def\<close>)
    ultimately show ?thesis using dist s by (auto simp: h'_def p_def n_def)
  qed
  then show ?thesis using run dist by (auto simp: dlist_def h'_def)
qed

lemma list_empty_ok: "dlist h head xs \<Longrightarrow> list_empty head h = Some (xs = [])"
  using links_ends(1) [of h head xs head]
  by (cases xs) (auto simp: dlist_def list_empty_def)

section \<open>Iteration\<close>

lemma list_for_each_ok:
  "links h a xs head \<Longrightarrow> head \<notin> set xs \<Longrightarrow> length xs \<le> fuel \<Longrightarrow> lh_next h a = Some el \<Longrightarrow>
   list_for_each fuel f el head h s = Some (fold f xs s)"
proof (induction xs arbitrary: a el fuel s)
  case Nil
  then show ?case by (simp add: list_for_each.simps)
next
  case (Cons x xs)
  then obtain k where k: "fuel = Suc k" "length xs \<le> k" by (cases fuel) auto
  have "el = x" "x \<noteq> head" "lh_next h x = Some (hd (xs @ [head]))"
    using Cons.prems links_ends(1) [of h x xs head] by auto
  then show ?case using Cons.IH [of x k] Cons.prems k by (subst list_for_each.simps) simp
qed

lemma list_for_each_safe_del:
  "dlist h head xs \<Longrightarrow> length xs \<le> fuel \<Longrightarrow> lh_next h head = Some el \<Longrightarrow> lh_next h el = Some el1 \<Longrightarrow>
   ok (list_for_each_safe fuel list_del el el1 head h) (\<lambda>h'. dlist h' head [])"
proof (induction xs arbitrary: h el el1 fuel)
  case Nil
  then show ?case by (auto simp: list_for_each_safe.simps dlist_def)
next
  case (Cons x xs)
  then obtain k where k: "fuel = Suc k" "length xs \<le> k" by (cases fuel) auto
  have l: "links h head (x # xs) head" "distinct (head # x # xs)" using Cons.prems(1) by (auto simp: dlist_def)
  then have el: "el = x" "x \<noteq> head" "el1 = hd (xs @ [head])"
    using Cons.prems links_ends(1) [of h x xs head] by auto
  obtain h1 where h1: "list_del x h = Some h1" and d1: "dlist h1 head xs"
    using list_del_ok [of h head "[]" x xs] Cons.prems(1) by (auto elim!: okE)
  have n: "lh_next h1 head = Some el1"
    using links_ends(1) [of h1 head xs head] d1 el by (simp add: dlist_def)
  obtain e where e: "lh_next h1 el1 = Some e"
  proof (cases xs)
    case Nil
    then show ?thesis using that el n by simp
  next
    case (Cons y ys)
    then show ?thesis using that d1 el links_ends(1) [of h1 y ys head] by (simp add: dlist_def)
  qed
  show ?case
    using Cons.IH [OF d1 k(2) n e] h1 e el k by (subst list_for_each_safe.simps) simp
qed

section \<open>Claims\<close>

text \<open>C6. On every well-formed ring, the empty one included, the list primitives do what they do on
  sequences: adding a new element at the head or at the tail, the emptiness test, and unlinking any
  element, whose own links become null; the result is a well-formed ring again.\<close>

theorem list_ops_refine:
  assumes "dlist h head xs" "allocated h el" "el \<notin> set (head # xs)"
  shows "(\<exists>h'. list_add el head h = Some h' \<and> dlist h' head (el # xs))
    \<and> (\<exists>h'. list_add_tail el head h = Some h' \<and> dlist h' head (xs @ [el]))
    \<and> list_empty head h = Some (xs = [])
    \<and> (\<forall>ys x zs. xs = ys @ x # zs \<longrightarrow> (\<exists>h'. list_del x h = Some h' \<and> dlist h' head (ys @ zs)
         \<and> lh_prev h' x = Some NULL \<and> lh_next h' x = Some NULL))"
proof (intro conjI allI impI)
  show "\<exists>h'. list_add el head h = Some h' \<and> dlist h' head (el # xs)" by (rule ok_exists [OF list_add_ok [OF assms]])
  show "\<exists>h'. list_add_tail el head h = Some h' \<and> dlist h' head (xs @ [el])" by (rule ok_exists [OF list_add_tail_ok [OF assms]])
  show "list_empty head h = Some (xs = [])" by (rule list_empty_ok [OF assms(1)])
  show "\<exists>h'. list_del x h = Some h' \<and> dlist h' head (ys @ zs) \<and> lh_prev h' x = Some NULL \<and> lh_next h' x = Some NULL"
    if "xs = ys @ x # zs" for ys x zs
    by (rule ok_exists [OF list_del_ok]) (use assms(1) that in simp)
qed

definition list_example :: list_heap where
  "list_example = \<lparr>lh_prev = [1 \<mapsto> 2, 2 \<mapsto> 1, 3 \<mapsto> 0], lh_next = [1 \<mapsto> 2, 2 \<mapsto> 1, 3 \<mapsto> 0]\<rparr>"

definition ring_example :: list_heap where
  "ring_example = \<lparr>lh_prev = [1 \<mapsto> 1, 3 \<mapsto> 0], lh_next = [1 \<mapsto> 1, 3 \<mapsto> 0]\<rparr>"

text \<open>A ring with one element and an empty ring.\<close>

theorem list_ops_refine_witness:
  "(\<exists>h'. list_add_tail 3 1 list_example = Some h' \<and> dlist h' 1 [2, 3]) \<and> (\<exists>h'. list_del 2 list_example = Some h' \<and> dlist h' 1 [])
   \<and> list_empty 1 ring_example = Some True \<and> (\<exists>h'. list_add 3 1 ring_example = Some h' \<and> dlist h' 1 [3])"
  using list_ops_refine [of list_example 1 "[2]" 3] list_ops_refine [of ring_example 1 "[]" 3]
  by (auto simp: list_example_def ring_example_def dlist_def allocated_def Cons_eq_append_conv)

text \<open>C20. Iteration ends and visits the elements in order, each once; the safe variant may unlink the
  current element, and unlinking every element leaves the empty ring.  Fuel for the number of
  elements is enough.\<close>

theorem list_iteration_correct:
  assumes "dlist h head xs"
  shows "for_each (length xs) f head h s = Some (fold f xs s)
    \<and> (\<exists>h'. for_each_safe (length xs) list_del head h = Some h' \<and> dlist h' head [])"
proof -
  have l: "links h head xs head" "head \<notin> set xs" using assms by (auto simp: dlist_def)
  have n: "lh_next h head = Some (hd (xs @ [head]))" using links_ends(1) [OF l(1)] .
  obtain e where e: "lh_next h (hd (xs @ [head])) = Some e"
    using l n links_ends(1) [of h "hd xs" "tl xs" head] by (cases xs) auto
  show ?thesis
    using list_for_each_ok [OF l order.refl n] ok_exists [OF list_for_each_safe_del [OF assms order.refl n e]] n e
    by (simp add: for_each_def for_each_safe_def)
qed

theorem list_iteration_correct_witness:
  "for_each 1 (\<lambda>a s. s @ [a]) 1 list_example [] = Some [2]"
  using list_iteration_correct [of list_example 1 "[2]" "\<lambda>a s. s @ [a]" "[]"]
  by (simp add: list_example_def dlist_def)

end
