(* ===== verification/Registration.thy ===== *)
theory Registration
  imports Main
begin

text \<open>
  Registration of host functions in \<open>src/native/quickjs_bridge.c\<close>: the process-global table of
  callbacks, and its use by several threads at the same time.  A registration tests the counter,
  reserves an index with an atomic fetch-and-add, tests the index, stores the callback, and binds a
  script function whose magic number is the index; these accesses are the steps of \<open>reg_step\<close>.
\<close>

section \<open>Registration tables\<close>

definition MAX_HOST_FNS :: int where
  "MAX_HOST_FNS = 65536"

record 'cb fn_table =
  g_callback_count :: int
  g_callbacks :: "int \<Rightarrow> 'cb option"

definition fn_table_init :: "'cb fn_table" where
  "fn_table_init = \<lparr>g_callback_count = 0, g_callbacks = (\<lambda>_. None)\<rparr>"

text \<open>\<open>idx = fetch_and_add(&count, 1); if (idx >= MAX) return -1; callbacks[idx] = callback\<close>, for one
  thread, with the preceding test; the result is the index or nothing.\<close>

definition reserve_index :: "'cb \<Rightarrow> 'cb fn_table \<Rightarrow> 'cb fn_table \<times> int option" where
  "reserve_index cb t =
     (if g_callback_count t \<ge> MAX_HOST_FNS then (t, None)
      else let idx = g_callback_count t; t1 = t\<lparr>g_callback_count := idx + 1\<rparr> in
        if idx \<ge> MAX_HOST_FNS then (t1, None)
        else (t1\<lparr>g_callbacks := (g_callbacks t1)(idx := Some cb)\<rparr>, Some idx))"

section \<open>Concurrent registration\<close>

text \<open>Threads register at the same time; the accesses to the shared table are the atomic steps.\<close>

datatype 'cb reg_pc = Idle | Called 'cb | Checked 'cb | Got 'cb int | Stored 'cb int

record 'cb reg_state =
  rs_table :: "'cb fn_table"
  rs_pc :: "nat \<Rightarrow> 'cb reg_pc"
  rs_fns :: "(int \<times> 'cb) list"

definition reg_init :: "'cb reg_state" where
  "reg_init = \<lparr>rs_table = fn_table_init, rs_pc = (\<lambda>_. Idle), rs_fns = []\<rparr>"

abbreviation goto :: "nat \<Rightarrow> 'cb reg_pc \<Rightarrow> 'cb reg_state \<Rightarrow> 'cb reg_state" where
  "goto t pc s \<equiv> s\<lparr>rs_pc := (rs_pc s)(t := pc)\<rparr>"

inductive reg_step :: "nat set \<Rightarrow> 'cb reg_state \<Rightarrow> 'cb reg_state \<Rightarrow> bool" for T where
  call: "t \<in> T \<Longrightarrow> rs_pc s t = Idle \<Longrightarrow> reg_step T s (goto t (Called cb) s)"
| reject: "t \<in> T \<Longrightarrow> rs_pc s t = Called cb \<Longrightarrow> g_callback_count (rs_table s) \<ge> MAX_HOST_FNS \<Longrightarrow>
    reg_step T s (goto t Idle s)"
| check: "t \<in> T \<Longrightarrow> rs_pc s t = Called cb \<Longrightarrow> g_callback_count (rs_table s) < MAX_HOST_FNS \<Longrightarrow>
    reg_step T s (goto t (Checked cb) s)"
| fetch_and_add: "t \<in> T \<Longrightarrow> rs_pc s t = Checked cb \<Longrightarrow> idx = g_callback_count (rs_table s) \<Longrightarrow>
    reg_step T s (goto t (Got cb idx) (s\<lparr>rs_table := (rs_table s)\<lparr>g_callback_count := idx + 1\<rparr>\<rparr>))"
| full: "t \<in> T \<Longrightarrow> rs_pc s t = Got cb idx \<Longrightarrow> idx \<ge> MAX_HOST_FNS \<Longrightarrow> reg_step T s (goto t Idle s)"
| store: "t \<in> T \<Longrightarrow> rs_pc s t = Got cb idx \<Longrightarrow> idx < MAX_HOST_FNS \<Longrightarrow>
    reg_step T s (goto t (Stored cb idx)
      (s\<lparr>rs_table := (rs_table s)\<lparr>g_callbacks := (g_callbacks (rs_table s))(idx := Some cb)\<rparr>\<rparr>))"
| create: "t \<in> T \<Longrightarrow> rs_pc s t = Stored cb idx \<Longrightarrow>
    reg_step T s (goto t Idle (s\<lparr>rs_fns := (idx, cb) # rs_fns s\<rparr>))"
| create_fails: "t \<in> T \<Longrightarrow> rs_pc s t = Stored cb idx \<Longrightarrow> reg_step T s (goto t Idle s)"

inductive reg_reach :: "nat set \<Rightarrow> 'cb reg_state \<Rightarrow> bool" for T where
  init: "reg_reach T reg_init"
| step: "reg_reach T s \<Longrightarrow> reg_step T s s' \<Longrightarrow> reg_reach T s'"

text \<open>The index that a thread has reserved and not yet bound or dropped.\<close>

fun pc_index :: "'cb reg_pc \<Rightarrow> int option" where
  "pc_index (Got cb idx) = Some idx"
| "pc_index (Stored cb idx) = Some idx"
| "pc_index _ = None"

text \<open>Reserved indices are distinct, allocated and not yet bound; stored and bound callbacks are in the
  table.\<close>

definition pcs_ok :: "int \<Rightarrow> int set \<Rightarrow> (nat \<Rightarrow> 'cb reg_pc) \<Rightarrow> bool" where
  "pcs_ok n used pcs \<longleftrightarrow> (\<forall>t i. pc_index (pcs t) = Some i \<longrightarrow> 0 \<le> i \<and> i < n \<and> i \<notin> used \<and>
     (\<forall>t'. pc_index (pcs t') = Some i \<longrightarrow> t' = t))"

definition stored_ok :: "(int \<Rightarrow> 'cb option) \<Rightarrow> (nat \<Rightarrow> 'cb reg_pc) \<Rightarrow> bool" where
  "stored_ok tab pcs \<longleftrightarrow> (\<forall>t i cb. pcs t = Stored cb i \<longrightarrow> i < MAX_HOST_FNS \<and> tab i = Some cb)"

definition fns_ok :: "'cb fn_table \<Rightarrow> (int \<times> 'cb) list \<Rightarrow> bool" where
  "fns_ok tab fns \<longleftrightarrow> distinct (map fst fns) \<and> (\<forall>(i, cb) \<in> set fns. 0 \<le> i \<and> i < MAX_HOST_FNS
     \<and> i < g_callback_count tab \<and> g_callbacks tab i = Some cb)"

definition reg_inv :: "'cb reg_state \<Rightarrow> bool" where
  "reg_inv s \<longleftrightarrow> 0 \<le> g_callback_count (rs_table s)
   \<and> pcs_ok (g_callback_count (rs_table s)) (fst ` set (rs_fns s)) (rs_pc s)
   \<and> stored_ok (g_callbacks (rs_table s)) (rs_pc s) \<and> fns_ok (rs_table s) (rs_fns s)"

lemma pcs_okD:
  assumes "pcs_ok n used pcs" "pc_index (pcs t) = Some i"
  shows "0 \<le> i" "i < n" "i \<notin> used" "pc_index (pcs t') = Some i \<Longrightarrow> t' = t"
  using assms unfolding pcs_ok_def by auto

lemma pcs_ok_drop: "pcs_ok n used pcs \<Longrightarrow> pc_index pc = None \<Longrightarrow> pcs_ok n used (pcs(t := pc))"
  by (auto simp: pcs_ok_def)

lemma pcs_ok_keep: "pcs_ok n used pcs \<Longrightarrow> pc_index pc = pc_index (pcs t) \<Longrightarrow> pcs_ok n used (pcs(t := pc))"
  by (auto simp: pcs_ok_def split: if_splits)

lemma pcs_ok_new:
  assumes "pcs_ok n used pcs" "0 \<le> n" "n \<notin> used"
  shows "pcs_ok (n + 1) used (pcs(t := Got cb n))"
proof -
  have "pc_index (pcs u) \<noteq> Some n" for u using pcs_okD(2) [OF assms(1), of u n] by auto
  moreover have "i < n + 1" if "pc_index (pcs u) = Some i" for u i using pcs_okD(2) [OF assms(1) that] by simp
  ultimately show ?thesis using assms by (simp add: pcs_ok_def) blast
qed

lemma pcs_ok_bind:
  assumes "pcs_ok n used pcs" "pc_index (pcs t) = Some i" "pc_index pc = None"
  shows "pcs_ok n (insert i used) (pcs(t := pc))"
  using assms pcs_okD(4) [OF assms(1,2)] by (auto simp: pcs_ok_def split: if_splits)

lemma stored_ok_drop: "stored_ok tab pcs \<Longrightarrow> \<forall>cb i. pc \<noteq> Stored cb i \<Longrightarrow> stored_ok tab (pcs(t := pc))"
  by (auto simp: stored_ok_def)

lemma reg_inv_init: "reg_inv reg_init"
  by (simp add: reg_inv_def reg_init_def fn_table_init_def pcs_ok_def stored_ok_def fns_ok_def)

lemma reg_inv_goto: "reg_inv s \<Longrightarrow> pc_index pc = None \<Longrightarrow> reg_inv (goto t pc s)"
  by (auto simp: reg_inv_def intro!: pcs_ok_drop stored_ok_drop)

lemma reg_inv_fetch:
  assumes inv: "reg_inv s"
  shows "reg_inv (goto t (Got cb (g_callback_count (rs_table s)))
    (s\<lparr>rs_table := (rs_table s)\<lparr>g_callback_count := g_callback_count (rs_table s) + 1\<rparr>\<rparr>))"
proof -
  have "g_callback_count (rs_table s) \<notin> fst ` set (rs_fns s)" using inv by (auto simp: reg_inv_def fns_ok_def)
  then show ?thesis using inv by (fastforce simp: reg_inv_def fns_ok_def intro!: pcs_ok_new stored_ok_drop)
qed

lemma reg_inv_store:
  assumes inv: "reg_inv s" and pc: "rs_pc s t = Got cb idx" "idx < MAX_HOST_FNS"
  shows "reg_inv (goto t (Stored cb idx)
      (s\<lparr>rs_table := (rs_table s)\<lparr>g_callbacks := (g_callbacks (rs_table s))(idx := Some cb)\<rparr>\<rparr>))"
proof -
  have ps: "pcs_ok (g_callback_count (rs_table s)) (fst ` set (rs_fns s)) (rs_pc s)" and ix: "pc_index (rs_pc s t) = Some idx"
    using inv pc by (auto simp: reg_inv_def)
  have "u = t" if "rs_pc s u = Stored c idx" for u c using pcs_okD(4) [OF ps ix, of u] that by simp
  then have "stored_ok ((g_callbacks (rs_table s))(idx := Some cb)) ((rs_pc s)(t := Stored cb idx))"
    using inv pc by (auto simp: reg_inv_def stored_ok_def)
  moreover have "idx \<notin> fst ` set (rs_fns s)" by (rule pcs_okD(3) [OF ps ix])
  ultimately show ?thesis using inv pc by (force simp: reg_inv_def fns_ok_def intro!: pcs_ok_keep)
qed

lemma reg_inv_create:
  assumes inv: "reg_inv s" and pc: "rs_pc s t = Stored cb idx"
  shows "reg_inv (goto t Idle (s\<lparr>rs_fns := (idx, cb) # rs_fns s\<rparr>))"
proof -
  have ps: "pcs_ok (g_callback_count (rs_table s)) (fst ` set (rs_fns s)) (rs_pc s)" and ix: "pc_index (rs_pc s t) = Some idx"
    using inv pc by (auto simp: reg_inv_def)
  have "pcs_ok (g_callback_count (rs_table s)) (insert idx (fst ` set (rs_fns s))) ((rs_pc s)(t := Idle))"
    by (rule pcs_ok_bind [OF ps ix]) simp
  moreover have "fns_ok (rs_table s) ((idx, cb) # rs_fns s)"
    using inv pc pcs_okD(1-3) [OF ps ix] by (auto simp: reg_inv_def fns_ok_def stored_ok_def)
  ultimately show ?thesis using inv by (auto simp: reg_inv_def intro!: stored_ok_drop)
qed

lemma reg_inv_step:
  assumes "reg_step T s s'" "reg_inv s"
  shows "reg_inv s'"
  using assms
proof (induction)
  case (fetch_and_add t s cb idx)
  then show ?case by (simp only: fetch_and_add(3)) (rule reg_inv_fetch)
next
  case (store t s cb idx)
  then show ?case by (intro reg_inv_store)
next
  case (create t s cb idx)
  then show ?case by (intro reg_inv_create)
qed (auto intro: reg_inv_goto)

lemma reg_reach_inv: "reg_reach T s \<Longrightarrow> reg_inv s"
  by (induction rule: reg_reach.induct) (auto intro: reg_inv_init reg_inv_step)

text \<open>The counter overshoots the limit by at most one per thread.\<close>

definition checked :: "nat set \<Rightarrow> 'cb reg_state \<Rightarrow> nat set" where
  "checked T s = {t \<in> T. \<exists>cb. rs_pc s t = Checked cb}"

lemma checked_goto:
  assumes "finite T" "t \<in> T"
  shows "card (checked T (goto t pc s)) =
    (if \<exists>cb. pc = Checked cb then Suc (card (checked T s - {t})) else card (checked T s - {t}))"
proof -
  have "checked T (goto t pc s) = (if \<exists>cb. pc = Checked cb then insert t (checked T s - {t}) else checked T s - {t})"
    using assms(2) by (auto simp: checked_def)
  moreover have "finite (checked T s - {t})" using assms(1) by (simp add: checked_def)
  ultimately show ?thesis by (simp del: insert_Diff_single card_Diff_insert)
qed

lemma checked_goto_le:
  assumes "finite T" "t \<in> T" "\<forall>cb. pc \<noteq> Checked cb"
  shows "card (checked T (goto t pc s)) \<le> card (checked T s)"
  using checked_goto [OF assms(1,2), of s pc] assms(3) card_Diff1_le [of "checked T s" t] by simp

lemma count_goto:
  assumes "n + int (card (checked T s)) \<le> m" "finite T" "t \<in> T" "\<forall>cb. pc \<noteq> Checked cb"
  shows "n + int (card (checked T (goto t pc s))) \<le> m"
  using assms(1) checked_goto_le [OF assms(2-4), of s] by linarith

lemma checked_table [simp]: "checked T (s\<lparr>rs_table := t\<rparr>) = checked T s" "checked T (s\<lparr>rs_fns := f\<rparr>) = checked T s"
  by (auto simp: checked_def)

lemma count_bound_step:
  assumes "reg_step T s s'" "finite T"
    and "g_callback_count (rs_table s) + int (card (checked T s)) \<le> MAX_HOST_FNS + int (card T)"
  shows "g_callback_count (rs_table s') + int (card (checked T s')) \<le> MAX_HOST_FNS + int (card T)"
  using assms
proof (induction)
  case (check t s cb)
  then have "checked T s \<subseteq> T" "t \<notin> checked T s" by (auto simp: checked_def)
  then have "checked T s \<subset> T" using check(1) by blast
  then have "card (checked T s) < card T" using check by (intro psubset_card_mono) auto
  moreover have "card (checked T s - {t}) \<le> card (checked T s)" by (rule card_Diff1_le)
  ultimately show ?case using check by (auto simp: checked_goto simp del: checked_table)
next
  case (fetch_and_add t s cb idx)
  then have "t \<in> checked T s" "finite (checked T s)" by (auto simp: checked_def)
  then have "Suc (card (checked T s - {t})) = card (checked T s)" by (simp only: card_Suc_Diff1)
  then show ?case using fetch_and_add checked_goto [of T t "s\<lparr>rs_table := (rs_table s)\<lparr>g_callback_count := idx + 1\<rparr>\<rparr>" "Got cb idx"]
    by auto
next
  case (store t s cb idx)
  then show ?case using checked_goto_le [of T t "Stored cb idx"
      "s\<lparr>rs_table := (rs_table s)\<lparr>g_callbacks := (g_callbacks (rs_table s))(idx := Some cb)\<rparr>\<rparr>"] by auto
next
  case (create t s cb idx)
  then show ?case using checked_goto_le [of T t Idle "s\<lparr>rs_fns := (idx, cb) # rs_fns s\<rparr>"] by auto
qed (auto intro: count_goto)

lemma count_bound:
  assumes "reg_reach T s" "finite T"
  shows "g_callback_count (rs_table s) + int (card (checked T s)) \<le> MAX_HOST_FNS + int (card T)"
  using assms
proof (induction)
  case init
  then show ?case by (simp add: reg_init_def fn_table_init_def MAX_HOST_FNS_def checked_def)
qed (auto intro: count_bound_step)

end
