(* ===== verification/Jobs.thy ===== *)
theory Jobs
  imports DList "HOL-Library.Sublist"
begin

text \<open>
  The queue of pending jobs (promise reactions) of \<open>src/native/quickjs/quickjs.c\<close>: \<open>JS_EnqueueJob\<close>,
  \<open>JS_IsJobPending\<close> and \<open>JS_ExecutePendingJob\<close>.  The queue is the intrusive list \<open>rt->job_list\<close> of
  theory \<open>DList\<close>; a job entry is a heap object that is allocated when the job is enqueued and freed
  after it ran.  Allocation is answered by the environment: an address, or a failure.  What a job
  function does is a parameter: it changes the state of the engine, enqueues further jobs in some
  order, and may throw.
\<close>

section \<open>State and operations\<close>

record ('c, 'f, 'v) JSJobEntry =
  je_ctx :: 'c
  je_func :: 'f
  je_argv :: "'v list"

text \<open>\<open>jr_refs\<close> counts the references to argument values that the queue holds.\<close>

record 'j job_rt =
  jr_heap :: list_heap
  jr_job_list :: addr
  jr_entries :: "addr \<rightharpoonup> 'j"
  jr_answers :: "nat \<Rightarrow> addr option"
  jr_calls :: nat
  jr_refs :: int

text \<open>\<open>js_malloc\<close> of an entry: an address that is not in use, or null.\<close>

definition malloc_entry :: "'j job_rt \<Rightarrow> 'j job_rt \<times> addr option" where
  "malloc_entry rt =
     (let rt1 = rt\<lparr>jr_calls := Suc (jr_calls rt)\<rparr> in
      case jr_answers rt (jr_calls rt) of
        None \<Rightarrow> (rt1, None)
      | Some a \<Rightarrow>
          if a = NULL \<or> a \<in> dom (lh_prev (jr_heap rt)) \<or> a \<in> dom (lh_next (jr_heap rt)) then (rt1, None)
          else (rt1\<lparr>jr_heap := \<lparr>lh_prev = (lh_prev (jr_heap rt))(a \<mapsto> NULL), lh_next = (lh_next (jr_heap rt))(a \<mapsto> NULL)\<rparr>\<rparr>, Some a))"

definition free_entry :: "addr \<Rightarrow> 'j job_rt \<Rightarrow> 'j job_rt" where
  "free_entry a rt = rt\<lparr>jr_heap := \<lparr>lh_prev = (lh_prev (jr_heap rt))(a := None), lh_next = (lh_next (jr_heap rt))(a := None)\<rparr>,
     jr_entries := (jr_entries rt)(a := None)\<rparr>"

type_synonym ('c, 'f, 'v) jobs = "('c, 'f, 'v) JSJobEntry job_rt"

definition JS_EnqueueJob :: "('c, 'f, 'v) JSJobEntry \<Rightarrow> ('c, 'f, 'v) jobs \<Rightarrow> (('c, 'f, 'v) jobs \<times> int) option" where
  "JS_EnqueueJob j rt = (case malloc_entry rt of
       (rt1, None) \<Rightarrow> Some (rt1, -1)
     | (rt1, Some e) \<Rightarrow> do {
         let rt2 = rt1\<lparr>jr_entries := (jr_entries rt1)(e \<mapsto> j), jr_refs := jr_refs rt1 + int (length (je_argv j))\<rparr>;
         h \<leftarrow> list_add_tail e (jr_job_list rt2) (jr_heap rt2);
         Some (rt2\<lparr>jr_heap := h\<rparr>, 0) })"

definition JS_IsJobPending :: "('c, 'f, 'v) jobs \<Rightarrow> bool option" where
  "JS_IsJobPending rt = map_option Not (list_empty (jr_job_list rt) (jr_heap rt))"

text \<open>A job function returns the new engine state, the jobs it enqueued, in order, and whether it
  threw.\<close>

type_synonym ('c, 'f, 'v, 's) job_call =
  "'f \<Rightarrow> 'c \<Rightarrow> 'v list \<Rightarrow> 's \<Rightarrow> 's \<times> ('c, 'f, 'v) JSJobEntry list \<times> bool"

fun enqueue_all :: "('c, 'f, 'v) JSJobEntry list \<Rightarrow> ('c, 'f, 'v) jobs \<Rightarrow> ('c, 'f, 'v) jobs option" where
  "enqueue_all [] rt = Some rt"
| "enqueue_all (j # js) rt = do {
     (rt', r) \<leftarrow> JS_EnqueueJob j rt;
     enqueue_all js rt' }"

definition JS_ExecutePendingJob ::
  "('c, 'f, 'v, 's) job_call \<Rightarrow> ('c, 'f, 'v) jobs \<times> 's \<Rightarrow> ((('c, 'f, 'v) jobs \<times> 's) \<times> 'c option \<times> int) option" where
  "JS_ExecutePendingJob call st = (let (rt, s) = st in do {
     em \<leftarrow> list_empty (jr_job_list rt) (jr_heap rt);
     if em then Some ((rt, s), None, 0)
     else do {
       e \<leftarrow> lh_next (jr_heap rt) (jr_job_list rt);
       h \<leftarrow> list_del e (jr_heap rt);
       j \<leftarrow> jr_entries rt e;
       let (s', js, exc) = call (je_func j) (je_ctx j) (je_argv j) s;
       rt1 \<leftarrow> enqueue_all js (rt\<lparr>jr_heap := h\<rparr>);
       let rt2 = rt1\<lparr>jr_refs := jr_refs rt1 - int (length (je_argv j))\<rparr>;
       Some ((free_entry e rt2, s'), Some (je_ctx j), if exc then -1 else 1) } })"

section \<open>The queue as a sequence of jobs\<close>

text \<open>The ring \<open>xs\<close> holds the entries of the jobs \<open>q\<close>; \<open>E\<close> are entries that are allocated but not
  linked (the job that is running).\<close>

definition jobs_inv :: "addr set \<Rightarrow> ('c, 'f, 'v) jobs \<Rightarrow> ('c, 'f, 'v) JSJobEntry list \<Rightarrow> bool" where
  "jobs_inv E rt q \<longleftrightarrow> (\<exists>xs. dlist (jr_heap rt) (jr_job_list rt) xs \<and> map (jr_entries rt) xs = map Some q
     \<and> E \<inter> set (jr_job_list rt # xs) = {}
     \<and> dom (lh_prev (jr_heap rt)) = insert (jr_job_list rt) (set xs \<union> E)
     \<and> dom (lh_next (jr_heap rt)) = insert (jr_job_list rt) (set xs \<union> E))"

definition queue_refs :: "('c, 'f, 'v) JSJobEntry list \<Rightarrow> int" where
  "queue_refs q = (\<Sum>j\<leftarrow>q. int (length (je_argv j)))"

lemma list_add_tail_dom:
  "list_add_tail el head h = Some h' \<Longrightarrow> dom (lh_prev h') = dom (lh_prev h) \<and> dom (lh_next h') = dom (lh_next h)"
  by (auto simp: list_add_tail_def list_add_between_def set_prev_def set_next_def split: bind_splits if_splits)

lemma list_del_dom:
  "list_del el h = Some h' \<Longrightarrow> dom (lh_prev h') = dom (lh_prev h) \<and> dom (lh_next h') = dom (lh_next h)"
  by (auto simp: list_del_def set_prev_def set_next_def split: bind_splits if_splits)

lemma dlist_frame:
  assumes "dlist h head xs" "\<And>u. u \<in> set (head # xs) \<Longrightarrow> lh_next h' u = lh_next h u \<and> lh_prev h' u = lh_prev h u"
  shows "dlist h' head xs"
  using assms links_frame [of h head xs head h'] by (auto simp: dlist_def)

text \<open>Whether the next allocation of an entry succeeds.\<close>

definition granted :: "('c, 'f, 'v) jobs \<Rightarrow> bool" where
  "granted rt \<longleftrightarrow> snd (malloc_entry rt) \<noteq> None"

lemma enqueue_refused:
  "\<not> granted rt \<Longrightarrow> JS_EnqueueJob j rt = Some (rt\<lparr>jr_calls := Suc (jr_calls rt)\<rparr>, -1)"
  by (auto simp: granted_def JS_EnqueueJob_def malloc_entry_def Let_def split: option.splits if_splits)

lemma enqueue_granted:
  assumes inv: "jobs_inv E rt q" and g: "granted rt"
  shows "ok (JS_EnqueueJob j rt) (\<lambda>(rt', r). r = 0 \<and> jobs_inv E rt' (q @ [j]) \<and> jr_refs rt' = jr_refs rt + int (length (je_argv j))
      \<and> (\<forall>a \<in> E. jr_entries rt' a = jr_entries rt a))"
proof -
  obtain xs where x: "dlist (jr_heap rt) (jr_job_list rt) xs" "map (jr_entries rt) xs = map Some q"
    "E \<inter> set (jr_job_list rt # xs) = {}"
    and dm: "dom (lh_prev (jr_heap rt)) = insert (jr_job_list rt) (set xs \<union> E)"
      "dom (lh_next (jr_heap rt)) = insert (jr_job_list rt) (set xs \<union> E)"
    using inv unfolding jobs_inv_def by blast
  let ?h = "jr_heap rt" let ?l = "jr_job_list rt"
  obtain a where a: "jr_answers rt (jr_calls rt) = Some a" "a \<noteq> NULL" "a \<notin> dom (lh_prev ?h)" "a \<notin> dom (lh_next ?h)"
    using g by (auto simp: granted_def malloc_entry_def Let_def split: option.splits if_splits)
  define rt1 where "rt1 = rt\<lparr>jr_calls := Suc (jr_calls rt)\<rparr>"
  define h1 where "h1 = \<lparr>lh_prev = (lh_prev ?h)(a \<mapsto> NULL), lh_next = (lh_next ?h)(a \<mapsto> NULL)\<rparr>"
  have me: "malloc_entry rt = (rt1\<lparr>jr_heap := h1\<rparr>, Some a)"
    using a by (simp add: malloc_entry_def rt1_def h1_def Let_def)
  have an: "a \<notin> set (?l # xs)" "a \<notin> E" using a dm by auto
  have d1: "dlist h1 ?l xs" using x(1) an by (intro dlist_frame [OF x(1)]) (auto simp: h1_def)
  have "allocated h1 a" by (simp add: allocated_def h1_def)
  then obtain h2 where h2: "list_add_tail a ?l h1 = Some h2" "dlist h2 ?l (xs @ [a])"
    using list_add_tail_ok [OF d1 _ an(1)] by (auto elim!: okE)
  have dm2: "dom (lh_prev h2) = insert ?l (set (xs @ [a]) \<union> E)" "dom (lh_next h2) = insert ?l (set (xs @ [a]) \<union> E)"
    using list_add_tail_dom [OF h2(1)] dm by (auto simp: h1_def)
  have "map ((jr_entries rt)(a \<mapsto> j)) xs = map (jr_entries rt) xs" using an(1) by auto
  then have "map ((jr_entries rt)(a \<mapsto> j)) (xs @ [a]) = map Some (q @ [j])" using x(2) by simp
  moreover have "E \<inter> set (?l # xs @ [a]) = {}" using x(3) an(2) by auto
  moreover define rt3 where "rt3 = rt1\<lparr>jr_heap := h2, jr_entries := (jr_entries rt)(a \<mapsto> j),
      jr_refs := jr_refs rt + int (length (je_argv j))\<rparr>"
  ultimately have "jobs_inv E rt3 (q @ [j])"
    unfolding jobs_inv_def using h2(2) dm2 by (intro exI [of _ "xs @ [a]"]) (simp add: rt1_def)
  moreover have "JS_EnqueueJob j rt = Some (rt3, 0)"
    using me h2(1) by (simp add: JS_EnqueueJob_def rt1_def rt3_def Let_def)
  ultimately show ?thesis using an(2) by (simp add: rt3_def rt1_def)
qed

text \<open>The jobs of a sequence of calls that are enqueued: those whose allocation succeeds.\<close>

fun accepted :: "('c, 'f, 'v) JSJobEntry list \<Rightarrow> ('c, 'f, 'v) jobs \<Rightarrow> ('c, 'f, 'v) JSJobEntry list" where
  "accepted [] rt = []"
| "accepted (j # js) rt = (case JS_EnqueueJob j rt of
     None \<Rightarrow> [] | Some (rt', r) \<Rightarrow> (if granted rt then [j] else []) @ accepted js rt')"

lemma enqueue_all_ok:
  "jobs_inv E rt q \<Longrightarrow> ok (enqueue_all js rt) (\<lambda>rt'. jobs_inv E rt' (q @ accepted js rt)
     \<and> jr_refs rt' = jr_refs rt + queue_refs (accepted js rt) \<and> (\<forall>a \<in> E. jr_entries rt' a = jr_entries rt a))"
proof (induction js arbitrary: rt q)
  case Nil
  then show ?case by (simp add: queue_refs_def)
next
  case (Cons j js)
  show ?case
  proof (cases "granted rt")
    case True
    obtain rt1 where e: "JS_EnqueueJob j rt = Some (rt1, 0)" "jobs_inv E rt1 (q @ [j])" "jr_refs rt1 = jr_refs rt + int (length (je_argv j))"
      "\<forall>a \<in> E. jr_entries rt1 a = jr_entries rt a"
      using enqueue_granted [OF Cons.prems True, of j] by (auto elim!: okE)
    show ?thesis using Cons.IH [OF e(2)] e True by (auto simp: queue_refs_def elim!: ok_mono)
  next
    case False
    define rt1 where "rt1 = rt\<lparr>jr_calls := Suc (jr_calls rt)\<rparr>"
    have "jobs_inv E rt1 q" using Cons.prems by (simp add: jobs_inv_def rt1_def)
    then show ?thesis using Cons.IH [of rt1 q] enqueue_refused [OF False, of j] False
      by (auto simp: rt1_def [symmetric] elim!: ok_mono) (auto simp: rt1_def)
  qed
qed

text \<open>Memory that is never short: from now on every answer is an address that is not in use and that no
  other answer gives.\<close>

definition fresh_answers :: "('c, 'f, 'v) jobs \<Rightarrow> bool" where
  "fresh_answers rt \<longleftrightarrow> (\<forall>n \<ge> jr_calls rt. \<exists>a. jr_answers rt n = Some a \<and> a \<noteq> NULL
     \<and> a \<notin> dom (lh_prev (jr_heap rt)) \<union> dom (lh_next (jr_heap rt)) \<and> (\<forall>k \<ge> jr_calls rt. k \<noteq> n \<longrightarrow> jr_answers rt k \<noteq> Some a))"

lemma fresh_granted: "fresh_answers rt \<Longrightarrow> granted rt"
  by (fastforce simp: fresh_answers_def granted_def malloc_entry_def Let_def split: option.splits)

lemma fresh_enqueue:
  assumes f: "fresh_answers rt" and e: "JS_EnqueueJob j rt = Some (rt', r)"
  shows "fresh_answers rt'"
proof -
  obtain a where a: "jr_answers rt (jr_calls rt) = Some a" "a \<noteq> NULL" "a \<notin> dom (lh_prev (jr_heap rt)) \<union> dom (lh_next (jr_heap rt))"
    using f unfolding fresh_answers_def by blast
  obtain h where h: "list_add_tail a (jr_job_list rt) \<lparr>lh_prev = (lh_prev (jr_heap rt))(a \<mapsto> NULL), lh_next = (lh_next (jr_heap rt))(a \<mapsto> NULL)\<rparr> = Some h"
    and rt': "jr_heap rt' = h" and c: "jr_calls rt' = Suc (jr_calls rt)" "jr_answers rt' = jr_answers rt"
    using e a by (auto simp: JS_EnqueueJob_def malloc_entry_def Let_def split: bind_splits if_splits)
  have d: "dom (lh_prev (jr_heap rt')) = insert a (dom (lh_prev (jr_heap rt)))" "dom (lh_next (jr_heap rt')) = insert a (dom (lh_next (jr_heap rt)))"
    using list_add_tail_dom [OF h] by (simp_all add: rt')
  show ?thesis
    unfolding fresh_answers_def c
  proof (intro allI impI)
    fix n assume n: "Suc (jr_calls rt) \<le> n"
    then obtain b where b: "jr_answers rt n = Some b" "b \<noteq> NULL" "b \<notin> dom (lh_prev (jr_heap rt)) \<union> dom (lh_next (jr_heap rt))"
      "\<forall>k \<ge> jr_calls rt. k \<noteq> n \<longrightarrow> jr_answers rt k \<noteq> Some b"
      using f Suc_leD unfolding fresh_answers_def by blast
    then have "b \<noteq> a" using a(1) n by (metis Suc_n_not_le_n order.refl)
    then show "\<exists>b. jr_answers rt n = Some b \<and> b \<noteq> NULL \<and> b \<notin> dom (lh_prev (jr_heap rt')) \<union> dom (lh_next (jr_heap rt'))
        \<and> (\<forall>k \<ge> Suc (jr_calls rt). k \<noteq> n \<longrightarrow> jr_answers rt k \<noteq> Some b)"
      using b d by auto
  qed
qed

lemma accepted_all: "fresh_answers rt \<Longrightarrow> jobs_inv E rt q \<Longrightarrow> accepted js rt = js"
proof (induction js arbitrary: rt q)
  case (Cons j js)
  obtain rt1 where e: "JS_EnqueueJob j rt = Some (rt1, 0)" "jobs_inv E rt1 (q @ [j])"
    using enqueue_granted [OF Cons.prems(2) fresh_granted [OF Cons.prems(1)], of j] by (auto elim!: okE)
  show ?case using Cons.IH [OF fresh_enqueue [OF Cons.prems(1) e(1)] e(2)] e(1) fresh_granted [OF Cons.prems(1)] by simp
qed simp

lemma accepted_subseq: "subseq (accepted js rt) js"
  by (induction js rt rule: accepted.induct) (auto split: option.splits intro: list_emb_Cons)

lemma free_entry_inv:
  assumes "jobs_inv {e} rt q"
  shows "jobs_inv {} (free_entry e rt) q"
proof -
  obtain xs where x: "dlist (jr_heap rt) (jr_job_list rt) xs" "map (jr_entries rt) xs = map Some q"
    "{e} \<inter> set (jr_job_list rt # xs) = {}"
    and dm: "dom (lh_prev (jr_heap rt)) = insert (jr_job_list rt) (set xs \<union> {e})"
      "dom (lh_next (jr_heap rt)) = insert (jr_job_list rt) (set xs \<union> {e})"
    using assms unfolding jobs_inv_def by blast
  have "dlist (jr_heap (free_entry e rt)) (jr_job_list rt) xs"
    by (rule dlist_frame [OF x(1)]) (use x(3) in \<open>auto simp: free_entry_def\<close>)
  moreover have "map ((jr_entries rt)(e := None)) xs = map (jr_entries rt) xs" using x(3) by auto
  ultimately show ?thesis
    unfolding jobs_inv_def using x dm by (intro exI [of _ xs]) (auto simp: free_entry_def)
qed

lemma execute_empty:
  assumes "jobs_inv {} rt []"
  shows "JS_ExecutePendingJob call (rt, s) = Some ((rt, s), None, 0)"
  using assms list_empty_ok [of "jr_heap rt" "jr_job_list rt" "[]"]
  by (auto simp: jobs_inv_def JS_ExecutePendingJob_def)

text \<open>The state in which the oldest job runs: its entry is unlinked.\<close>

definition dequeued :: "('c, 'f, 'v) jobs \<Rightarrow> ('c, 'f, 'v) jobs" where
  "dequeued rt = (case lh_next (jr_heap rt) (jr_job_list rt) of
     None \<Rightarrow> rt | Some e \<Rightarrow> (case list_del e (jr_heap rt) of None \<Rightarrow> rt | Some h \<Rightarrow> rt\<lparr>jr_heap := h\<rparr>))"

lemma dequeued_ok:
  assumes inv: "jobs_inv {} rt (j # q)"
  shows "\<exists>e h. lh_next (jr_heap rt) (jr_job_list rt) = Some e \<and> list_empty (jr_job_list rt) (jr_heap rt) = Some False
    \<and> list_del e (jr_heap rt) = Some h \<and> jr_entries rt e = Some j \<and> dequeued rt = rt\<lparr>jr_heap := h\<rparr> \<and> jobs_inv {e} (dequeued rt) q"
proof -
  let ?h = "jr_heap rt" let ?l = "jr_job_list rt"
  obtain xs where x: "dlist ?h ?l xs" "map (jr_entries rt) xs = map Some (j # q)"
    and dm: "dom (lh_prev ?h) = insert ?l (set xs)" "dom (lh_next ?h) = insert ?l (set xs)"
    using inv unfolding jobs_inv_def by auto
  obtain e ys where xs: "xs = e # ys" using x(2) by (cases xs) auto
  have dist: "e \<noteq> ?l" "e \<notin> set ys" using x(1) xs by (auto simp: dlist_def)
  have nx: "lh_next ?h ?l = Some e" using x(1) xs by (simp add: dlist_def)
  have em: "list_empty ?l ?h = Some False" using list_empty_ok [OF x(1)] xs by simp
  obtain h where h: "list_del e ?h = Some h" "dlist h ?l ys"
    using list_del_ok [of ?h ?l "[]" e ys] x(1) xs by (auto elim!: okE)
  have dq: "dequeued rt = rt\<lparr>jr_heap := h\<rparr>" using nx h(1) by (simp add: dequeued_def)
  have "jobs_inv {e} (rt\<lparr>jr_heap := h\<rparr>) q"
    unfolding jobs_inv_def using h x(2) dm dist list_del_dom [OF h(1)] xs by (intro exI [of _ ys]) auto
  then show ?thesis using nx em h(1) x(2) xs dq by auto
qed

lemma execute_first:
  assumes inv: "jobs_inv {} rt (j # q)" and c: "call (je_func j) (je_ctx j) (je_argv j) s = (s', js, exc)"
  shows "ok (JS_ExecutePendingJob call (rt, s)) (\<lambda>((rt', s''), c, r). s'' = s' \<and> c = Some (je_ctx j)
    \<and> r = (if exc then -1 else 1) \<and> jobs_inv {} rt' (q @ accepted js (dequeued rt))
      \<and> jr_refs rt' = jr_refs rt - int (length (je_argv j)) + queue_refs (accepted js (dequeued rt)))"
proof -
  obtain e h where d: "lh_next (jr_heap rt) (jr_job_list rt) = Some e" "list_empty (jr_job_list rt) (jr_heap rt) = Some False"
    "list_del e (jr_heap rt) = Some h" "jr_entries rt e = Some j" "dequeued rt = rt\<lparr>jr_heap := h\<rparr>" "jobs_inv {e} (dequeued rt) q"
    using dequeued_ok [OF inv] by blast
  obtain rt1 where a: "enqueue_all js (dequeued rt) = Some rt1" "jobs_inv {e} rt1 (q @ accepted js (dequeued rt))"
    "jr_refs rt1 = jr_refs rt + queue_refs (accepted js (dequeued rt))"
    using enqueue_all_ok [OF d(6), of js] d(5) by (auto elim!: okE)
  define rt2 where "rt2 = rt1\<lparr>jr_refs := jr_refs rt1 - int (length (je_argv j))\<rparr>"
  have "jobs_inv {e} rt2 (q @ accepted js (dequeued rt))" using a(2) by (simp add: jobs_inv_def rt2_def)
  then have "jobs_inv {} (free_entry e rt2) (q @ accepted js (dequeued rt))" by (rule free_entry_inv)
  moreover have "JS_ExecutePendingJob call (rt, s) = Some ((free_entry e rt2, s'), Some (je_ctx j), if exc then -1 else 1)"
    using d a(1) c by (simp add: JS_ExecutePendingJob_def rt2_def Let_def)
  ultimately show ?thesis using a by (simp add: rt2_def free_entry_def)
qed

lemma fresh_dequeued:
  assumes "fresh_answers rt" "jobs_inv {} rt (j # q)"
  shows "fresh_answers (dequeued rt)"
proof -
  obtain e h where "list_del e (jr_heap rt) = Some h" "dequeued rt = rt\<lparr>jr_heap := h\<rparr>" using dequeued_ok [OF assms(2)] by blast
  then show ?thesis using assms(1) list_del_dom [of e "jr_heap rt" h] by (simp add: fresh_answers_def)
qed

section \<open>The interface of the job queue\<close>

text \<open>What a loop over the pending jobs relies on: \<open>queue st q\<close> relates a state of the runtime to the
  sequence of its pending jobs.\<close>

locale job_runner =
  fixes exec :: "'st \<Rightarrow> ('st \<times> 'c option \<times> int) option" and queue :: "'st \<Rightarrow> 'j list \<Rightarrow> bool"
  assumes exec_idle: "queue st [] \<Longrightarrow> exec st = Some (st, None, 0)"
    and exec_runs: "queue st (j # q) \<Longrightarrow>
      \<exists>st' c r acc. exec st = Some (st', Some c, r) \<and> (r = 1 \<or> r = -1) \<and> queue st' (q @ acc)"

definition job_queue :: "('c, 'f, 'v) jobs \<times> 's \<Rightarrow> ('c, 'f, 'v) JSJobEntry list \<Rightarrow> bool" where
  "job_queue st q \<longleftrightarrow> jobs_inv {} (fst st) q \<and> jr_refs (fst st) = queue_refs q"

interpretation js_jobs: job_runner "JS_ExecutePendingJob call" job_queue for call :: "('c, 'f, 'v, 's) job_call"
proof
  fix st :: "('c, 'f, 'v) jobs \<times> 's" and j :: "('c, 'f, 'v) JSJobEntry" and q :: "('c, 'f, 'v) JSJobEntry list"
  obtain rt s where st: "st = (rt, s)" by (cases st)
  show "JS_ExecutePendingJob call st = Some (st, None, 0)" if "job_queue st []"
    using that execute_empty [of rt call s] st by (simp add: job_queue_def)
  show "\<exists>st' c r acc. JS_ExecutePendingJob call st = Some (st', Some c, r) \<and> (r = 1 \<or> r = -1) \<and> job_queue st' (q @ acc)"
    if inv: "job_queue st (j # q)"
  proof -
    obtain s' js exc where c: "call (je_func j) (je_ctx j) (je_argv j) s = (s', js, exc)"
      by (cases "call (je_func j) (je_ctx j) (je_argv j) s") auto
    from inv st have i: "jobs_inv {} rt (j # q)" "jr_refs rt = queue_refs (j # q)" by (simp_all add: job_queue_def)
    show ?thesis using execute_first [where call = call, OF i(1) c] i(2) st
      by (cases exc) (auto simp: queue_refs_def job_queue_def elim!: okE)
  qed
qed

section \<open>Claims\<close>

text \<open>C11. The job queue is first in, first out, from any state of the queue, the empty one included.
  \<open>JS_EnqueueJob\<close> appends the job and returns 0 when its entry can be allocated, and otherwise returns -1
  and leaves queue and references as they were.  \<open>JS_IsJobPending\<close> tells whether the queue is empty.
  \<open>JS_ExecutePendingJob\<close> does nothing on an empty queue; otherwise it runs exactly the oldest job once and
  reports whether it threw, appends in order the jobs that it enqueued (all of them when memory is not short, and
  in any case those whose allocation succeeded), and frees its entry and its arguments.\<close>

theorem job_queue_fifo:
  assumes "jobs_inv {} rt q" "jr_refs rt = queue_refs q"
  shows "(\<exists>rt' r. JS_EnqueueJob k rt = Some (rt', r) \<and>
      (if granted rt then r = 0 \<and> jobs_inv {} rt' (q @ [k]) \<and> jr_refs rt' = queue_refs (q @ [k])
       else r = -1 \<and> jobs_inv {} rt' q \<and> jr_refs rt' = queue_refs q))
    \<and> JS_IsJobPending rt = Some (q \<noteq> [])
    \<and> (case q of
        [] \<Rightarrow> JS_ExecutePendingJob call (rt, s) = Some ((rt, s), None, 0)
      | j # q' \<Rightarrow> (case call (je_func j) (je_ctx j) (je_argv j) s of (s', js, exc) \<Rightarrow>
          \<exists>rt' acc. JS_ExecutePendingJob call (rt, s) = Some ((rt', s'), Some (je_ctx j), if exc then -1 else 1)
            \<and> jobs_inv {} rt' (q' @ acc) \<and> jr_refs rt' = queue_refs (q' @ acc)
            \<and> acc = accepted js (dequeued rt) \<and> subseq acc js \<and> (fresh_answers rt \<longrightarrow> acc = js)))"
proof (intro conjI)
  show "\<exists>rt' r. JS_EnqueueJob k rt = Some (rt', r) \<and>
      (if granted rt then r = 0 \<and> jobs_inv {} rt' (q @ [k]) \<and> jr_refs rt' = queue_refs (q @ [k])
       else r = -1 \<and> jobs_inv {} rt' q \<and> jr_refs rt' = queue_refs q)"
  proof (cases "granted rt")
    case True
    then show ?thesis using enqueue_granted [OF assms(1) True, of k] assms(2) by (auto simp: queue_refs_def elim!: okE)
  next
    case False
    then show ?thesis using enqueue_refused [OF False, of k] assms by (simp add: jobs_inv_def)
  qed
  obtain xs where "dlist (jr_heap rt) (jr_job_list rt) xs" "map (jr_entries rt) xs = map Some q"
    using assms(1) unfolding jobs_inv_def by blast
  then show "JS_IsJobPending rt = Some (q \<noteq> [])"
    using list_empty_ok [of "jr_heap rt" "jr_job_list rt" xs] by (auto simp: JS_IsJobPending_def)
  show "case q of
        [] \<Rightarrow> JS_ExecutePendingJob call (rt, s) = Some ((rt, s), None, 0)
      | j # q' \<Rightarrow> (case call (je_func j) (je_ctx j) (je_argv j) s of (s', js, exc) \<Rightarrow>
          \<exists>rt' acc. JS_ExecutePendingJob call (rt, s) = Some ((rt', s'), Some (je_ctx j), if exc then -1 else 1)
            \<and> jobs_inv {} rt' (q' @ acc) \<and> jr_refs rt' = queue_refs (q' @ acc)
            \<and> acc = accepted js (dequeued rt) \<and> subseq acc js \<and> (fresh_answers rt \<longrightarrow> acc = js))"
  proof (cases q)
    case Nil
    then show ?thesis using execute_empty [of rt call s] assms(1) by simp
  next
    case (Cons j q')
    obtain s' js exc where c: "call (je_func j) (je_ctx j) (je_argv j) s = (s', js, exc)"
      by (cases "call (je_func j) (je_ctx j) (je_argv j) s") auto
    have inv: "jobs_inv {} rt (j # q')" using assms(1) Cons by simp
    have "accepted js (dequeued rt) = js" if "fresh_answers rt"
      using accepted_all [OF fresh_dequeued [OF that inv]] dequeued_ok [OF inv] by blast
    then show ?thesis using execute_first [where call = call, OF inv c] assms(2) Cons c accepted_subseq [of js "dequeued rt"]
      by (auto simp: queue_refs_def elim!: okE)
  qed
qed

definition jobs_example :: "(nat, nat, nat) jobs" where
  "jobs_example = \<lparr>jr_heap = \<lparr>lh_prev = [1 \<mapsto> 2, 2 \<mapsto> 1], lh_next = [1 \<mapsto> 2, 2 \<mapsto> 1]\<rparr>, jr_job_list = 1,
     jr_entries = [2 \<mapsto> \<lparr>je_ctx = 0, je_func = 5, je_argv = [8, 9]\<rparr>], jr_answers = (\<lambda>n. Some (n + 3)), jr_calls = 0, jr_refs = 2\<rparr>"

text \<open>A job that enqueues another one.\<close>

theorem job_queue_fifo_witness:
  "\<exists>rt'. JS_ExecutePendingJob (\<lambda>f c a s. (s + f, [\<lparr>je_ctx = c, je_func = 6, je_argv = [7]\<rparr>], False)) (jobs_example, 10 :: nat) = Some ((rt', 15), Some 0, 1)
     \<and> jobs_inv {} rt' [\<lparr>je_ctx = 0, je_func = 6, je_argv = [7]\<rparr>] \<and> jr_refs rt' = 1"
proof -
  have "jobs_inv {} jobs_example [\<lparr>je_ctx = 0, je_func = 5, je_argv = [8, 9]\<rparr>]"
    unfolding jobs_inv_def by (rule exI [of _ "[2]"]) (auto simp: jobs_example_def dlist_def split: if_splits)
  moreover have "jr_refs jobs_example = queue_refs [\<lparr>je_ctx = 0, je_func = 5, je_argv = [8, 9]\<rparr>]"
    by (simp add: jobs_example_def queue_refs_def)
  moreover have "fresh_answers jobs_example" by (auto simp: fresh_answers_def jobs_example_def NULL_def)
  ultimately show ?thesis
    using job_queue_fifo [of jobs_example "[\<lparr>je_ctx = 0, je_func = 5, je_argv = [8, 9]\<rparr>]" undefined
        "\<lambda>f c a s. (s + f, [\<lparr>je_ctx = c, je_func = 6, je_argv = [7]\<rparr>], False)" 10] by (auto simp: queue_refs_def simp del: accepted.simps)
qed

end
