(* ===== verification/Bytes.thy ===== *)
theory Bytes
  imports Prelude
begin

text \<open>
  The inline helpers of \<open>src/native/quickjs/cutils.h\<close>: minima and maxima, bit scans with both
  compiler variants, unaligned little-endian access to byte arrays, byte swaps and hexadecimal
  digits.
\<close>

section \<open>Minimum and maximum\<close>

definition max_int :: "int \<Rightarrow> int \<Rightarrow> int" where
  "max_int a b = (if a > b then a else b)"

definition min_int :: "int \<Rightarrow> int \<Rightarrow> int" where
  "min_int a b = (if a < b then a else b)"

definition max_uint32 :: "u32 \<Rightarrow> u32 \<Rightarrow> u32" where
  "max_uint32 a b = (if a > b then a else b)"

definition min_uint32 :: "u32 \<Rightarrow> u32 \<Rightarrow> u32" where
  "min_uint32 a b = (if a < b then a else b)"

definition max_int64 :: "int \<Rightarrow> int \<Rightarrow> int" where
  "max_int64 a b = (if a > b then a else b)"

definition min_int64 :: "int \<Rightarrow> int \<Rightarrow> int" where
  "min_int64 a b = (if a < b then a else b)"

lemma max_int_eq [simp]: "max_int a b = max a b"
  by (auto simp: max_int_def)

lemma min_int_eq [simp]: "min_int a b = min a b"
  by (auto simp: min_int_def)

section \<open>Bit scans\<close>

text \<open>The compiler's own operations.  \<open>__builtin_clz\<close> and \<open>__builtin_ctz\<close> are undefined at zero;
  \<open>_BitScanReverse\<close> and \<open>_BitScanForward\<close> report it, here as \<^term>\<open>None\<close>.\<close>

definition bits_up :: "'a::len word \<Rightarrow> bool list" where
  "bits_up a = map (bit a) [0..<LENGTH('a)]"

definition builtin_clz :: "'a::len word \<Rightarrow> nat option" where
  "builtin_clz a = (if a = 0 then None else Some (length (takeWhile Not (rev (bits_up a)))))"

definition builtin_ctz :: "'a::len word \<Rightarrow> nat option" where
  "builtin_ctz a = (if a = 0 then None else Some (length (takeWhile Not (bits_up a))))"

definition bit_scan_reverse :: "'a::len word \<Rightarrow> nat option" where
  "bit_scan_reverse a = find (bit a) (rev [0..<LENGTH('a)])"

definition bit_scan_forward :: "'a::len word \<Rightarrow> nat option" where
  "bit_scan_forward a = find (bit a) [0..<LENGTH('a)]"

definition clz32 :: "u32 \<Rightarrow> int option" where
  "clz32 a = map_option int (builtin_clz a)"

definition clz64 :: "u64 \<Rightarrow> int option" where
  "clz64 a = map_option int (builtin_clz a)"

definition ctz32 :: "u32 \<Rightarrow> int option" where
  "ctz32 a = map_option int (builtin_ctz a)"

definition ctz64 :: "u64 \<Rightarrow> int option" where
  "ctz64 a = map_option int (builtin_ctz a)"

definition clz32_msvc :: "u32 \<Rightarrow> int" where
  "clz32_msvc a = (case bit_scan_reverse a of Some r \<Rightarrow> 31 - int r | None \<Rightarrow> 32)"

text \<open>The two branches of the preprocessor conditional: a 64-bit target has \<open>_BitScanReverse64\<close>.
  In the other branch \<open>r\<close> is read after a scan that is known to succeed.\<close>

definition clz64_msvc :: "bool \<Rightarrow> u64 \<Rightarrow> int option" where
  "clz64_msvc x64 a =
     (if x64 then Some (case bit_scan_reverse a of Some r \<Rightarrow> 63 - int r | None \<Rightarrow> 64)
      else if drop_bit 32 a \<noteq> 0 then
        map_option (\<lambda>r. 31 - int r) (bit_scan_reverse (ucast (drop_bit 32 a) :: u32))
      else Some (case bit_scan_reverse (ucast a :: u32) of Some r \<Rightarrow> 63 - int r | None \<Rightarrow> 64))"

definition ctz32_msvc :: "u32 \<Rightarrow> int" where
  "ctz32_msvc a = (case bit_scan_forward a of Some r \<Rightarrow> int r | None \<Rightarrow> 32)"

definition ctz64_msvc :: "bool \<Rightarrow> u64 \<Rightarrow> int option" where
  "ctz64_msvc x64 a =
     (if x64 then Some (case bit_scan_forward a of Some r \<Rightarrow> int r | None \<Rightarrow> 64)
      else if (ucast a :: u32) \<noteq> 0 then map_option int (bit_scan_forward (ucast a :: u32))
      else Some (case bit_scan_forward (ucast (drop_bit 32 a) :: u32) of Some r \<Rightarrow> 32 + int r | None \<Rightarrow> 64))"

section \<open>Unaligned access\<close>

text \<open>The packed structures read and write the little-endian bytes of their field.\<close>

definition le_bytes :: "nat \<Rightarrow> 'a::len word \<Rightarrow> u8 list" where
  "le_bytes k v = map (\<lambda>i. ucast (drop_bit (8 * i) v)) [0..<k]"

definition get_le :: "nat \<Rightarrow> u8 list \<Rightarrow> nat \<Rightarrow> 'a::len word option" where
  "get_le k tab off =
     (if off + k \<le> length tab then Some (word_of_nat (horner_sum unat 256 (take k (drop off tab)))) else None)"

definition get_u64 :: "u8 list \<Rightarrow> nat \<Rightarrow> u64 option" where
  "get_u64 tab off = get_le 8 tab off"

definition get_i64 :: "u8 list \<Rightarrow> nat \<Rightarrow> int option" where
  "get_i64 tab off = map_option sint (get_le 8 tab off :: u64 option)"

definition put_u64 :: "u8 list \<Rightarrow> nat \<Rightarrow> u64 \<Rightarrow> u8 list option" where
  "put_u64 tab off v = memcpy_at tab off (le_bytes 8 v)"

definition get_u32 :: "u8 list \<Rightarrow> nat \<Rightarrow> u32 option" where
  "get_u32 tab off = get_le 4 tab off"

definition get_i32 :: "u8 list \<Rightarrow> nat \<Rightarrow> int option" where
  "get_i32 tab off = map_option sint (get_le 4 tab off :: u32 option)"

definition put_u32 :: "u8 list \<Rightarrow> nat \<Rightarrow> u32 \<Rightarrow> u8 list option" where
  "put_u32 tab off v = memcpy_at tab off (le_bytes 4 v)"

definition get_u16 :: "u8 list \<Rightarrow> nat \<Rightarrow> u32 option" where
  "get_u16 tab off = map_option ucast (get_le 2 tab off :: u16 option)"

definition get_i16 :: "u8 list \<Rightarrow> nat \<Rightarrow> int option" where
  "get_i16 tab off = map_option sint (get_le 2 tab off :: u16 option)"

definition put_u16 :: "u8 list \<Rightarrow> nat \<Rightarrow> u16 \<Rightarrow> u8 list option" where
  "put_u16 tab off v = memcpy_at tab off (le_bytes 2 v)"

definition get_u8 :: "u8 list \<Rightarrow> nat \<Rightarrow> u32 option" where
  "get_u8 tab off = map_option ucast (rd tab off)"

definition get_i8 :: "u8 list \<Rightarrow> nat \<Rightarrow> int option" where
  "get_i8 tab off = map_option sint (rd tab off)"

definition put_u8 :: "u8 list \<Rightarrow> nat \<Rightarrow> u8 \<Rightarrow> u8 list option" where
  "put_u8 tab off v = wr tab off v"

section \<open>Byte swaps and digits\<close>

definition bswap16 :: "u16 \<Rightarrow> u16" where
  "bswap16 x = drop_bit 8 x OR push_bit 8 x"

definition bswap32 :: "u32 \<Rightarrow> u32" where
  "bswap32 v = drop_bit 24 (v AND 0xff000000) OR drop_bit 8 (v AND 0x00ff0000)
     OR push_bit 8 (v AND 0x0000ff00) OR push_bit 24 (v AND 0x000000ff)"

definition bswap64 :: "u64 \<Rightarrow> u64" where
  "bswap64 v = drop_bit (7 * 8) (v AND push_bit (7 * 8) 0xff) OR drop_bit (5 * 8) (v AND push_bit (6 * 8) 0xff)
     OR drop_bit (3 * 8) (v AND push_bit (5 * 8) 0xff) OR drop_bit (1 * 8) (v AND push_bit (4 * 8) 0xff)
     OR push_bit (1 * 8) (v AND push_bit (3 * 8) 0xff) OR push_bit (3 * 8) (v AND push_bit (2 * 8) 0xff)
     OR push_bit (5 * 8) (v AND push_bit (1 * 8) 0xff) OR push_bit (7 * 8) (v AND push_bit (0 * 8) 0xff)"

definition from_hex :: "int \<Rightarrow> int" where
  "from_hex c =
     (if c \<ge> 0x30 \<and> c \<le> 0x39 then c - 0x30
      else if c \<ge> 0x41 \<and> c \<le> 0x46 then c - 0x41 + 10
      else if c \<ge> 0x61 \<and> c \<le> 0x66 then c - 0x61 + 10
      else -1)"

section \<open>Scans find the extreme set bits\<close>

lemma find_takeWhile:
  "find P xs = (let k = length (takeWhile (\<lambda>x. \<not> P x) xs) in if k < length xs then Some (xs ! k) else None)"
  by (induction xs) (auto simp: Let_def)

lemma takeWhile_bits_up: "length (takeWhile Not (map f xs)) = length (takeWhile (\<lambda>x. \<not> f x) xs)"
  by (simp add: takeWhile_map o_def)

lemma nonzero_has_bit: "(a :: 'a::len word) \<noteq> 0 \<Longrightarrow> \<exists>i < LENGTH('a). bit a i"
  by (metis bit_imp_le_length bit_word_eqI bit_0_eq bot_apply bot_bool_def)

lemma scan_forward:
  assumes "(a :: 'a::len word) \<noteq> 0"
  shows "bit_scan_forward a = builtin_ctz a"
proof -
  let ?k = "length (takeWhile (\<lambda>i. \<not> bit a i) [0..<LENGTH('a)])"
  have "?k < LENGTH('a)"
    using nonzero_has_bit [OF assms] takeWhile_eq_all_conv [of "\<lambda>i. \<not> bit a i" "[0..<LENGTH('a)]"]
      length_takeWhile_le [of "\<lambda>i. \<not> bit a i" "[0..<LENGTH('a)]"]
    by (metis atLeastLessThan_iff atLeast_upt le_neq_implies_less length_upt minus_nat.diff_0 set_upt
        takeWhile_eq_take take_all_iff le_refl zero_le)
  then show ?thesis
    using assms unfolding bit_scan_forward_def builtin_ctz_def bits_up_def takeWhile_bits_up
    by (simp add: find_takeWhile Let_def)
qed

lemma scan_reverse:
  assumes "(a :: 'a::len word) \<noteq> 0"
  shows "\<exists>k < LENGTH('a). builtin_clz a = Some k \<and> bit_scan_reverse a = Some (LENGTH('a) - 1 - k)"
proof -
  let ?xs = "rev [0..<LENGTH('a)]"
  let ?k = "length (takeWhile (\<lambda>i. \<not> bit a i) ?xs)"
  have k: "?k < LENGTH('a)"
    using nonzero_has_bit [OF assms] takeWhile_eq_all_conv [of "\<lambda>i. \<not> bit a i" ?xs]
      length_takeWhile_le [of "\<lambda>i. \<not> bit a i" ?xs]
    by (metis atLeastLessThan_iff le_neq_implies_less length_rev length_upt minus_nat.diff_0 set_rev set_upt
        takeWhile_eq_take take_all_iff le_refl zero_le)
  then have "builtin_clz a = Some ?k" "bit_scan_reverse a = Some (LENGTH('a) - 1 - ?k)"
    using assms unfolding bit_scan_reverse_def builtin_clz_def bits_up_def rev_map takeWhile_bits_up
    by (auto simp: find_takeWhile Let_def rev_nth)
  then show ?thesis using k by blast
qed

lemma scan_reverse_iff:
  "bit_scan_reverse (a :: 'a::len word) = Some r \<longleftrightarrow> bit a r \<and> (\<forall>j > r. \<not> bit a j)"
proof
  assume "bit_scan_reverse a = Some r"
  then obtain i where i: "i < LENGTH('a)" "r = LENGTH('a) - Suc i" "bit a r"
    "\<forall>j < i. \<not> bit a (LENGTH('a) - Suc j)"
    unfolding bit_scan_reverse_def find_Some_iff by (auto simp: rev_nth)
  have "\<not> bit a j" if "j > r" for j
  proof (cases "j < LENGTH('a)")
    case True
    then show ?thesis using i(4) [rule_format, of "LENGTH('a) - Suc j"] that i(1,2) by auto
  qed (auto dest: bit_imp_le_length)
  with i(3) show "bit a r \<and> (\<forall>j > r. \<not> bit a j)" by simp
next
  assume r: "bit a r \<and> (\<forall>j > r. \<not> bit a j)"
  then have "r < LENGTH('a)" by (auto dest: bit_imp_le_length)
  then show "bit_scan_reverse a = Some r"
    unfolding bit_scan_reverse_def find_Some_iff using r
    by (intro exI [of _ "LENGTH('a) - Suc r"]) (auto simp: rev_nth)
qed

lemma scan_forward_iff:
  "bit_scan_forward (a :: 'a::len word) = Some r \<longleftrightarrow> bit a r \<and> (\<forall>j < r. \<not> bit a j)"
proof
  assume r: "bit a r \<and> (\<forall>j < r. \<not> bit a j)"
  then have "r < LENGTH('a)" by (auto dest: bit_imp_le_length)
  then show "bit_scan_forward a = Some r"
    unfolding bit_scan_forward_def find_Some_iff using r by (intro exI [of _ r]) auto
qed (auto simp: bit_scan_forward_def find_Some_iff)

lemma scan_reverse_halves:
  fixes a :: u64
  shows "drop_bit 32 a \<noteq> 0 \<Longrightarrow> bit_scan_reverse (ucast (drop_bit 32 a) :: u32) = Some r \<Longrightarrow>
      bit_scan_reverse a = Some (32 + r)"
    and "drop_bit 32 a = 0 \<Longrightarrow> bit_scan_reverse (ucast a :: u32) = Some r \<Longrightarrow> bit_scan_reverse a = Some r"
proof -
  show "bit_scan_reverse a = Some (32 + r)" if "bit_scan_reverse (ucast (drop_bit 32 a) :: u32) = Some r"
  proof -
    have b: "bit a (32 + r)" and n: "\<And>j. r < j \<Longrightarrow> j < 32 \<Longrightarrow> \<not> bit a (32 + j)"
      using that unfolding scan_reverse_iff by (auto simp: bit_simps)
    have "\<not> bit a j" if "32 + r < j" for j
      using n [of "j - 32"] that bit_imp_le_length [of a j] by (cases "j < 64") auto
    with b show ?thesis unfolding scan_reverse_iff by simp
  qed
  show "bit_scan_reverse a = Some r" if "drop_bit 32 a = 0" "bit_scan_reverse (ucast a :: u32) = Some r"
  proof -
    have z: "\<not> bit a (32 + j)" for j using arg_cong [OF that(1), of "\<lambda>w. bit w j"] by (simp add: bit_simps)
    have "\<not> bit a j" if "32 \<le> j" for j using z [of "j - 32"] that by simp
    then show ?thesis using that(2) unfolding scan_reverse_iff by (auto simp: bit_simps)
  qed
qed

lemma scan_forward_halves:
  fixes a :: u64
  shows "bit_scan_forward (ucast a :: u32) = Some r \<Longrightarrow> bit_scan_forward a = Some r"
    and "(ucast a :: u32) = 0 \<Longrightarrow> bit_scan_forward (ucast (drop_bit 32 a) :: u32) = Some r \<Longrightarrow>
      bit_scan_forward a = Some (32 + r)"
proof -
  show "bit_scan_forward a = Some r" if "bit_scan_forward (ucast a :: u32) = Some r"
    using that unfolding scan_forward_iff by (auto simp: bit_simps)
  show "bit_scan_forward a = Some (32 + r)"
    if "(ucast a :: u32) = 0" "bit_scan_forward (ucast (drop_bit 32 a) :: u32) = Some r"
  proof -
    have z: "\<not> bit a j" if "j < 32" for j
      using arg_cong [OF \<open>ucast a = 0\<close>, of "\<lambda>w. bit w j"] that by (simp add: bit_simps)
    have b: "bit a (32 + r)" "r < 32" and n: "\<And>j. j < r \<Longrightarrow> \<not> bit a (32 + j)"
      using that(2) unfolding scan_forward_iff by (auto simp: bit_simps)
    have "\<not> bit a j" if "j < 32 + r" for j
      using z [of j] n [of "j - 32"] that by (cases "j < 32") auto
    with b show ?thesis unfolding scan_forward_iff by simp
  qed
qed

lemma clz_scan: "(a :: 'a::len word) \<noteq> 0 \<Longrightarrow> bit_scan_reverse a = Some r \<Longrightarrow>
    builtin_clz a = Some (LENGTH('a) - 1 - r) \<and> r < LENGTH('a)"
  using scan_reverse [of a] by auto

lemma nonzero_halves: "(a :: u64) \<noteq> 0 \<Longrightarrow> drop_bit 32 a = 0 \<Longrightarrow> (ucast a :: u32) \<noteq> 0"
  "(a :: u64) \<noteq> 0 \<Longrightarrow> (ucast a :: u32) = 0 \<Longrightarrow> (ucast (drop_bit 32 a) :: u32) \<noteq> 0"
  "drop_bit 32 (a :: u64) \<noteq> 0 \<Longrightarrow> (ucast (drop_bit 32 a) :: u32) \<noteq> 0"
proof -
  have low: "bit a j" if "j < 32" "bit (ucast a :: u32) j" for j using that by (simp add: bit_simps)
  have split: "bit a j \<longleftrightarrow> (if j < 32 then bit (ucast a :: u32) j else bit (ucast (drop_bit 32 a) :: u32) (j - 32))" for j
    using bit_imp_le_length [of a j] by (auto simp: bit_simps)
  have hi: "bit (drop_bit 32 a) j \<longleftrightarrow> bit (ucast (drop_bit 32 a) :: u32) j" for j
    using bit_imp_le_length [of a "32 + j"] by (auto simp: bit_simps)
  show "drop_bit 32 a \<noteq> 0 \<Longrightarrow> (ucast (drop_bit 32 a) :: u32) \<noteq> 0"
    using hi by (metis bit_0_eq bit_word_eqI bot_apply bot_bool_def)
  have "a = 0" if "(ucast a :: u32) = 0" "(ucast (drop_bit 32 a) :: u32) = 0"
    using split that by (intro bit_word_eqI) simp
  then show "a \<noteq> 0 \<Longrightarrow> drop_bit 32 a = 0 \<Longrightarrow> (ucast a :: u32) \<noteq> 0"
    "a \<noteq> 0 \<Longrightarrow> (ucast a :: u32) = 0 \<Longrightarrow> (ucast (drop_bit 32 a) :: u32) \<noteq> 0" by auto
qed

section \<open>Bytes of a word\<close>

lemma length_le_bytes [simp]: "length (le_bytes k v) = k"
  by (simp add: le_bytes_def)

lemma le_bytes_value: "horner_sum unat 256 (le_bytes k v) = unat v mod 256 ^ k"
proof (induction k)
  case (Suc k)
  have b: "unat (ucast (drop_bit (8 * k) v) :: u8) = unat v div 256 ^ k mod 256"
    by (simp add: word_nat power_mult)
  have "horner_sum unat 256 (le_bytes (Suc k) v) =
      horner_sum unat 256 (le_bytes k v) + 256 ^ k * (unat v div 256 ^ k mod 256)"
    by (simp add: le_bytes_def horner_sum_append b)
  also have "\<dots> = unat v mod (256 ^ k * 256)" by (simp add: Suc mod_mult2_eq)
  finally show ?case by (simp add: mult.commute)
qed (simp add: le_bytes_def)

lemma get_put_le:
  assumes "memcpy_at tab off (le_bytes k v) = Some tab'" "LENGTH('a) = 8 * k"
  shows "get_le k tab' off = Some (v :: 'a::len word)"
proof -
  have t: "off + k \<le> length tab" "tab' = take off tab @ le_bytes k v @ drop (off + k) tab"
    using assms(1) by (auto simp: memcpy_at_def split: if_splits)
  have "unat v < 256 ^ k" using unsigned_less [of v] by (simp add: assms(2) power_mult)
  then show ?thesis using t by (simp add: get_le_def le_bytes_value)
qed

lemma byte_mask: "(0xff :: u64) = mask 8" "(0xff :: u32) = mask 8"
  "(0xff000000 :: u32) = push_bit 24 (mask 8)" "(0x00ff0000 :: u32) = push_bit 16 (mask 8)"
  "(0x0000ff00 :: u32) = push_bit 8 (mask 8)"
  by (simp_all add: mask_eq_exp_minus_1 push_bit_eq_mult)

lemma half_mask: "(0xffff :: u32) = mask 16"
  by (simp add: mask_eq_exp_minus_1)

definition unchanged_outside :: "nat \<Rightarrow> nat \<Rightarrow> u8 list \<Rightarrow> u8 list \<Rightarrow> bool" where
  "unchanged_outside off k tab t \<longleftrightarrow> length t = length tab \<and> (\<forall>i < length tab. i < off \<or> off + k \<le> i \<longrightarrow> t ! i = tab ! i)"

lemma le_bytes_part: "i + j \<le> k \<Longrightarrow> take j (drop i (le_bytes k v)) = le_bytes j (drop_bit (8 * i) v)"
  by (rule nth_equalityI) (auto simp: le_bytes_def drop_map take_map algebra_simps)

text \<open>A narrower read inside the stored bytes.\<close>

lemma get_put_le_part:
  assumes "memcpy_at tab off (le_bytes k v) = Some tab'" "LENGTH('b) = 8 * j" "i + j \<le> k"
  shows "get_le j tab' (off + i) = Some (ucast (drop_bit (8 * i) (v :: 'a::len word)) :: 'b::len word)"
proof -
  have t: "off + k \<le> length tab" "tab' = take off tab @ le_bytes k v @ drop (off + k) tab"
    using assms(1) by (auto simp: memcpy_at_def split: if_splits)
  have "take j (drop (off + i) tab') = take j (drop i (le_bytes k v))" using t assms(3) by simp
  also have "\<dots> = le_bytes j (drop_bit (8 * i) v)" by (rule le_bytes_part [OF assms(3)])
  finally have "horner_sum unat 256 (take j (drop (off + i) tab')) = unat (drop_bit (8 * i) v) mod 2 ^ LENGTH('b)"
    by (simp add: le_bytes_value assms(2) power_mult)
  then have "word_of_nat (horner_sum unat 256 (take j (drop (off + i) tab'))) = (ucast (drop_bit (8 * i) v) :: 'b word)"
    unfolding word_unat_eq_iff by (simp add: unat_of_nat word_nat)
  then show ?thesis using t assms(3) by (simp add: get_le_def)
qed

lemma memcpy_cases:
  "memcpy_at tab off bs = None \<Longrightarrow> length tab < off + length bs"
  "memcpy_at tab off bs = Some t \<Longrightarrow> off + length bs \<le> length tab \<and> unchanged_outside off (length bs) tab t"
  by (auto simp: memcpy_at_def unchanged_outside_def nth_append split: if_splits)

lemma rd_get_le: "rd tab i = (get_le 1 tab i :: u8 option)"
  by (auto simp: rd_def get_le_def take_Suc hd_drop_conv_nth)

lemma put_u16_read:
  "case put_u16 tab off v of
      None \<Rightarrow> length tab < off + 2
    | Some t \<Rightarrow> off + 2 \<le> length tab \<and> unchanged_outside off 2 tab t \<and> get_u16 t off = Some (ucast v) \<and> get_i16 t off = Some (sint v)
        \<and> get_u8 t off = Some (ucast v AND 0xff) \<and> get_u8 t (off + 1) = Some (drop_bit 8 (ucast v))"
proof (cases "put_u16 tab off v")
  case None
  then show ?thesis using memcpy_cases(1) [of tab off "le_bytes 2 v"] by (simp add: put_u16_def)
next
  case (Some t)
  then have m: "memcpy_at tab off (le_bytes 2 v) = Some t" by (simp add: put_u16_def)
  have "get_le 2 t off = Some v" using get_put_le [OF m] by simp
  moreover have "rd t off = Some (ucast v :: u8)" "rd t (off + 1) = Some (ucast (drop_bit 8 v) :: u8)"
    using get_put_le_part [OF m, where 'b = 8 and j = 1 and i = 0] get_put_le_part [OF m, where 'b = 8 and j = 1 and i = 1]
    by (simp_all add: rd_get_le)
  moreover have "ucast (ucast v :: u8) = (ucast v AND 0xff :: u32)" "ucast (ucast (drop_bit 8 v) :: u8) = drop_bit 8 (ucast v :: u32)"
    by (rule bit_word_eqI; auto simp: bit_simps byte_mask dest: bit_imp_le_length)+
  ultimately show ?thesis using memcpy_cases(2) [OF m] Some by (simp add: get_u16_def get_i16_def get_u8_def)
qed

lemma put_u32_read:
  "case put_u32 tab off w of
      None \<Rightarrow> length tab < off + 4
    | Some t \<Rightarrow> off + 4 \<le> length tab \<and> unchanged_outside off 4 tab t \<and> get_u32 t off = Some w \<and> get_i32 t off = Some (sint w)
        \<and> get_u16 t off = Some (w AND 0xffff) \<and> get_u16 t (off + 2) = Some (drop_bit 16 w)"
proof (cases "put_u32 tab off w")
  case None
  then show ?thesis using memcpy_cases(1) [of tab off "le_bytes 4 w"] by (simp add: put_u32_def)
next
  case (Some t)
  then have m: "memcpy_at tab off (le_bytes 4 w) = Some t" by (simp add: put_u32_def)
  have "get_le 4 t off = Some w" using get_put_le [OF m] by simp
  moreover have "get_le 2 t off = Some (ucast w :: u16)" "get_le 2 t (off + 2) = Some (ucast (drop_bit 16 w) :: u16)"
    using get_put_le_part [OF m, where 'b = 16 and j = 2 and i = 0] get_put_le_part [OF m, where 'b = 16 and j = 2 and i = 2]
    by simp_all
  moreover have "ucast (ucast w :: u16) = w AND 0xffff" "ucast (ucast (drop_bit 16 w) :: u16) = drop_bit 16 w"
    by (rule bit_word_eqI; auto simp: bit_simps half_mask dest: bit_imp_le_length)+
  ultimately show ?thesis using memcpy_cases(2) [OF m] Some by (simp add: get_u32_def get_i32_def get_u16_def)
qed

lemma put_u64_read:
  "case put_u64 tab off x of
      None \<Rightarrow> length tab < off + 8
    | Some t \<Rightarrow> off + 8 \<le> length tab \<and> unchanged_outside off 8 tab t \<and> get_u64 t off = Some x \<and> get_i64 t off = Some (sint x)
        \<and> get_u32 t off = Some (ucast x) \<and> get_u32 t (off + 4) = Some (ucast (drop_bit 32 x))"
proof (cases "put_u64 tab off x")
  case None
  then show ?thesis using memcpy_cases(1) [of tab off "le_bytes 8 x"] by (simp add: put_u64_def)
next
  case (Some t)
  then have m: "memcpy_at tab off (le_bytes 8 x) = Some t" by (simp add: put_u64_def)
  have "get_le 8 t off = Some x" using get_put_le [OF m] by simp
  moreover have "get_le 4 t off = Some (ucast x :: u32)" "get_le 4 t (off + 4) = Some (ucast (drop_bit 32 x) :: u32)"
    using get_put_le_part [OF m, where 'b = 32 and j = 4 and i = 0] get_put_le_part [OF m, where 'b = 32 and j = 4 and i = 4]
    by simp_all
  ultimately show ?thesis using memcpy_cases(2) [OF m] Some by (simp add: get_u64_def get_i64_def get_u32_def)
qed

section \<open>Claims\<close>

text \<open>C25. A store of 16, 32 or 64 bits succeeds exactly when its bytes lie inside the array.  Then the
  reads of the same width, unsigned and signed, return the stored value, the narrower reads return its
  parts in little-endian order, and no other byte of the array changes.\<close>

theorem put_get_roundtrip:
  "(case put_u16 tab off v of
      None \<Rightarrow> length tab < off + 2
    | Some t \<Rightarrow> off + 2 \<le> length tab \<and> unchanged_outside off 2 tab t \<and> get_u16 t off = Some (ucast v) \<and> get_i16 t off = Some (sint v)
        \<and> get_u8 t off = Some (ucast v AND 0xff) \<and> get_u8 t (off + 1) = Some (drop_bit 8 (ucast v)))
   \<and> (case put_u32 tab off w of
      None \<Rightarrow> length tab < off + 4
    | Some t \<Rightarrow> off + 4 \<le> length tab \<and> unchanged_outside off 4 tab t \<and> get_u32 t off = Some w \<and> get_i32 t off = Some (sint w)
        \<and> get_u16 t off = Some (w AND 0xffff) \<and> get_u16 t (off + 2) = Some (drop_bit 16 w))
   \<and> (case put_u64 tab off x of
      None \<Rightarrow> length tab < off + 8
    | Some t \<Rightarrow> off + 8 \<le> length tab \<and> unchanged_outside off 8 tab t \<and> get_u64 t off = Some x \<and> get_i64 t off = Some (sint x)
        \<and> get_u32 t off = Some (ucast x) \<and> get_u32 t (off + 4) = Some (ucast (drop_bit 32 x)))"
  by (intro conjI put_u16_read put_u32_read put_u64_read)

text \<open>C26. The byte swaps reverse the bytes of their argument.\<close>

theorem bswap_reverses_bytes:
  "le_bytes 2 (bswap16 x) = rev (le_bytes 2 x) \<and> le_bytes 4 (bswap32 y) = rev (le_bytes 4 y)
   \<and> le_bytes 8 (bswap64 z) = rev (le_bytes 8 z)"
proof (intro conjI)
  show "le_bytes 2 (bswap16 x) = rev (le_bytes 2 x)"
    by (auto simp: le_bytes_def bswap16_def upt_rec intro!: bit_word_eqI) (auto simp: bit_simps)
  show "le_bytes 4 (bswap32 y) = rev (le_bytes 4 y)"
    unfolding bswap32_def byte_mask
    by (auto simp: le_bytes_def upt_rec intro!: bit_word_eqI) (auto simp: bit_simps)
  show "le_bytes 8 (bswap64 z) = rev (le_bytes 8 z)"
    unfolding bswap64_def byte_mask
    by (auto simp: le_bytes_def upt_rec intro!: bit_word_eqI) (auto simp: bit_simps)
qed

text \<open>C24. The scans written for one compiler give the results of the other compiler's builtins for
  every argument but zero, on 64-bit and on 32-bit targets.\<close>

theorem bit_scan_variants_agree:
  assumes "a \<noteq> 0" "b \<noteq> 0"
  shows "clz32 a = Some (clz32_msvc a) \<and> ctz32 a = Some (ctz32_msvc a)
    \<and> clz64 b = clz64_msvc x64 b \<and> ctz64 b = ctz64_msvc x64 b"
proof (intro conjI)
  show "clz32 a = Some (clz32_msvc a)"
    using scan_reverse [OF assms(1)] by (auto simp: clz32_def clz32_msvc_def)
  show "ctz32 a = Some (ctz32_msvc a)"
    using assms(1) by (simp add: ctz32_def ctz32_msvc_def scan_forward builtin_ctz_def)
  obtain r where r: "bit_scan_reverse b = Some r" using scan_reverse [OF assms(2)] by auto
  have c: "clz64 b = Some (63 - int r)" using clz_scan [OF assms(2) r] by (simp add: clz64_def)
  show "clz64 b = clz64_msvc x64 b"
  proof (cases "drop_bit 32 b = 0")
    case True
    obtain q where q: "bit_scan_reverse (ucast b :: u32) = Some q"
      using scan_reverse [OF nonzero_halves(1) [OF assms(2) True]] by auto
    then show ?thesis using scan_reverse_halves(2) [OF True q] r c True by (simp add: clz64_msvc_def)
  next
    case False
    obtain q where q: "bit_scan_reverse (ucast (drop_bit 32 b) :: u32) = Some q"
      using scan_reverse [OF nonzero_halves(3) [OF False]] by auto
    then show ?thesis using scan_reverse_halves(1) [OF False q] r c False by (simp add: clz64_msvc_def)
  qed
  obtain f where f: "bit_scan_forward b = Some f" using scan_forward [OF assms(2)] assms(2) by (auto simp: builtin_ctz_def)
  have t: "ctz64 b = Some (int f)" using scan_forward [OF assms(2)] f by (simp add: ctz64_def)
  show "ctz64 b = ctz64_msvc x64 b"
  proof (cases "(ucast b :: u32) = 0")
    case True
    obtain q where q: "bit_scan_forward (ucast (drop_bit 32 b) :: u32) = Some q"
      using scan_forward [OF nonzero_halves(2) [OF assms(2) True]] nonzero_halves(2) [OF assms(2) True]
      by (auto simp: builtin_ctz_def)
    then show ?thesis using scan_forward_halves(2) [OF True q] f t True by (simp add: ctz64_msvc_def)
  next
    case False
    obtain q where q: "bit_scan_forward (ucast b :: u32) = Some q"
      using scan_forward [OF False] False by (auto simp: builtin_ctz_def)
    then show ?thesis using scan_forward_halves(1) [OF q] f t False by (simp add: ctz64_msvc_def)
  qed
qed

theorem bit_scan_variants_agree_witness:
  "clz32 1 = Some (clz32_msvc 1) \<and> ctz64 (2 ^ 40) = ctz64_msvc False (2 ^ 40)"
  using bit_scan_variants_agree [of 1 "2 ^ 40" False] by simp

end
