(* ===== verification/Bridge.thy ===== *)
theory Bridge
  imports Registration Jobs Bytes "HOL-Library.State_Monad"
begin

text \<open>
  The operations of \<open>src/native/quickjs_bridge.c\<close>: the dispatchers that scripts call, registration,
  evaluation, global variables, sleeping, and the loops over pending jobs.

  The functions of the engine and the host callbacks are the fields of the record \<open>engine\<close>; all of them act
  on the whole world outside the bridge, its tables included: a script that runs during a conversion to JSON may
  call host functions, and a callback may evaluate scripts or register functions.  Callbacks are pointers \<open>'k\<close>
  and \<open>'b\<close> whose code is in the record.  Operations are state monads over the record \<open>bridge\<close>, which counts the
  references to values, the C strings of the engine and the heap strings that the bridge holds, so that ownership on
  every path is visible, and logs the calls of callbacks that the operation itself makes.
\<close>

section \<open>State and engine\<close>

datatype 'v jsval = Exception | Undefined | Val 'v

record ('x, 'k, 'b) world =
  wd_fns :: "'k fn_table"
  wd_bytes_fns :: "'b fn_table"
  wd_rest :: 'x

record ('w, 'v, 'k, 'b) engine =
  e_new_object :: "'w \<Rightarrow> 'v jsval \<times> 'w"
  e_new_array :: "'w \<Rightarrow> 'v jsval \<times> 'w"
  e_set_index :: "'v jsval \<Rightarrow> nat \<Rightarrow> 'v jsval \<Rightarrow> 'w \<Rightarrow> int \<times> 'w"
  e_stringify :: "'v jsval \<Rightarrow> 'w \<Rightarrow> 'v jsval \<times> 'w"
  e_to_cstring :: "'v jsval \<Rightarrow> 'w \<Rightarrow> string option \<times> 'w"
  e_parse :: "string \<Rightarrow> 'w \<Rightarrow> 'v jsval \<times> 'w"
  e_throw :: "string \<Rightarrow> 'w \<Rightarrow> 'w"
  e_new_cfunction :: "string \<Rightarrow> int \<Rightarrow> 'w \<Rightarrow> 'v jsval \<times> 'w"
  e_global :: "'w \<Rightarrow> 'v jsval \<times> 'w"
  e_set_prop :: "'v jsval \<Rightarrow> string \<Rightarrow> 'v jsval \<Rightarrow> 'w \<Rightarrow> int \<times> 'w"
  e_eval :: "string \<Rightarrow> string \<Rightarrow> 'w \<Rightarrow> 'v jsval \<times> 'w"
  e_exception :: "'w \<Rightarrow> 'v jsval \<times> 'w"
  e_free :: "'v jsval \<Rightarrow> 'w \<Rightarrow> 'w"
  e_strdup :: "string \<Rightarrow> 'w \<Rightarrow> string option \<times> 'w"
  e_update_stack_top :: "'w \<Rightarrow> 'w"
  e_is_string :: "'v jsval \<Rightarrow> bool"
  e_typed_buffer :: "'v jsval \<Rightarrow> 'w \<Rightarrow> ('v jsval \<times> 64 word \<times> 64 word) \<times> 'w"
  e_array_buffer :: "'v jsval \<Rightarrow> 'w \<Rightarrow> 8 word list option \<times> 'w"
  e_host_call :: "'k \<Rightarrow> string \<Rightarrow> 'w \<Rightarrow> string option \<times> 'w"
  e_bytes_call :: "'b \<Rightarrow> string \<Rightarrow> 8 word list \<Rightarrow> 'w \<Rightarrow> 'w"

record ('x, 'k, 'b) bridge =
  br_world :: "('x, 'k, 'b) world"
  br_vals :: int
  br_strs :: int
  br_mem :: int
  br_stderr :: "string list"
  br_calls :: "('k \<times> string) list"
  br_bytes_calls :: "('b \<times> string \<times> 8 word list) list"

type_synonym ('x, 'k, 'b, 'a) bridge_op = "(('x, 'k, 'b) bridge, 'a) state"
type_synonym ('x, 'v, 'k, 'b) env = "(('x, 'k, 'b) world, 'v, 'k, 'b) engine"

text \<open>Calls of the engine; a value that holds a reference is counted when it is received and when it
  is given away.\<close>

fun refs :: "'v jsval \<Rightarrow> int" where
  "refs (Val _) = 1"
| "refs _ = 0"

definition eng :: "(('x, 'k, 'b) world \<Rightarrow> 'a \<times> ('x, 'k, 'b) world) \<Rightarrow> ('x, 'k, 'b, 'a) bridge_op" where
  "eng f = State (\<lambda>s. let (r, w) = f (br_world s) in (r, s\<lparr>br_world := w\<rparr>))"

definition count_vals :: "int \<Rightarrow> ('x, 'k, 'b, unit) bridge_op" where
  "count_vals n = State (\<lambda>s. ((), s\<lparr>br_vals := br_vals s + n\<rparr>))"

definition count_strs :: "int \<Rightarrow> ('x, 'k, 'b, unit) bridge_op" where
  "count_strs n = State (\<lambda>s. ((), s\<lparr>br_strs := br_strs s + n\<rparr>))"

definition count_mem :: "int \<Rightarrow> ('x, 'k, 'b, unit) bridge_op" where
  "count_mem n = State (\<lambda>s. ((), s\<lparr>br_mem := br_mem s + n\<rparr>))"

definition new_value :: "(('x, 'k, 'b) world \<Rightarrow> 'v jsval \<times> ('x, 'k, 'b) world) \<Rightarrow> ('x, 'k, 'b, 'v jsval) bridge_op" where
  "new_value f = do { r \<leftarrow> eng f; _ \<leftarrow> count_vals (refs r); State_Monad.return r }"

definition give_value :: "'v jsval \<Rightarrow> (('x, 'k, 'b) world \<Rightarrow> 'a \<times> ('x, 'k, 'b) world) \<Rightarrow> ('x, 'k, 'b, 'a) bridge_op" where
  "give_value v f = do { r \<leftarrow> eng f; _ \<leftarrow> count_vals (- refs v); State_Monad.return r }"

definition JS_FreeValue :: "('x, 'v, 'k, 'b) env \<Rightarrow> 'v jsval \<Rightarrow> ('x, 'k, 'b, unit) bridge_op" where
  "JS_FreeValue E v = give_value v (\<lambda>c. ((), e_free E v c))"

definition JS_ToCString :: "('x, 'v, 'k, 'b) env \<Rightarrow> 'v jsval \<Rightarrow> ('x, 'k, 'b, string option) bridge_op" where
  "JS_ToCString E v = do {
     r \<leftarrow> eng (e_to_cstring E v);
     _ \<leftarrow> count_strs (if r = None then 0 else 1);
     State_Monad.return r }"

definition JS_FreeCString :: "('x, 'k, 'b, unit) bridge_op" where
  "JS_FreeCString = count_strs (- 1)"

definition strdup :: "('x, 'v, 'k, 'b) env \<Rightarrow> string \<Rightarrow> ('x, 'k, 'b, string option) bridge_op" where
  "strdup E str = do {
     r \<leftarrow> eng (e_strdup E str);
     _ \<leftarrow> count_mem (if r = None then 0 else 1);
     State_Monad.return r }"

definition JS_ThrowTypeError :: "('x, 'v, 'k, 'b) env \<Rightarrow> string \<Rightarrow> ('x, 'k, 'b, 'v jsval) bridge_op" where
  "JS_ThrowTypeError E msg = do { _ \<leftarrow> eng (\<lambda>c. ((), e_throw E msg c)); State_Monad.return Exception }"

section \<open>Dispatch\<close>

text \<open>\<open>valid_index\<close> is \<open>!(magic < 0 || magic >= count || !callbacks[magic])\<close>.\<close>

definition valid_index :: "'cb fn_table \<Rightarrow> int \<Rightarrow> 'cb option" where
  "valid_index t magic = (if magic < 0 \<or> magic \<ge> g_callback_count t then None else g_callbacks t magic)"

fun set_elements :: "('x, 'v, 'k, 'b) env \<Rightarrow> 'v jsval \<Rightarrow> nat \<Rightarrow> 'v jsval list \<Rightarrow> ('x, 'k, 'b, unit) bridge_op" where
  "set_elements E arr i [] = State_Monad.return ()"
| "set_elements E arr i (v # vs) = do {
     _ \<leftarrow> count_vals (refs v);
     _ \<leftarrow> give_value v (e_set_index E arr i v);
     set_elements E arr (Suc i) vs }"

definition marshal_args :: "('x, 'v, 'k, 'b) env \<Rightarrow> 'v jsval list \<Rightarrow> ('x, 'k, 'b, 'v jsval) bridge_op" where
  "marshal_args E argv = (case argv of
       [] \<Rightarrow> new_value (e_new_object E)
     | [v] \<Rightarrow> new_value (e_stringify E v)
     | _ \<Rightarrow> do {
         arr \<leftarrow> new_value (e_new_array E);
         _ \<leftarrow> set_elements E arr 0 argv;
         json_val \<leftarrow> new_value (e_stringify E arr);
         _ \<leftarrow> JS_FreeValue E arr;
         State_Monad.return json_val })"

text \<open>The bridge reads the pointer once more when it calls; an entry of the table never changes after its
  registration.\<close>

definition host_call :: "('x, 'v, 'k, 'b) env \<Rightarrow> 'k \<Rightarrow> string \<Rightarrow> ('x, 'k, 'b, string option) bridge_op" where
  "host_call E cb args = do {
     r \<leftarrow> eng (e_host_call E cb args);
     _ \<leftarrow> State (\<lambda>s. ((), s\<lparr>br_calls := br_calls s @ [(cb, args)]\<rparr>));
     _ \<leftarrow> count_mem (if r = None then 0 else 1);
     State_Monad.return r }"

definition qjs_dispatch :: "('x, 'v, 'k, 'b) env \<Rightarrow> 'v jsval list \<Rightarrow> int \<Rightarrow> ('x, 'k, 'b, 'v jsval) bridge_op" where
  "qjs_dispatch E argv magic = do {
     s \<leftarrow> State_Monad.get;
     case valid_index (wd_fns (br_world s)) magic of
       None \<Rightarrow> JS_ThrowTypeError E ''invalid host callback index''
     | Some cb \<Rightarrow> do {
         json_val \<leftarrow> marshal_args E argv;
         if json_val = Exception then do {
           _ \<leftarrow> JS_FreeValue E json_val;
           JS_ThrowTypeError E ''failed to marshal args to JSON'' }
         else do {
           args_json \<leftarrow> JS_ToCString E json_val;
           _ \<leftarrow> JS_FreeValue E json_val;
           case args_json of
             None \<Rightarrow> JS_ThrowTypeError E ''failed to convert JSON to string''
           | Some args \<Rightarrow> do {
               result_json \<leftarrow> host_call E cb args;
               _ \<leftarrow> JS_FreeCString;
               case result_json of
                 None \<Rightarrow> State_Monad.return Undefined
               | Some js \<Rightarrow> do {
                   result \<leftarrow> new_value (e_parse E js);
                   _ \<leftarrow> count_mem (- 1);
                   if result = Exception then do {
                     _ \<leftarrow> JS_FreeValue E result;
                     JS_ThrowTypeError E ''host callback returned invalid JSON'' }
                   else State_Monad.return result } } } } }"

section \<open>Registration\<close>

text \<open>\<open>bind_function\<close> is the common end of both registrations: create the function with the index as its
  magic number and set it as a property of the global object.\<close>

definition bind_function :: "('x, 'v, 'k, 'b) env \<Rightarrow> string \<Rightarrow> int \<Rightarrow> ('x, 'k, 'b, int) bridge_op" where
  "bind_function E name idx = do {
     fn \<leftarrow> new_value (e_new_cfunction E name idx);
     if fn = Exception then State_Monad.return (- 1)
     else do {
       global \<leftarrow> new_value (e_global E);
       rc \<leftarrow> give_value fn (e_set_prop E global name fn);
       _ \<leftarrow> JS_FreeValue E global;
       State_Monad.return (if rc < 0 then - 1 else 0) } }"

definition qjs_register_host_fn :: "('x, 'v, 'k, 'b) env \<Rightarrow> string \<Rightarrow> 'k \<Rightarrow> ('x, 'k, 'b, int) bridge_op" where
  "qjs_register_host_fn E name callback = do {
     r \<leftarrow> State (\<lambda>s. let (t, r) = reserve_index callback (wd_fns (br_world s)) in (r, s\<lparr>br_world := (br_world s)\<lparr>wd_fns := t\<rparr>\<rparr>));
     case r of None \<Rightarrow> State_Monad.return (- 1) | Some idx \<Rightarrow> bind_function E name idx }"

definition qjs_register_bytes_fn :: "('x, 'v, 'k, 'b) env \<Rightarrow> string \<Rightarrow> 'b \<Rightarrow> ('x, 'k, 'b, int) bridge_op" where
  "qjs_register_bytes_fn E name callback = do {
     r \<leftarrow> State (\<lambda>s. let (t, r) = reserve_index callback (wd_bytes_fns (br_world s)) in (r, s\<lparr>br_world := (br_world s)\<lparr>wd_bytes_fns := t\<rparr>\<rparr>));
     case r of None \<Rightarrow> State_Monad.return (- 1) | Some idx \<Rightarrow> bind_function E name idx }"

definition qjs_reset_callbacks :: "('x, 'k, 'b, unit) bridge_op" where
  "qjs_reset_callbacks = State_Monad.return ()"

section \<open>Evaluation and global variables\<close>

definition qjs_refresh_stack_top :: "('x, 'v, 'k, 'b) env \<Rightarrow> ('x, 'k, 'b, unit) bridge_op" where
  "qjs_refresh_stack_top E = eng (\<lambda>c. ((), e_update_stack_top E c))"

text \<open>\<open>if (err_msg) *err_msg = strdup(msg)\<close>: the new contents of \<open>*err_msg\<close>.\<close>

definition set_err :: "('x, 'v, 'k, 'b) env \<Rightarrow> bool \<Rightarrow> string \<Rightarrow> ('x, 'k, 'b, string option) bridge_op" where
  "set_err E err_msg msg = (if err_msg then strdup E msg else State_Monad.return None)"

text \<open>The result is the returned string and the contents of \<open>*err_msg\<close>; \<open>err_msg\<close> tells whether the
  caller passed a pointer.\<close>

definition qjs_eval ::
  "('x, 'v, 'k, 'b) env \<Rightarrow> string \<Rightarrow> string option \<Rightarrow> bool \<Rightarrow> ('x, 'k, 'b, string option \<times> string option) bridge_op" where
  "qjs_eval E code filename err_msg = do {
     _ \<leftarrow> qjs_refresh_stack_top E;
     val \<leftarrow> new_value (e_eval E code (case filename of Some f \<Rightarrow> f | None \<Rightarrow> ''<eval>''));
     if val = Exception then do {
       err \<leftarrow> new_value (e_exception E);
       cstr \<leftarrow> JS_ToCString E err;
       case cstr of
         None \<Rightarrow> do {
           _ \<leftarrow> JS_FreeValue E err;
           _ \<leftarrow> JS_FreeValue E val;
           State_Monad.return (None, None) }
       | Some msg \<Rightarrow> do {
           e \<leftarrow> set_err E err_msg msg;
           _ \<leftarrow> JS_FreeCString;
           _ \<leftarrow> JS_FreeValue E err;
           _ \<leftarrow> JS_FreeValue E val;
           State_Monad.return (None, e) } }
     else do {
       json \<leftarrow> new_value (e_stringify E val);
       _ \<leftarrow> JS_FreeValue E val;
       if json = Exception then do {
         _ \<leftarrow> JS_FreeValue E json;
         e \<leftarrow> set_err E err_msg ''failed to serialize result to JSON'';
         State_Monad.return (None, e) }
       else do {
         cstr \<leftarrow> JS_ToCString E json;
         _ \<leftarrow> JS_FreeValue E json;
         case cstr of
           None \<Rightarrow> do {
             e \<leftarrow> set_err E err_msg ''failed to convert JSON to string'';
             State_Monad.return (None, e) }
         | Some str \<Rightarrow> do {
             result \<leftarrow> strdup E str;
             _ \<leftarrow> JS_FreeCString;
             State_Monad.return (result, None) } } } }"

definition qjs_set_global_json :: "('x, 'v, 'k, 'b) env \<Rightarrow> string \<Rightarrow> string \<Rightarrow> ('x, 'k, 'b, int) bridge_op" where
  "qjs_set_global_json E name json = do {
     val \<leftarrow> new_value (e_parse E json);
     if val = Exception then State_Monad.return (- 1)
     else do {
       global \<leftarrow> new_value (e_global E);
       rc \<leftarrow> give_value val (e_set_prop E global name val);
       _ \<leftarrow> JS_FreeValue E global;
       State_Monad.return rc } }"

section \<open>Bytes dispatch\<close>

text \<open>The data that a callback may read: \<open>length\<close> bytes at \<open>ptr + offset\<close>, undefined (\<open>None\<close>) unless they
  lie in the buffer.\<close>

definition byte_slice :: "64 word \<Rightarrow> 64 word \<Rightarrow> 8 word list \<Rightarrow> 8 word list option" where
  "byte_slice off len buf = (if unat off + unat len \<le> length buf then Some (take (unat len) (drop (unat off) buf)) else None)"

text \<open>The result is \<open>None\<close> if the data lies outside the buffer.\<close>

definition bytes_call :: "('x, 'v, 'k, 'b) env \<Rightarrow> 'b \<Rightarrow> string \<Rightarrow> 8 word list option \<Rightarrow> ('x, 'k, 'b, 'v jsval option) bridge_op" where
  "bytes_call E cb name data = (case data of
       None \<Rightarrow> State_Monad.return None
     | Some d \<Rightarrow> do {
         _ \<leftarrow> eng (\<lambda>w. ((), e_bytes_call E cb name d w));
         _ \<leftarrow> State (\<lambda>s. ((), s\<lparr>br_bytes_calls := br_bytes_calls s @ [(cb, name, d)]\<rparr>));
         State_Monad.return (Some Undefined) })"

definition qjs_bytes_dispatch ::
  "('x, 'v, 'k, 'b) env \<Rightarrow> 'v jsval list \<Rightarrow> int \<Rightarrow> ('x, 'k, 'b, 'v jsval option) bridge_op" where
  "qjs_bytes_dispatch E argv magic = do {
     s \<leftarrow> State_Monad.get;
     let throw = (\<lambda>msg. do { r \<leftarrow> JS_ThrowTypeError E msg; State_Monad.return (Some r) });
     case valid_index (wd_bytes_fns (br_world s)) magic of
       None \<Rightarrow> throw ''invalid bytes callback index''
     | Some cb \<Rightarrow>
       if length argv < 2 \<or> \<not> e_is_string E (argv ! 0) then throw ''expected (name, typedArray)''
       else do {
         (buf, offset, len) \<leftarrow> eng (e_typed_buffer E (argv ! 1));
         _ \<leftarrow> count_vals (refs buf);
         if buf = Exception then throw ''second argument must be a typed array''
         else do {
           ptr \<leftarrow> eng (e_array_buffer E buf);
           _ \<leftarrow> JS_FreeValue E buf;
           case ptr of
             None \<Rightarrow> throw ''typed array has no backing buffer''
           | Some bytes \<Rightarrow>
             let absize = word_of_nat (length bytes) in
             if offset > absize \<or> len > absize - offset then throw ''typed array range out of bounds''
             else do {
               name \<leftarrow> JS_ToCString E (argv ! 0);
               case name of
                 None \<Rightarrow> throw ''failed to convert name''
               | Some nm \<Rightarrow> do {
                   r \<leftarrow> bytes_call E cb nm (byte_slice offset len bytes);
                   _ \<leftarrow> JS_FreeCString;
                   State_Monad.return r } } } } }"

section \<open>Pending jobs\<close>

text \<open>\<open>exec\<close> runs one pending job; \<open>report\<close> prints and clears the exception of a job that threw.\<close>

text \<open>\<open>executed++\<close> on an \<open>int\<close>.\<close>

definition c_incr :: "int \<Rightarrow> int option" where
  "c_incr n = (if n < 2 ^ 31 - 1 then Some (n + 1) else None)"

partial_function (option) pending_loop ::
  "('st \<Rightarrow> ('st \<times> 'c option \<times> int) option) \<Rightarrow> ('st \<Rightarrow> 'st) \<Rightarrow> 'st \<Rightarrow> int \<Rightarrow> ('st \<times> int) option" where
  "pending_loop exec report st executed = do {
     (st', ctx1, rc) \<leftarrow> exec st;
     if rc = 0 then Some (st', executed)
     else if rc < 0 then Some (report st', - 1)
     else do {
       n \<leftarrow> c_incr executed;
       pending_loop exec report st' n } }"

function (domintros) capped_loop ::
  "('st \<Rightarrow> ('st \<times> 'c option \<times> int) option) \<Rightarrow> ('st \<Rightarrow> 'st) \<Rightarrow> int \<Rightarrow> 'st \<Rightarrow> int \<Rightarrow> ('st \<times> int) option" where
  "capped_loop exec report max_jobs st executed = do {
     (st', ctx1, rc) \<leftarrow> exec st;
     if rc = 0 then Some (st', executed)
     else if rc < 0 then Some (report st', - 1)
     else do {
       n \<leftarrow> c_incr executed;
       if n \<ge> max_jobs then Some (st', n) else capped_loop exec report max_jobs st' n } }"
  by pat_completeness auto
termination
  by (relation "measure (\<lambda>(_, _, m, _, n). nat (m - n))") (auto simp: c_incr_def split: if_splits)

declare capped_loop.simps [simp del]

definition report_job_error :: "('x, 'v, 'k, 'b) env \<Rightarrow> ('x, 'k, 'b, unit) bridge_op" where
  "report_job_error E = do {
     err \<leftarrow> new_value (e_exception E);
     msg \<leftarrow> JS_ToCString E err;
     _ \<leftarrow> State (\<lambda>s. ((), s\<lparr>br_stderr := br_stderr s @ [case msg of Some m \<Rightarrow> m | None \<Rightarrow> ''(unknown)'']\<rparr>));
     _ \<leftarrow> (case msg of Some m \<Rightarrow> JS_FreeCString | None \<Rightarrow> State_Monad.return ());
     JS_FreeValue E err }"

definition on_bridge :: "('s, unit) state \<Rightarrow> 'r \<times> 's \<Rightarrow> 'r \<times> 's" where
  "on_bridge m st = (fst st, snd (run_state m (snd st)))"

definition qjs_execute_pending_jobs where
  "qjs_execute_pending_jobs E call st =
     pending_loop (JS_ExecutePendingJob call) (on_bridge (report_job_error E)) (on_bridge (qjs_refresh_stack_top E) st) 0"

definition qjs_execute_pending_jobs_capped where
  "qjs_execute_pending_jobs_capped E call max_jobs st =
     capped_loop (JS_ExecutePendingJob call) (on_bridge (report_job_error E)) max_jobs (on_bridge (qjs_refresh_stack_top E) st) 0"

section \<open>Sleeping\<close>

text \<open>The system is given by the outcome of the \<open>n\<close>-th call of \<open>nanosleep\<close>: it returns 0, or -1 with a value
  of \<open>errno\<close> and the time it wrote through its second argument; and the nanoseconds that passed.  The loop may run for ever,
  if every call is interrupted.  The result is the returned value and the time that passed in total.\<close>

record timespec =
  tv_sec :: int
  tv_nsec :: int

definition EINTR :: int where
  "EINTR = 4"

datatype nano_result = Slept | Failed int timespec

type_synonym nano_env = "nat \<Rightarrow> timespec \<Rightarrow> nano_result \<times> int"

partial_function (option) sleep_loop :: "nano_env \<Rightarrow> nat \<Rightarrow> timespec \<Rightarrow> int \<Rightarrow> int option" where
  "sleep_loop nanosleep n ts t = (case nanosleep n ts of
       (Slept, dt) \<Rightarrow> Some (t + dt)
     | (Failed errno rem, dt) \<Rightarrow>
         if errno = EINTR then sleep_loop nanosleep (Suc n) rem (t + dt) else Some (t + dt))"

definition sleep_timespec :: "int \<Rightarrow> timespec" where
  "sleep_timespec ms = \<lparr>tv_sec = ms div 1000, tv_nsec = (ms mod 1000) * 1000000\<rparr>"

definition qjs_sleep_ms :: "nano_env \<Rightarrow> int \<Rightarrow> (int \<times> int) option" where
  "qjs_sleep_ms nanosleep ms =
     (if ms \<le> 0 then Some (0, 0) else map_option (Pair 0) (sleep_loop nanosleep 0 (sleep_timespec ms) 0))"

section \<open>Accounting\<close>

text \<open>\<open>acct m Q\<close>: in every state, \<open>Q\<close> holds of the result of \<open>m\<close> and of the changes of the three counters.\<close>

definition acct :: "('x, 'k, 'b, 'a) bridge_op \<Rightarrow> ('a \<Rightarrow> int \<Rightarrow> int \<Rightarrow> int \<Rightarrow> bool) \<Rightarrow> bool" where
  "acct m Q \<longleftrightarrow> (\<forall>s. Q (fst (run_state m s)) (br_vals (snd (run_state m s)) - br_vals s)
     (br_strs (snd (run_state m s)) - br_strs s) (br_mem (snd (run_state m s)) - br_mem s))"

named_theorems acct_rules

lemma acct_return [acct_rules]: "Q r 0 0 0 \<Longrightarrow> acct (State_Monad.return r) Q"
  by (simp add: acct_def)

lemma acct_get [acct_rules]: "(\<And>s. Q s 0 0 0) \<Longrightarrow> acct State_Monad.get Q"
  by (simp add: acct_def)

lemma acct_bind [acct_rules]:
  assumes "acct m (\<lambda>r a b c. acct (f r) (\<lambda>r' a' b' c'. Q r' (a + a') (b + b') (c + c')))"
  shows "acct (State_Monad.bind m f) Q"
  unfolding acct_def
proof
  fix s
  obtain r s1 where m: "run_state m s = (r, s1)" by (cases "run_state m s")
  have "acct (f r) (\<lambda>r' a' b' c'. Q r' (br_vals s1 - br_vals s + a') (br_strs s1 - br_strs s + b') (br_mem s1 - br_mem s + c'))"
    using assms m unfolding acct_def by (metis fst_conv snd_conv)
  from this [unfolded acct_def, rule_format, of s1]
  show "Q (fst (run_state (State_Monad.bind m f) s)) (br_vals (snd (run_state (State_Monad.bind m f) s)) - br_vals s)
    (br_strs (snd (run_state (State_Monad.bind m f) s)) - br_strs s) (br_mem (snd (run_state (State_Monad.bind m f) s)) - br_mem s)"
    using m by simp
qed

lemma acct_eng [acct_rules]: "(\<And>r. Q r 0 0 0) \<Longrightarrow> acct (eng f) Q"
  by (simp add: acct_def eng_def split: prod.splits)

lemma acct_count [acct_rules]:
  "Q () n 0 0 \<Longrightarrow> acct (count_vals n) Q" "Q () 0 n 0 \<Longrightarrow> acct (count_strs n) Q" "Q () 0 0 n \<Longrightarrow> acct (count_mem n) Q"
  by (simp_all add: acct_def count_vals_def count_strs_def count_mem_def)

lemma acct_new_value [acct_rules]: "(\<And>r. Q r (refs r) 0 0) \<Longrightarrow> acct (new_value f) Q"
  unfolding new_value_def by (intro acct_rules) simp

lemma acct_give_value [acct_rules]: "(\<And>r. Q r (- refs v) 0 0) \<Longrightarrow> acct (give_value v f) Q"
  unfolding give_value_def by (intro acct_rules) simp

lemma acct_free_value [acct_rules]: "Q () (- refs v) 0 0 \<Longrightarrow> acct (JS_FreeValue E v) Q"
  unfolding JS_FreeValue_def by (intro acct_rules) simp

fun held :: "'a option \<Rightarrow> int" where
  "held None = 0"
| "held (Some _) = 1"

lemma held_if: "(if r = None then 0 else 1) = held r"
  by (cases r) auto

lemma acct_to_cstring [acct_rules]: "(\<And>r. Q r 0 (held r) 0) \<Longrightarrow> acct (JS_ToCString E v) Q"
  unfolding JS_ToCString_def held_if by (intro acct_rules) simp

lemma acct_free_cstring [acct_rules]: "Q () 0 (- 1) 0 \<Longrightarrow> acct JS_FreeCString Q"
  unfolding JS_FreeCString_def by (intro acct_rules)

lemma acct_strdup [acct_rules]: "(\<And>r. Q r 0 0 (held r)) \<Longrightarrow> acct (strdup E x) Q"
  unfolding strdup_def held_if by (intro acct_rules) simp

lemma acct_throw [acct_rules]: "Q Exception 0 0 0 \<Longrightarrow> acct (JS_ThrowTypeError E msg) Q"
  unfolding JS_ThrowTypeError_def by (intro acct_rules) simp

lemma acct_table [acct_rules]:
  "(\<And>r. Q r 0 0 0) \<Longrightarrow> acct (State (\<lambda>s. case f s of (t, r) \<Rightarrow> (r, s\<lparr>br_world := g s t\<rparr>))) Q"
  "Q' () 0 0 0 \<Longrightarrow> acct (State (\<lambda>s. ((), s\<lparr>br_calls := h s\<rparr>))) Q'" "Q' () 0 0 0 \<Longrightarrow> acct (State (\<lambda>s. ((), s\<lparr>br_bytes_calls := k s\<rparr>))) Q'"
  by (simp_all add: acct_def split: prod.splits)

lemma acct_host_call [acct_rules]: "(\<And>r. Q r 0 0 (held r)) \<Longrightarrow> acct (host_call E cb args) Q"
  unfolding host_call_def held_if by (intro acct_rules) simp

lemma acct_set_err [acct_rules]: "(\<And>r. Q r 0 0 (held r)) \<Longrightarrow> acct (set_err E b msg) Q"
  unfolding set_err_def by (cases b) (auto intro!: acct_rules, metis held.simps(1))

lemma acct_if [acct_rules]: "(b \<Longrightarrow> acct m Q) \<Longrightarrow> (\<not> b \<Longrightarrow> acct n Q) \<Longrightarrow> acct (if b then m else n) Q"
  by simp

lemma acct_option [acct_rules]:
  "(x = None \<Longrightarrow> acct m Q) \<Longrightarrow> (\<And>y. x = Some y \<Longrightarrow> acct (f y) Q) \<Longrightarrow> acct (case x of None \<Rightarrow> m | Some y \<Rightarrow> f y) Q"
  by (cases x) auto

lemma acct_set_elements [acct_rules]: "Q () 0 0 0 \<Longrightarrow> acct (set_elements E arr i vs) Q"
  by (induction vs arbitrary: i) (auto intro!: acct_rules)

lemma acct_marshal [acct_rules]: "(\<And>r. Q r (refs r) 0 0) \<Longrightarrow> acct (marshal_args E argv) Q"
  unfolding marshal_args_def by (auto split: list.split intro!: acct_rules)

lemma acct_bind_function [acct_rules]: "(\<And>r. Q r 0 0 0) \<Longrightarrow> acct (bind_function E name idx) Q"
  unfolding bind_function_def by (auto intro!: acct_rules)

lemma acct_bytes_call [acct_rules]: "(\<And>r. r = None \<or> r = Some Undefined \<Longrightarrow> Q r 0 0 0) \<Longrightarrow> acct (bytes_call E cb nm d) Q"
  unfolding bytes_call_def by (auto intro!: acct_rules)

lemma dispatch_acct: "acct (qjs_dispatch E argv magic) (\<lambda>r v s m. v = refs r \<and> s = 0 \<and> m = 0)"
  unfolding qjs_dispatch_def by (auto intro!: acct_rules)

lemma register_acct:
  "acct (qjs_register_host_fn E name cb) (\<lambda>r v s m. v = 0 \<and> s = 0 \<and> m = 0)"
  "acct (qjs_register_bytes_fn E name bcb) (\<lambda>r v s m. v = 0 \<and> s = 0 \<and> m = 0)"
  unfolding qjs_register_host_fn_def qjs_register_bytes_fn_def by (auto intro!: acct_rules)

lemma eval_acct:
  "acct (qjs_eval E code filename err_msg) (\<lambda>(ret, err) v s m. v = 0 \<and> s = 0 \<and> m = held ret + held err \<and> (ret = None \<or> err = None))"
  unfolding qjs_eval_def qjs_refresh_stack_top_def by (auto intro!: acct_rules)

lemma set_global_acct: "acct (qjs_set_global_json E name json) (\<lambda>r v s m. v = 0 \<and> s = 0 \<and> m = 0)"
  unfolding qjs_set_global_json_def by (auto intro!: acct_rules)

lemma bytes_dispatch_acct: "acct (qjs_bytes_dispatch E argv magic) (\<lambda>r v s m. v = 0 \<and> s = 0 \<and> m = 0)"
  unfolding qjs_bytes_dispatch_def Let_def by (auto intro!: acct_rules split: prod.split)

lemma report_acct: "acct (report_job_error E) (\<lambda>r v s m. v = 0 \<and> s = 0 \<and> m = 0)"
proof -
  have [acct_rules]: "acct (State (\<lambda>s. ((), s\<lparr>br_stderr := f s\<rparr>))) Q" if "Q () 0 0 0" for Q f
    using that by (simp add: acct_def)
  show ?thesis unfolding report_job_error_def by (auto intro!: acct_rules split: option.split)
qed

section \<open>Loops over a job queue\<close>

locale job_pump = job_runner exec queue
  for exec :: "'st \<Rightarrow> ('st \<times> 'c option \<times> int) option" and queue :: "'st \<Rightarrow> 'j list \<Rightarrow> bool" +
  fixes report :: "'st \<Rightarrow> 'st"
  assumes report_queue: "queue st q \<Longrightarrow> queue (report st) q"
begin

lemma capped_ok:
  assumes "queue st q" "0 \<le> k" "k < 2 ^ 31 - 1" "m < 2 ^ 31"
  shows "ok (capped_loop exec report m st k) (\<lambda>(st', r). \<exists>q'. queue st' q' \<and>
    (r = -1 \<or> k \<le> r \<and> r \<le> max (k + 1) m \<and> (r < max (k + 1) m \<longrightarrow> q' = []) \<and> (q \<noteq> [] \<longrightarrow> k < r)))"
  using assms
proof (induction "nat (m - k)" arbitrary: st q k rule: less_induct)
  case less
  show ?case
  proof (cases q)
    case Nil
    then show ?thesis using exec_idle [of st] less.prems by (subst capped_loop.simps) (auto simp: ok_def)
  next
    case (Cons j q1)
    then obtain st' c r acc where e: "exec st = Some (st', Some c, r)" "r = 1 \<or> r = -1" "queue st' (q1 @ acc)"
      using exec_runs [of st j q1] less.prems by blast
    show ?thesis
    proof (cases "r = 1 \<and> k + 1 < m")
      case True
      then have "ok (capped_loop exec report m st' (k + 1)) (\<lambda>(st', r). \<exists>q'. queue st' q' \<and>
        (r = -1 \<or> k + 1 \<le> r \<and> r \<le> max (k + 1 + 1) m \<and> (r < max (k + 1 + 1) m \<longrightarrow> q' = [])
          \<and> (q1 @ acc \<noteq> [] \<longrightarrow> k + 1 < r)))"
        using less.prems e(3) by (intro less.hyps) auto
      then show ?thesis
        using True e less.prems by (subst capped_loop.simps) (auto simp: c_incr_def max_def elim!: ok_mono)
    next
      case False
      then show ?thesis using e less.prems Cons report_queue [of st' "q1 @ acc"]
        by (subst capped_loop.simps) (auto simp: c_incr_def ok_def)
    qed
  qed
qed

end

lemma capped_agrees:
  assumes "capped_loop exec report m st k = Some (st', r)" "r < m \<or> r = - 1" "- 1 < k"
  shows "pending_loop exec report st k = Some (st', r)"
  using assms
proof (induction exec report m st k rule: capped_loop.induct)
  case (1 exec report m st k)
  note cap = 1(2) [unfolded capped_loop.simps [of exec report m st k]]
  then obtain st1 c rc where e: "exec st = Some (st1, c, rc)" by (auto split: bind_splits)
  show ?case
  proof (cases "rc > 0")
    case True
    then obtain n where n: "c_incr k = Some n" using cap e by (auto split: bind_splits)
    have "n = k + 1" using n by (auto simp: c_incr_def split: if_splits)
    then have "\<not> n \<ge> m" using cap 1(3,4) e True n by (auto split: if_splits)
    then have "pending_loop exec report st1 n = Some (st', r)"
      using 1(1) [OF e refl refl _ _ n] cap 1(3,4) e True n \<open>n = k + 1\<close> by auto
    then show ?thesis using True e n by (subst pending_loop.simps) auto
  next
    case False
    then show ?thesis using cap e by (subst pending_loop.simps) (auto split: if_splits)
  qed
qed

lemma pending_capped:
  assumes "pending_loop exec report st k = Some y" "- 1 < k"
  shows "(snd y = - 1 \<or> k \<le> snd y) \<and> (\<exists>n. \<forall>m \<ge> n. capped_loop exec report m st k = Some y)"
  using assms
proof (induction rule: pending_loop.raw_induct [rotated, consumes 1, case_names unfold])
  case (unfold loop exec report st k y)
  then obtain st1 c rc where e: "exec st = Some (st1, c, rc)" by (auto split: bind_splits)
  show ?case
  proof (cases "rc > 0")
    case True
    then obtain n where n: "c_incr k = Some n" "loop exec report st1 n = Some y" using unfold(2) e by (auto split: bind_splits)
    have k: "n = k + 1" using n by (auto simp: c_incr_def split: if_splits)
    obtain b where IH: "snd y = - 1 \<or> n \<le> snd y" "\<forall>m \<ge> b. capped_loop exec report m st1 n = Some y"
      using unfold(1) [OF n(2)] unfold(3) k by auto
    have "capped_loop exec report m st k = Some y" if "m \<ge> max b (n + 1)" for m
      using IH True e n(1) that by (subst capped_loop.simps) auto
    then show ?thesis using IH(1) k by (intro conjI exI [of _ "max b (n + 1)"]) auto
  next
    case False
    have "capped_loop exec report m st k = Some y" for m
      using False unfold(2) e by (subst capped_loop.simps) (auto split: if_splits)
    then show ?thesis using unfold(2,3) e False by (auto split: if_splits)
  qed
qed

interpretation js_pump: job_pump "JS_ExecutePendingJob call" job_queue "on_bridge rep"
  for call :: "('c, 'f, 'v, ('x, 'k, 'b) bridge) job_call" and rep :: "(('x, 'k, 'b) bridge, unit) state"
  by unfold_locales (simp add: job_queue_def on_bridge_def)

section \<open>Tables\<close>

lemma reserve_index_ok:
  "reserve_index cb t = (if g_callback_count t \<ge> MAX_HOST_FNS then (t, None)
     else (\<lparr>g_callback_count = g_callback_count t + 1, g_callbacks = (g_callbacks t)(g_callback_count t := Some cb)\<rparr>,
       Some (g_callback_count t)))"
  by (simp add: reserve_index_def Let_def)

text \<open>A registration that nothing interrupts is a run of the steps.\<close>

lemma reserve_index_steps:
  assumes "rs_pc s t = Idle" "t \<in> T" "reserve_index cb (rs_table s) = (tab, Some idx)"
  shows "(reg_step T)\<^sup>*\<^sup>* s (s\<lparr>rs_table := tab, rs_fns := (idx, cb) # rs_fns s\<rparr>)"
proof -
  let ?n = "g_callback_count (rs_table s)"
  have n: "?n < MAX_HOST_FNS" "idx = ?n" and tab: "tab = (rs_table s)\<lparr>g_callback_count := ?n + 1, g_callbacks := (g_callbacks (rs_table s))(?n := Some cb)\<rparr>"
    using assms(3) by (auto simp: reserve_index_ok split: if_splits)
  let ?s1 = "goto t (Called cb) s" let ?s2 = "goto t (Checked cb) ?s1"
  let ?s3 = "goto t (Got cb ?n) (?s2\<lparr>rs_table := (rs_table ?s2)\<lparr>g_callback_count := ?n + 1\<rparr>\<rparr>)"
  let ?s4 = "goto t (Stored cb ?n) (?s3\<lparr>rs_table := (rs_table ?s3)\<lparr>g_callbacks := (g_callbacks (rs_table ?s3))(?n := Some cb)\<rparr>\<rparr>)"
  let ?s5 = "goto t Idle (?s4\<lparr>rs_fns := (?n, cb) # rs_fns ?s4\<rparr>)"
  have "reg_step T s ?s1" using assms by (intro reg_step.call)
  moreover have "reg_step T ?s1 ?s2" using assms n by (intro reg_step.check) auto
  moreover have "reg_step T ?s2 ?s3" using assms n by (intro reg_step.fetch_and_add) auto
  moreover have "reg_step T ?s3 ?s4" using assms n by (intro reg_step.store) auto
  moreover have "reg_step T ?s4 ?s5" using assms n by (intro reg_step.create) auto
  moreover have "?s5 = s\<lparr>rs_table := tab, rs_fns := (idx, cb) # rs_fns s\<rparr>"
    using tab n assms(1) by (cases s) (auto simp: fun_eq_iff)
  ultimately show ?thesis by (metis (no_types, lifting) converse_rtranclp_into_rtranclp rtranclp.rtrancl_refl)
qed

lemma reg_reach_steps: "(reg_step T)\<^sup>*\<^sup>* s s' \<Longrightarrow> reg_reach T s \<Longrightarrow> reg_reach T s'"
  by (induction rule: rtranclp_induct) (auto intro: reg_reach.step)

section \<open>Dispatch against its specification\<close>















section \<open>Time\<close>

definition timespec_ns :: "timespec \<Rightarrow> int" where
  "timespec_ns ts = tv_sec ts * 1000000000 + tv_nsec ts"

definition valid_timespec :: "timespec \<Rightarrow> bool" where
  "valid_timespec ts \<longleftrightarrow> 0 \<le> tv_sec ts \<and> 0 \<le> tv_nsec ts \<and> tv_nsec ts < 1000000000"

text \<open>What \<open>nanosleep\<close> promises for a valid time: when it returns 0 at least that time has passed, the only
  failure is an interruption, and then the time that passed and the valid time it wrote make up at least the request.\<close>

definition posix_nanosleep :: "nano_env \<Rightarrow> bool" where
  "posix_nanosleep nanosleep \<longleftrightarrow> (\<forall>n ts. valid_timespec ts \<longrightarrow> (case nanosleep n ts of
       (Slept, dt) \<Rightarrow> timespec_ns ts \<le> dt
     | (Failed errno rem, dt) \<Rightarrow> errno = EINTR \<and> valid_timespec rem \<and> timespec_ns ts \<le> dt + timespec_ns rem))"

lemma sleep_loop_step:
  assumes "posix_nanosleep nanosleep" "valid_timespec ts"
  shows "(\<exists>dt. nanosleep n ts = (Slept, dt) \<and> sleep_loop nanosleep n ts t = Some (t + dt) \<and> timespec_ns ts \<le> dt)
    \<or> (\<exists>rem dt. nanosleep n ts = (Failed EINTR rem, dt) \<and> sleep_loop nanosleep n ts t = sleep_loop nanosleep (Suc n) rem (t + dt)
         \<and> valid_timespec rem \<and> timespec_ns ts \<le> dt + timespec_ns rem)"
proof -
  obtain r dt where r: "nanosleep n ts = (r, dt)" by (cases "nanosleep n ts")
  have "case nanosleep n ts of (Slept, dt) \<Rightarrow> timespec_ns ts \<le> dt
     | (Failed errno rem, dt) \<Rightarrow> errno = EINTR \<and> valid_timespec rem \<and> timespec_ns ts \<le> dt + timespec_ns rem"
    using assms(1) [unfolded posix_nanosleep_def, rule_format, OF assms(2)] .
  then show ?thesis using r by (cases r) (simp_all add: sleep_loop.simps)
qed

lemma sleep_loop_at_least:
  assumes "posix_nanosleep nanosleep" "\<And>ts. valid_timespec ts \<Longrightarrow> \<exists>dt. nanosleep m ts = (Slept, dt)"
  shows "n \<le> m \<Longrightarrow> valid_timespec ts \<Longrightarrow> \<exists>t'. sleep_loop nanosleep n ts t = Some t' \<and> t + timespec_ns ts \<le> t'"
proof (induction "m - n" arbitrary: n ts t)
  case 0
  then have "n = m" by simp
  then show ?case using sleep_loop_step [OF assms(1) 0(3), of n t] assms(2) [OF 0(3)] by auto
next
  case (Suc k)
  from sleep_loop_step [OF assms(1) Suc.prems(2), of n t] show ?case
  proof
    assume "\<exists>dt. nanosleep n ts = (Slept, dt) \<and> sleep_loop nanosleep n ts t = Some (t + dt) \<and> timespec_ns ts \<le> dt"
    then show ?thesis by auto
  next
    assume "\<exists>rem dt. nanosleep n ts = (Failed EINTR rem, dt) \<and> sleep_loop nanosleep n ts t = sleep_loop nanosleep (Suc n) rem (t + dt)
         \<and> valid_timespec rem \<and> timespec_ns ts \<le> dt + timespec_ns rem"
    then obtain rem dt where r: "sleep_loop nanosleep n ts t = sleep_loop nanosleep (Suc n) rem (t + dt)" "valid_timespec rem"
      "timespec_ns ts \<le> dt + timespec_ns rem" by blast
    then show ?thesis using Suc.hyps(1) [of "Suc n" rem "t + dt"] Suc.hyps(2) by fastforce
  qed
qed

section \<open>Claims\<close>

text \<open>C7. Concurrent registration is safe: however the steps of any number of threads interleave, no two
  host functions have the same index, every index is inside the table, the callback that a dispatch
  finds for a bound function is the one it was registered with, and the counter exceeds the limit by
  at most the number of threads.\<close>

theorem concurrent_registration_safe:
  assumes "reg_reach T s" "finite T"
  shows "distinct (map fst (rs_fns s))
    \<and> (\<forall>(i, cb) \<in> set (rs_fns s). 0 \<le> i \<and> i < MAX_HOST_FNS \<and> valid_index (rs_table s) i = Some cb)
    \<and> g_callback_count (rs_table s) \<le> MAX_HOST_FNS + int (card T)"
proof -
  have "fns_ok (rs_table s) (rs_fns s)" using reg_reach_inv [OF assms(1)] by (simp add: reg_inv_def)
  then show ?thesis using count_bound [OF assms] by (auto simp: fns_ok_def valid_index_def)
qed

theorem concurrent_registration_safe_witness:
  "\<exists>s. reg_reach {0, 1} s \<and> rs_fns s = [(1, CHR ''b''), (0, CHR ''a'')] \<and> valid_index (rs_table s) 0 = Some CHR ''a''
    \<and> g_callback_count (rs_table s) \<le> MAX_HOST_FNS + 2"
proof -
  let ?t1 = "\<lparr>g_callback_count = 1, g_callbacks = (\<lambda>_. None)(0 := Some CHR ''a'')\<rparr>"
  let ?s1 = "reg_init\<lparr>rs_table := ?t1, rs_fns := [(0, CHR ''a'')]\<rparr>"
  let ?t2 = "\<lparr>g_callback_count = 2, g_callbacks = (g_callbacks ?t1)(1 := Some CHR ''b'')\<rparr>"
  let ?s2 = "?s1\<lparr>rs_table := ?t2, rs_fns := [(1, CHR ''b''), (0, CHR ''a'')]\<rparr>"
  have "reg_reach {0, 1} ?s1"
    using reg_reach_steps [OF reserve_index_steps [of reg_init 0 "{0, 1}" "CHR ''a''" ?t1 0] reg_reach.init]
    by (auto simp: reg_init_def fn_table_init_def reserve_index_ok MAX_HOST_FNS_def)
  then have r: "reg_reach {0, 1} ?s2"
    using reg_reach_steps [OF reserve_index_steps [of ?s1 1 "{0, 1}" "CHR ''b''" ?t2 1]]
    by (auto simp: reg_init_def fn_table_init_def reserve_index_ok MAX_HOST_FNS_def)
  show ?thesis using concurrent_registration_safe [OF r] r by (intro exI [of _ ?s2]) auto
qed

text \<open>C8. Nothing leaks on any path of the bridge: a dispatch holds only the value it returns; an
  evaluation leaves its result or its error message to the caller, never both, and nothing else;
  registrations, setting a global, and reporting a failed job leave the counts of values, C strings
  and heap strings as they were.\<close>

theorem bridge_leak_free:
  "acct (qjs_dispatch E argv magic) (\<lambda>r v s m. v = refs r \<and> s = 0 \<and> m = 0)
   \<and> acct (qjs_bytes_dispatch E argv magic) (\<lambda>r v s m. v = 0 \<and> s = 0 \<and> m = 0)
   \<and> acct (qjs_eval E code filename err_msg)
       (\<lambda>(ret, err) v s m. v = 0 \<and> s = 0 \<and> m = held ret + held err \<and> (ret = None \<or> err = None))
   \<and> acct (qjs_register_host_fn E name cb) (\<lambda>r v s m. v = 0 \<and> s = 0 \<and> m = 0)
   \<and> acct (qjs_register_bytes_fn E name bcb) (\<lambda>r v s m. v = 0 \<and> s = 0 \<and> m = 0)
   \<and> acct (qjs_set_global_json E name json) (\<lambda>r v s m. v = 0 \<and> s = 0 \<and> m = 0)
   \<and> acct (report_job_error E) (\<lambda>r v s m. v = 0 \<and> s = 0 \<and> m = 0)"
  by (intro conjI dispatch_acct bytes_dispatch_acct eval_acct register_acct set_global_acct report_acct)


text \<open>An engine with one array, and callbacks that are numbers: the text of a value has one character for
  every element of the array, and callback 0 returns null.\<close>

definition engine_example :: "(nat jsval list, nat, nat, nat) env" where
  "engine_example = \<lparr>e_new_object = Pair (Val 0), e_new_array = (\<lambda>w. (Val 1, w\<lparr>wd_rest := []\<rparr>)),
     e_set_index = (\<lambda>arr i v w. (1, w\<lparr>wd_rest := wd_rest w @ [v]\<rparr>)),
     e_stringify = (\<lambda>v. Pair (Val 7)), e_to_cstring = (\<lambda>v w. (Some (replicate (length (wd_rest w)) CHR ''a''), w)),
     e_parse = (\<lambda>x. Pair (Val (length x))),
     e_throw = (\<lambda>_ w. w), e_new_cfunction = (\<lambda>_ i. Pair (Val (nat i))), e_global = Pair (Val 2),
     e_set_prop = (\<lambda>_ _ _. Pair 1), e_eval = (\<lambda>code _. Pair (Val (length code))), e_exception = Pair (Val 3),
     e_free = (\<lambda>_ w. w), e_strdup = (\<lambda>x. Pair (Some x)), e_update_stack_top = (\<lambda>w. w), e_is_string = (\<lambda>v. v = Val 5),
     e_typed_buffer = (\<lambda>v. Pair (v, 1, 2)), e_array_buffer = (\<lambda>v. Pair (Some [10, 11, 12])),
     e_host_call = (\<lambda>k args. Pair (if k = 0 then None else Some args)), e_bytes_call = (\<lambda>_ _ _ w. w)\<rparr>"

definition bridge_example :: "(nat jsval list, nat, nat) bridge" where
  "bridge_example = \<lparr>br_world = \<lparr>wd_fns = \<lparr>g_callback_count = 1, g_callbacks = (\<lambda>_. None)(0 := Some 3)\<rparr>,
       wd_bytes_fns = \<lparr>g_callback_count = 1, g_callbacks = (\<lambda>_. None)(0 := Some 4)\<rparr>, wd_rest = []\<rparr>,
     br_vals = 0, br_strs = 0, br_mem = 0, br_stderr = [], br_calls = [], br_bytes_calls = []\<rparr>"


text \<open>C10. The capped loop over pending jobs always ends, keeps the job queue well formed, and returns
  -1 after an exception or the number of executed jobs, which is at most the cap (one, for a cap below
  one) and less only if the queue is empty.  A result of -1 or below the cap is also the result of the
  uncapped loop, and whatever the uncapped loop returns, every large enough cap returns.\<close>

theorem capped_jobs_correct:
  assumes "job_queue st q" "max_jobs < 2 ^ 31"
  shows "(\<exists>st' r q'. qjs_execute_pending_jobs_capped E call max_jobs st = Some (st', r) \<and> job_queue st' q'
       \<and> (r = - 1 \<or> 0 \<le> r \<and> r \<le> max 1 max_jobs \<and> (r < max 1 max_jobs \<longrightarrow> q' = []) \<and> (q \<noteq> [] \<longrightarrow> 0 < r))
       \<and> (r < max_jobs \<or> r = - 1 \<longrightarrow> qjs_execute_pending_jobs E call st = Some (st', r)))
     \<and> (\<forall>y. qjs_execute_pending_jobs E call st = Some y \<longrightarrow>
          (\<exists>n. \<forall>m \<ge> n. qjs_execute_pending_jobs_capped E call m st = Some y))"
proof (intro conjI allI impI)
  let ?st = "on_bridge (qjs_refresh_stack_top E) st" and ?rep = "on_bridge (report_job_error E)"
  have "job_queue ?st q" using assms(1) by (simp add: job_queue_def on_bridge_def)
  from js_pump.capped_ok [where call = call and rep = "report_job_error E", OF this, of 0 max_jobs]
  obtain st' r q' where "capped_loop (JS_ExecutePendingJob call) ?rep max_jobs ?st 0 = Some (st', r)" "job_queue st' q'"
    "r = - 1 \<or> 0 \<le> r \<and> r \<le> max 1 max_jobs \<and> (r < max 1 max_jobs \<longrightarrow> q' = []) \<and> (q \<noteq> [] \<longrightarrow> 0 < r)"
    using assms(2) by (auto elim!: okE)
  moreover have "pending_loop (JS_ExecutePendingJob call) ?rep ?st 0 = Some (st', r)" if "r < max_jobs \<or> r = - 1"
    by (rule capped_agrees) (use calculation that in auto)
  ultimately show "\<exists>st' r q'. qjs_execute_pending_jobs_capped E call max_jobs st = Some (st', r) \<and> job_queue st' q'
       \<and> (r = - 1 \<or> 0 \<le> r \<and> r \<le> max 1 max_jobs \<and> (r < max 1 max_jobs \<longrightarrow> q' = []) \<and> (q \<noteq> [] \<longrightarrow> 0 < r))
       \<and> (r < max_jobs \<or> r = - 1 \<longrightarrow> qjs_execute_pending_jobs E call st = Some (st', r))"
    unfolding qjs_execute_pending_jobs_capped_def qjs_execute_pending_jobs_def by blast
  show "\<exists>n. \<forall>m \<ge> n. qjs_execute_pending_jobs_capped E call m st = Some y" if "qjs_execute_pending_jobs E call st = Some y" for y
    using that pending_capped [of "JS_ExecutePendingJob call" ?rep ?st 0 y]
    unfolding qjs_execute_pending_jobs_capped_def qjs_execute_pending_jobs_def by simp
qed

definition queue_example :: "(nat, nat, nat) jobs" where
  "queue_example = \<lparr>jr_heap = \<lparr>lh_prev = [1 \<mapsto> 2, 2 \<mapsto> 1], lh_next = [1 \<mapsto> 2, 2 \<mapsto> 1]\<rparr>, jr_job_list = 1,
     jr_entries = [2 \<mapsto> \<lparr>je_ctx = 0, je_func = 5, je_argv = [8, 9]\<rparr>], jr_answers = (\<lambda>n. Some (n + 3)), jr_calls = 0, jr_refs = 2\<rparr>"

text \<open>A job that enqueues itself for ever: the cap stops the loop.\<close>

theorem capped_jobs_correct_witness:
  "\<exists>st' r. qjs_execute_pending_jobs_capped engine_example
      (\<lambda>f c a s. (s, [\<lparr>je_ctx = c, je_func = f, je_argv = a\<rparr>], False)) 3 (queue_example, bridge_example) = Some (st', r) \<and> r \<le> 3"
proof -
  have "job_queue (queue_example, bridge_example) [\<lparr>je_ctx = 0, je_func = 5, je_argv = [8, 9]\<rparr>]"
    unfolding job_queue_def jobs_inv_def
    by (intro conjI exI [of _ "[2]"]) (auto simp: queue_example_def dlist_def queue_refs_def split: if_splits)
  from capped_jobs_correct [OF this, of 3 engine_example "\<lambda>f c a s. (s, [\<lparr>je_ctx = c, je_func = f, je_argv = a\<rparr>], False)"]
  show ?thesis by auto
qed

text \<open>C21. Sleeping, with a \<open>nanosleep\<close> as POSIX describes it that is interrupted any number of times but not for ever:
  \<open>qjs_sleep_ms\<close> returns 0, and at least the requested time has passed, whatever \<open>nanosleep\<close> does with invalid times.
  A request that is not positive returns at once.\<close>

theorem sleep_resumes:
  assumes "posix_nanosleep nanosleep" "\<And>ts. valid_timespec ts \<Longrightarrow> \<exists>dt. nanosleep m ts = (Slept, dt)"
  shows "\<exists>t. qjs_sleep_ms nanosleep ms = Some (0, t) \<and> ms * 1000000 \<le> t \<and> (ms \<le> 0 \<longrightarrow> t = 0)"
proof (cases "ms \<le> 0")
  case False
  have "ms mod 1000 * 1000000 < 1000000000" using pos_mod_bound [of 1000 ms] by linarith
  then have v: "valid_timespec (sleep_timespec ms)" using False by (simp add: valid_timespec_def sleep_timespec_def)
  have "timespec_ns (sleep_timespec ms) = ms * 1000000" unfolding timespec_ns_def sleep_timespec_def by simp presburger
  then show ?thesis using sleep_loop_at_least [OF assms, of 0 "sleep_timespec ms" 0] v False by (auto simp: qjs_sleep_ms_def)
qed (simp add: qjs_sleep_ms_def)

text \<open>A system that interrupts the first two calls after a second, and oversleeps by a microsecond.\<close>

definition nanosleep_example :: nano_env where
  "nanosleep_example n ts =
     (if n < 2 \<and> 0 < tv_sec ts then (Failed EINTR (ts\<lparr>tv_sec := tv_sec ts - 1\<rparr>), 1000000000)
      else (Slept, timespec_ns ts + 1000))"

theorem sleep_resumes_witness: "\<exists>t. qjs_sleep_ms nanosleep_example 2500 = Some (0, t) \<and> 2500000000 \<le> t"
proof -
  have "posix_nanosleep nanosleep_example"
    by (auto simp: posix_nanosleep_def nanosleep_example_def valid_timespec_def timespec_ns_def)
  from sleep_resumes [OF this, of 2 2500] show ?thesis by (auto simp: nanosleep_example_def)
qed

end
