(* ===== verification/CString.thy ===== *)
theory CString
  imports Prelude "HOL-Library.Sublist"
begin

text \<open>
  The bounded string routines of \<open>src/native/quickjs/cutils.c\<close>: \<open>pstrcpy\<close>, \<open>pstrcat\<close>,
  \<open>strstart\<close> and \<open>has_suffix\<close>.  A character array is the list of its bytes, a pointer into it
  is an offset, and the C string at an offset ends at the first zero byte.  Source and destination
  are distinct objects, as the routines require.
\<close>

section \<open>The C library\<close>

definition c_str :: "u8 list \<Rightarrow> u8 list" where
  "c_str s = takeWhile (\<lambda>c. c \<noteq> 0) s"

definition strlen :: "u8 list \<Rightarrow> nat option" where
  "strlen s = (if 0 \<in> set s then Some (length (c_str s)) else None)"

definition memcmp_eq :: "u8 list \<Rightarrow> nat \<Rightarrow> u8 list \<Rightarrow> nat \<Rightarrow> nat \<Rightarrow> bool option" where
  "memcmp_eq a i b j n =
     (if i + n \<le> length a \<and> j + n \<le> length b
      then Some (take n (drop i a) = take n (drop j b)) else None)"

section \<open>The routines\<close>

function pstrcpy_loop :: "u8 list \<Rightarrow> nat \<Rightarrow> int \<Rightarrow> u8 list \<Rightarrow> nat \<Rightarrow> u8 list option" where
  "pstrcpy_loop buf q lim str i = do {
     c \<leftarrow> rd str i;
     if c = 0 \<or> int q \<ge> lim then wr buf q 0
     else do {
       buf' \<leftarrow> wr buf q c;
       pstrcpy_loop buf' (q + 1) lim str (i + 1) } }"
  by pat_completeness auto
termination
  by (relation "measure (\<lambda>(buf, q, lim, str, i). length str - i)") (auto simp: rd_eq_Some_iff)

declare pstrcpy_loop.simps [simp del]

definition pstrcpy :: "u8 list \<Rightarrow> nat \<Rightarrow> int \<Rightarrow> u8 list \<Rightarrow> u8 list option" where
  "pstrcpy buf off buf_size str =
     (if buf_size \<le> 0 then Some buf
      else pstrcpy_loop buf off (int off + buf_size - 1) str 0)"

definition pstrcat :: "u8 list \<Rightarrow> int \<Rightarrow> u8 list \<Rightarrow> u8 list option" where
  "pstrcat buf buf_size s = do {
     n \<leftarrow> strlen buf;
     let len = c_int (int n);
     if len < buf_size then
       (if len < 0 then None else pstrcpy buf (nat len) (buf_size - len) s)
     else Some buf }"

text \<open>The result is the return value and the position stored in \<open>*ptr\<close>.\<close>

function strstart_loop :: "u8 list \<Rightarrow> nat \<Rightarrow> u8 list \<Rightarrow> nat \<Rightarrow> (bool \<times> nat) option" where
  "strstart_loop str p val q = do {
     d \<leftarrow> rd val q;
     if d \<noteq> 0 then do {
       c \<leftarrow> rd str p;
       if c \<noteq> d then Some (False, 0) else strstart_loop str (p + 1) val (q + 1) }
     else Some (True, p) }"
  by pat_completeness auto
termination
  by (relation "measure (\<lambda>(str, p, val, q). length val - q)") (auto simp: rd_eq_Some_iff)

declare strstart_loop.simps [simp del]

definition strstart :: "u8 list \<Rightarrow> u8 list \<Rightarrow> (bool \<times> nat) option" where
  "strstart str val = strstart_loop str 0 val 0"

definition has_suffix :: "u8 list \<Rightarrow> u8 list \<Rightarrow> bool option" where
  "has_suffix str suf = do {
     len \<leftarrow> strlen str;
     slen \<leftarrow> strlen suf;
     if len \<ge> slen then memcmp_eq str (len - slen) suf 0 slen else Some False }"

section \<open>Strings and their terminator\<close>

lemma c_str_split:
  assumes "0 \<in> set s"
  obtains r where "s = c_str s @ 0 # r"
proof -
  obtain a b where "s = a @ 0 # b" "0 \<notin> set a" using split_list_first [OF assms] by blast
  then have "c_str s = a" unfolding c_str_def by (simp add: takeWhile_append) 
  with \<open>s = a @ 0 # b\<close> that show ?thesis by simp
qed

lemma c_str_nonzero [simp]: "0 \<notin> set (c_str s)"
  unfolding c_str_def by (auto dest: set_takeWhileD)

lemma c_str_append [simp]: "0 \<notin> set a \<Longrightarrow> c_str (a @ 0 # b) = a"
  by (induction a) (auto simp: c_str_def)

lemma strlen_append [simp]: "0 \<notin> set a \<Longrightarrow> strlen (a @ 0 # b) = Some (length a)"
  by (simp add: strlen_def)

text \<open>The copying loop, started at \<open>q\<close> with \<open>n\<close> bytes before the last one.\<close>

lemma pstrcpy_loop_correct:
  assumes "0 \<notin> set s" "q + n < length buf" "i \<le> length pre" "length pre = i"
  shows "pstrcpy_loop buf q (int (q + n)) (pre @ s @ 0 # r) i =
    Some (take q buf @ take n s @ 0 # drop (q + length (take n s) + 1) buf)"
  using assms
proof (induction s arbitrary: buf q n i pre)
  case Nil
  then show ?case
    by (subst pstrcpy_loop.simps) (simp add: rd_def wr_def nth_append upd_conv_take_nth_drop)
next
  case (Cons a s)
  show ?case
  proof (cases n)
    case 0
    then show ?thesis using Cons.prems
      by (subst pstrcpy_loop.simps) (simp add: rd_def wr_def nth_append upd_conv_take_nth_drop)
  next
    case (Suc m)
    have "pstrcpy_loop (buf[q := a]) (q + 1) (int (q + 1 + m)) ((pre @ [a]) @ s @ 0 # r) (i + 1) =
      Some (take (q + 1) (buf[q := a]) @ take m s @ 0 # drop (q + 1 + length (take m s) + 1) (buf[q := a]))"
      using Cons.prems Suc by (intro Cons.IH) auto
    moreover have "take (q + 1) (buf[q := a]) = take q buf @ [a]"
      using Cons.prems by (simp add: take_Suc_conv_app_nth)
    moreover have "drop (q + 1 + length (take m s) + 1) (buf[q := a]) = drop (q + 1 + length (take m s) + 1) buf"
      by (intro drop_update_cancel) simp
    ultimately show ?thesis using Cons.prems Suc
      by (subst pstrcpy_loop.simps) (simp add: rd_def wr_def nth_append)
  qed
qed

lemma pstrcpy_ok:
  assumes "0 \<in> set str" "0 < buf_size" "int off + buf_size \<le> int (length buf)"
  shows "pstrcpy buf off buf_size str =
    Some (take off buf @ take (nat buf_size - 1) (c_str str) @ 0 #
      drop (off + min (nat buf_size - 1) (length (c_str str)) + 1) buf)"
proof -
  obtain r where r: "str = c_str str @ 0 # r" using c_str_split [OF assms(1)] .
  have "int off + buf_size - 1 = int (off + (nat buf_size - 1))" using assms(2) by simp
  then show ?thesis
    using pstrcpy_loop_correct [of "c_str str" off "nat buf_size - 1" buf 0 "[]" r] assms r
    by (simp add: pstrcpy_def min.commute)
qed

lemma strstart_loop_correct:
  assumes "0 \<notin> set v" "0 \<notin> set s" "length pre = p" "length pre' = q"
  shows "strstart_loop (pre @ s @ 0 # r) p (pre' @ v @ 0 # r') q =
    Some (if take (length v) s = v then (True, p + length v) else (False, 0))"
  using assms
proof (induction v arbitrary: pre pre' s p q)
  case Nil
  then show ?case by (subst strstart_loop.simps) (simp add: rd_def nth_append)
next
  case (Cons a v)
  show ?case
  proof (cases s)
    case Nil
    then show ?thesis using Cons.prems by (subst strstart_loop.simps) (simp add: rd_def nth_append)
  next
    case (Cons b t)
    have "strstart_loop ((pre @ [b]) @ t @ 0 # r) (p + 1) ((pre' @ [a]) @ v @ 0 # r') (q + 1) =
      Some (if take (length v) t = v then (True, p + 1 + length v) else (False, 0))"
      using Cons.prems Cons by (intro Cons.IH) auto
    then show ?thesis using Cons.prems Cons by (subst strstart_loop.simps) (auto simp: rd_def nth_append)
  qed
qed

section \<open>Claims\<close>

text \<open>C22. \<open>pstrcat\<close> appends and truncates: on a buffer of at least \<open>buf_size\<close> bytes it never writes
  at or after \<open>buf_size\<close>, and the string it leaves there is the concatenation cut to
  \<open>buf_size - 1\<close> bytes and still terminated; a string that already fills the buffer is untouched.\<close>

theorem pstrcat_truncates:
  assumes "0 \<in> set buf" "0 \<in> set s" "buf_size \<le> int (length buf)" "length buf < 2 ^ 31"
  shows "\<exists>buf'. pstrcat buf buf_size s = Some buf' \<and> length buf' = length buf
    \<and> drop (nat buf_size) buf' = drop (nat buf_size) buf \<and> 0 \<in> set buf'
    \<and> c_str buf' = (if int (length (c_str buf)) < buf_size
         then take (nat buf_size - 1) (c_str buf @ c_str s) else c_str buf)"
proof -
  obtain r where r: "buf = c_str buf @ 0 # r" using c_str_split [OF assms(1)] .
  define n where "n = length (c_str buf)"
  have n: "n < length buf" using arg_cong [OF r, of length] by (simp add: n_def)
  have len: "strlen buf = Some n" "c_int (int n) = int n"
    using assms(1,4) n by (simp_all add: strlen_def n_def c_int_small)
  show ?thesis
  proof (cases "int n < buf_size")
    case False
    then show ?thesis using len assms(1) by (simp add: pstrcat_def n_def)
  next
    case True
    define m where "m = nat buf_size - 1 - n"
    define t where "t = take m (c_str s)"
    have m: "nat (buf_size - int n) - 1 = m" "n + m < nat buf_size" "length t \<le> m" "nat buf_size \<le> length buf"
      using True assms(3) by (auto simp: m_def t_def)
    have c: "pstrcat buf buf_size s = Some (c_str buf @ t @ 0 # drop (n + length t + 1) buf)"
      using pstrcpy_ok [OF assms(2), of "buf_size - int n" n buf] True len assms(3) m r
      by (simp add: pstrcat_def t_def n_def min.commute) (metis append_eq_conv_conj)
    have t0: "0 \<notin> set (c_str buf @ t)" using set_take_subset [of m "c_str s"] by (auto simp: t_def)
    have "drop (nat buf_size) (c_str buf @ t @ 0 # drop (n + length t + 1) buf) = drop (nat buf_size) buf"
      using m by (simp add: n_def drop_Cons')
    moreover have "c_str (c_str buf @ t @ 0 # drop (n + length t + 1) buf) = c_str buf @ t"
      using c_str_append [OF t0] by simp
    moreover have "take (nat buf_size - 1) (c_str buf @ c_str s) = c_str buf @ t"
      using m(2) by (simp add: t_def m_def n_def)
    moreover have "length (c_str buf @ t @ 0 # drop (n + length t + 1) buf) = length buf"
      using m by (simp add: n_def)
    ultimately show ?thesis using c True by (auto simp: n_def)
  qed
qed

theorem pstrcat_truncates_witness:
  "\<exists>buf'. pstrcat [97, 0, 7, 7, 7 :: u8] 4 [98, 99, 100, 0] = Some buf' \<and> c_str buf' = [97, 98, 99]"
  using pstrcat_truncates [of "[97, 0, 7, 7, 7]" "[98, 99, 100, 0]" 4] by (auto simp: c_str_def)

text \<open>C23. \<open>strstart\<close> and \<open>has_suffix\<close> decide whether one C string is a prefix or a suffix of the
  other; they return for every pair of terminated strings, and \<open>strstart\<close> stores the position
  after the prefix.\<close>

theorem strstart_has_suffix_correct:
  assumes "0 \<in> set str" "0 \<in> set v"
  shows "strstart str v = Some (if prefix (c_str v) (c_str str) then (True, length (c_str v)) else (False, 0))
    \<and> has_suffix str v = Some (suffix (c_str v) (c_str str))"
proof
  obtain r where r: "str = c_str str @ 0 # r" using c_str_split [OF assms(1)] .
  obtain r' where r': "v = c_str v @ 0 # r'" using c_str_split [OF assms(2)] .
  have "prefix (c_str v) (c_str str) \<longleftrightarrow> take (length (c_str v)) (c_str str) = c_str v"
    by (metis append_eq_conv_conj prefix_def take_is_prefix)
  then show "strstart str v = Some (if prefix (c_str v) (c_str str) then (True, length (c_str v)) else (False, 0))"
    using strstart_loop_correct [of "c_str v" "c_str str" "[]" 0 "[]" 0 r r'] r r' by (simp add: strstart_def)
  have s: "suffix (c_str v) (c_str str) \<longleftrightarrow>
      length (c_str v) \<le> length (c_str str) \<and> drop (length (c_str str) - length (c_str v)) (c_str str) = c_str v"
    by (metis suffix_def suffix_length_le append_eq_conv_conj append_take_drop_id length_append diff_add_inverse2)
  have "has_suffix (c_str str @ 0 # r) (c_str v @ 0 # r') = Some (suffix (c_str v) (c_str str))"
    unfolding s by (auto simp: has_suffix_def memcmp_eq_def)
  then show "has_suffix str v = Some (suffix (c_str v) (c_str str))" using r r' by simp
qed

theorem strstart_has_suffix_correct_witness:
  "strstart [97, 98, 99, 0] [97, 98, 0] = Some (True, 2) \<and> has_suffix [97, 98, 99, 0] [98, 99, 0, 5] = Some True"
  using strstart_has_suffix_correct [of "[97, 98, 99, 0]" "[97, 98, 0]"]
    strstart_has_suffix_correct [of "[97, 98, 99, 0]" "[98, 99, 0, 5]"]
  by (simp add: c_str_def suffix_def)

end
