(* ===== verification/Alloc.thy ===== *)
theory Alloc
  imports Bytes CString
begin

text \<open>
  Memory allocation in \<open>src/native/quickjs/quickjs.c\<close>: the default allocator with its accounting
  and limit (\<open>js_def_malloc\<close>, \<open>js_def_free\<close>, \<open>js_def_realloc\<close>) and the wrappers of the runtime and
  of the context.

  A pointer that its holder owns is the block it points to: a list of cells of \<open>cell\<close> bytes each
  whose length is the usable size; a null pointer is \<^term>\<open>None\<close>.  The C library is given by its
  answers: the \<open>n\<close>-th request is refused, or granted with some slack and some indeterminate
  contents.  No object exceeds half of the address space.  The locale \<open>realloc_contract\<close> is what
  the growing containers rely on; it is discharged for the allocator and for the plain C library.
\<close>

section \<open>The C library\<close>

datatype 'e libc_answer = Refuse | Grant nat 'e

record 'e libc =
  lc_answers :: "nat \<Rightarrow> 'e libc_answer"
  lc_calls :: nat

definition cells :: "nat \<Rightarrow> nat \<Rightarrow> nat" where
  "cells cell n = (n + cell - 1) div cell"

definition libc_grant :: "nat \<Rightarrow> nat \<Rightarrow> 'e libc \<Rightarrow> (nat \<times> 'e) option" where
  "libc_grant cell n l = (case lc_answers l (lc_calls l) of
       Refuse \<Rightarrow> None
     | Grant k f \<Rightarrow> if (cells cell n + k) * cell < 2 ^ 63 then Some (cells cell n + k, f) else None)"

definition libc_tick :: "'e libc \<Rightarrow> 'e libc" where
  "libc_tick l = l\<lparr>lc_calls := Suc (lc_calls l)\<rparr>"

definition libc_malloc :: "nat \<Rightarrow> 'e libc \<Rightarrow> nat \<Rightarrow> 'e libc \<times> 'e list option" where
  "libc_malloc cell l n = (libc_tick l, map_option (\<lambda>(c, f). replicate c f) (libc_grant cell n l))"

definition libc_realloc :: "nat \<Rightarrow> 'e libc \<Rightarrow> 'e list option \<Rightarrow> nat \<Rightarrow> 'e libc \<times> 'e list option" where
  "libc_realloc cell l p n = (case p of
       None \<Rightarrow> libc_malloc cell l n
     | Some b \<Rightarrow> (libc_tick l, if n = 0 then None else map_option (\<lambda>(c, f).
         let keep = take (cells cell n) b in keep @ replicate (c - length keep) f) (libc_grant cell n l)))"

section \<open>The default allocator\<close>

record JSMallocState =
  malloc_count :: size_t
  malloc_size :: size_t
  malloc_limit :: size_t

type_synonym 'e mstate = "'e libc \<times> JSMallocState"

text \<open>The value of every build but Apple's, where it is 0.\<close>

definition MALLOC_OVERHEAD :: size_t where
  "MALLOC_OVERHEAD = 8"

definition js_def_malloc_usable_size :: "nat \<Rightarrow> 'e list \<Rightarrow> size_t" where
  "js_def_malloc_usable_size cell b = word_of_nat (length b * cell)"

text \<open>The assertion \<open>size != 0\<close> aborts: no result.\<close>

fun js_def_malloc :: "nat \<Rightarrow> 'e mstate \<Rightarrow> size_t \<Rightarrow> ('e mstate \<times> 'e list option) option" where
  "js_def_malloc cell (l, s) sz =
     (if sz = 0 then None
      else if malloc_size s + sz > malloc_limit s then Some ((l, s), None)
      else case libc_malloc cell l (unat sz) of
        (l', None) \<Rightarrow> Some ((l', s), None)
      | (l', Some b) \<Rightarrow>
          Some ((l', s\<lparr>malloc_count := malloc_count s + 1,
                      malloc_size := malloc_size s + (js_def_malloc_usable_size cell b + MALLOC_OVERHEAD)\<rparr>), Some b))"

fun js_def_free :: "nat \<Rightarrow> 'e mstate \<Rightarrow> 'e list option \<Rightarrow> 'e mstate" where
  "js_def_free cell (l, s) None = (l, s)"
| "js_def_free cell (l, s) (Some b) =
     (l, s\<lparr>malloc_count := malloc_count s - 1,
           malloc_size := malloc_size s - (js_def_malloc_usable_size cell b + MALLOC_OVERHEAD)\<rparr>)"

fun js_def_realloc :: "nat \<Rightarrow> 'e mstate \<Rightarrow> 'e list option \<Rightarrow> size_t \<Rightarrow> ('e mstate \<times> 'e list option) option" where
  "js_def_realloc cell (l, s) None sz =
     (if sz = 0 then Some ((l, s), None) else js_def_malloc cell (l, s) sz)"
| "js_def_realloc cell (l, s) (Some b) sz =
     (let old_size = js_def_malloc_usable_size cell b in
      if sz = 0 then
        Some ((l, s\<lparr>malloc_count := malloc_count s - 1,
                    malloc_size := malloc_size s - (old_size + MALLOC_OVERHEAD)\<rparr>), None)
      else if malloc_size s + sz - old_size > malloc_limit s then Some ((l, s), None)
      else case libc_realloc cell l (Some b) (unat sz) of
        (l', None) \<Rightarrow> Some ((l', s), None)
      | (l', Some b') \<Rightarrow>
          Some ((l', s\<lparr>malloc_size := malloc_size s + (js_def_malloc_usable_size cell b' - old_size)\<rparr>), Some b'))"

section \<open>Runtime and context\<close>

record 'e JSMallocFunctions =
  mf_malloc :: "'e mstate \<Rightarrow> size_t \<Rightarrow> ('e mstate \<times> 'e list option) option"
  mf_free :: "'e mstate \<Rightarrow> 'e list option \<Rightarrow> 'e mstate"
  mf_realloc :: "'e mstate \<Rightarrow> 'e list option \<Rightarrow> size_t \<Rightarrow> ('e mstate \<times> 'e list option) option"
  mf_usable_size :: "'e list \<Rightarrow> size_t"

definition def_malloc_funcs :: "nat \<Rightarrow> 'e JSMallocFunctions" where
  "def_malloc_funcs cell =
     \<lparr>mf_malloc = js_def_malloc cell, mf_free = js_def_free cell, mf_realloc = js_def_realloc cell,
      mf_usable_size = js_def_malloc_usable_size cell\<rparr>"

text \<open>The parts of \<open>JSRuntime\<close> that allocation uses; \<open>rt_oom\<close> records that an out of memory exception
  was thrown.\<close>

record 'e JSRuntime =
  rt_mf :: "'e JSMallocFunctions"
  rt_mem :: "'e mstate"
  rt_oom :: bool

definition JS_SetMemoryLimit :: "'e JSRuntime \<Rightarrow> size_t \<Rightarrow> 'e JSRuntime" where
  "JS_SetMemoryLimit rt limit = rt\<lparr>rt_mem := (fst (rt_mem rt), (snd (rt_mem rt))\<lparr>malloc_limit := limit\<rparr>)\<rparr>"

definition js_malloc_rt :: "'e JSRuntime \<Rightarrow> size_t \<Rightarrow> ('e JSRuntime \<times> 'e list option) option" where
  "js_malloc_rt rt sz = do {
     (m, p) \<leftarrow> mf_malloc (rt_mf rt) (rt_mem rt) sz;
     Some (rt\<lparr>rt_mem := m\<rparr>, p) }"

definition js_free_rt :: "'e JSRuntime \<Rightarrow> 'e list option \<Rightarrow> 'e JSRuntime" where
  "js_free_rt rt p = rt\<lparr>rt_mem := mf_free (rt_mf rt) (rt_mem rt) p\<rparr>"

definition js_realloc_rt :: "'e JSRuntime \<Rightarrow> 'e list option \<Rightarrow> size_t \<Rightarrow> ('e JSRuntime \<times> 'e list option) option" where
  "js_realloc_rt rt p sz = do {
     (m, q) \<leftarrow> mf_realloc (rt_mf rt) (rt_mem rt) p sz;
     Some (rt\<lparr>rt_mem := m\<rparr>, q) }"

definition js_malloc_usable_size_rt :: "'e JSRuntime \<Rightarrow> 'e list option \<Rightarrow> size_t" where
  "js_malloc_usable_size_rt rt p = (case p of None \<Rightarrow> 0 | Some b \<Rightarrow> mf_usable_size (rt_mf rt) b)"

text \<open>\<open>memset(ptr, 0, size)\<close> on an array of bytes.\<close>

definition memset0 :: "u8 list \<Rightarrow> nat \<Rightarrow> u8 list option" where
  "memset0 b n = memcpy_at b 0 (replicate n 0)"

definition js_mallocz_rt :: "u8 JSRuntime \<Rightarrow> size_t \<Rightarrow> (u8 JSRuntime \<times> u8 list option) option" where
  "js_mallocz_rt rt sz = do {
     (rt', p) \<leftarrow> js_malloc_rt rt sz;
     case p of
       None \<Rightarrow> Some (rt', None)
     | Some b \<Rightarrow> do { b' \<leftarrow> memset0 b (unat sz); Some (rt', Some b') } }"

definition throw_oom :: "'e JSRuntime \<Rightarrow> 'e JSRuntime" where
  "throw_oom rt = rt\<lparr>rt_oom := True\<rparr>"

definition js_malloc :: "'e JSRuntime \<Rightarrow> size_t \<Rightarrow> ('e JSRuntime \<times> 'e list option) option" where
  "js_malloc rt sz = do {
     (rt', p) \<leftarrow> js_malloc_rt rt sz;
     if p = None then Some (throw_oom rt', None) else Some (rt', p) }"

definition js_mallocz :: "u8 JSRuntime \<Rightarrow> size_t \<Rightarrow> (u8 JSRuntime \<times> u8 list option) option" where
  "js_mallocz rt sz = do {
     (rt', p) \<leftarrow> js_mallocz_rt rt sz;
     if p = None then Some (throw_oom rt', None) else Some (rt', p) }"

definition js_free :: "'e JSRuntime \<Rightarrow> 'e list option \<Rightarrow> 'e JSRuntime" where
  "js_free rt p = js_free_rt rt p"

definition js_realloc :: "'e JSRuntime \<Rightarrow> 'e list option \<Rightarrow> size_t \<Rightarrow> ('e JSRuntime \<times> 'e list option) option" where
  "js_realloc rt p sz = do {
     (rt', q) \<leftarrow> js_realloc_rt rt p sz;
     if q = None \<and> sz \<noteq> 0 then Some (throw_oom rt', None) else Some (rt', q) }"

text \<open>The third result is \<open>*pslack\<close>, which is stored only when the call succeeds.\<close>

definition js_realloc2 ::
  "'e JSRuntime \<Rightarrow> 'e list option \<Rightarrow> size_t \<Rightarrow> ('e JSRuntime \<times> 'e list option \<times> size_t option) option" where
  "js_realloc2 rt p sz = do {
     (rt', q) \<leftarrow> js_realloc_rt rt p sz;
     if q = None \<and> sz \<noteq> 0 then Some (throw_oom rt', None, None)
     else let new_size = js_malloc_usable_size_rt rt' q in
       Some (rt', q, Some (if new_size > sz then new_size - sz else 0)) }"

definition js_strndup :: "u8 JSRuntime \<Rightarrow> u8 list \<Rightarrow> size_t \<Rightarrow> (u8 JSRuntime \<times> u8 list option) option" where
  "js_strndup rt s n = do {
     (rt', p) \<leftarrow> js_malloc rt (n + 1);
     case p of
       None \<Rightarrow> Some (rt', None)
     | Some b \<Rightarrow> (if length s < unat n then None else do {
         b1 \<leftarrow> memcpy_at b 0 (take (unat n) s);
         b2 \<leftarrow> wr b1 (unat n) 0;
         Some (rt', Some b2) }) }"

definition js_strdup :: "u8 JSRuntime \<Rightarrow> u8 list \<Rightarrow> (u8 JSRuntime \<times> u8 list option) option" where
  "js_strdup rt str = do {
     n \<leftarrow> strlen str;
     js_strndup rt str (word_of_nat n) }"

text \<open>The array, its element count and the return value.  The products are of type \<open>int\<close>: an
  overflow is undefined.  \<open>new_size += slack / elem_size\<close> converts back to \<open>int\<close>.\<close>

definition js_realloc_array ::
  "'e JSRuntime \<Rightarrow> 'e list option \<Rightarrow> int \<Rightarrow> int \<Rightarrow> int \<Rightarrow> ('e JSRuntime \<times> 'e list option \<times> int \<times> int) option" where
  "js_realloc_array rt arr elem_size psize req_size =
     (if \<not> (- (2 ^ 31) \<le> psize * 3 \<and> psize * 3 < 2 ^ 31) then None
      else let new_size = max_int req_size (psize * 3 div 2) in
        if \<not> (- (2 ^ 31) \<le> new_size * elem_size \<and> new_size * elem_size < 2 ^ 31) then None
        else do {
          (rt', p, slack) \<leftarrow> js_realloc2 rt arr (word_of_int (new_size * elem_size));
          case (p, slack) of
            (Some b, Some k) \<Rightarrow>
              Some (rt', Some b, c_int (uint (word_of_int new_size + k div word_of_int elem_size :: size_t)), 0)
          | _ \<Rightarrow> Some (rt', arr, psize, -1) })"

definition js_resize_array ::
  "'e JSRuntime \<Rightarrow> 'e list option \<Rightarrow> int \<Rightarrow> int \<Rightarrow> int \<Rightarrow> ('e JSRuntime \<times> 'e list option \<times> int \<times> int) option" where
  "js_resize_array rt arr elem_size psize req_size =
     (if req_size > psize then js_realloc_array rt arr elem_size psize req_size
      else Some (rt, arr, psize, 0))"

section \<open>The contract of a reallocation function\<close>

lemma cells_mult: "0 < cell \<Longrightarrow> n \<le> cells cell n * cell"
proof -
  assume c: "0 < cell"
  have "(n + cell - 1) mod cell < cell" using c by simp
  moreover have "(n + cell - 1) div cell * cell + (n + cell - 1) mod cell = n + cell - 1" by simp
  ultimately show ?thesis unfolding cells_def by linarith
qed

lemma cells_exact: "0 < cell \<Longrightarrow> cells cell (n * cell) = n"
  unfolding cells_def by (intro div_nat_eqI) (auto simp: mult.commute)

text \<open>A successful call returns a block of at least the requested size that starts with the old
  contents; a request for some memory never aborts.\<close>

locale realloc_contract =
  fixes ra :: "'m \<Rightarrow> 'e list option \<Rightarrow> size_t \<Rightarrow> ('m \<times> 'e list option) option" and cell :: nat
  assumes ra_total: "\<exists>r. ra m p sz = Some r"
    and ra_size: "ra m p sz = Some (m', Some b) \<Longrightarrow> unat sz \<le> length b * cell"
    and ra_keep: "ra m (Some b) sz = Some (m', Some b') \<Longrightarrow> k \<le> length b \<Longrightarrow> k * cell \<le> unat sz \<Longrightarrow>
      take k b' = take k b"

lemma libc_grant_size: "libc_grant cell n l = Some (c, f) \<Longrightarrow> cells cell n \<le> c \<and> c * cell < 2 ^ 63"
  by (auto simp: libc_grant_def split: libc_answer.splits if_splits)

lemma libc_malloc_size: "libc_malloc cell l n = (l', Some b) \<Longrightarrow> cells cell n \<le> length b \<and> length b * cell < 2 ^ 63"
  by (auto simp: libc_malloc_def dest: libc_grant_size)

lemma libc_realloc_size:
  "libc_realloc cell l p n = (l', Some b) \<Longrightarrow> cells cell n \<le> length b \<and> length b * cell < 2 ^ 63"
  by (auto simp: libc_realloc_def Let_def min_def dest!: libc_grant_size libc_malloc_size
      split: option.splits if_splits)

lemma libc_realloc_keep:
  "libc_realloc cell l (Some b) n = (l', Some b') \<Longrightarrow> k \<le> length b \<Longrightarrow> k \<le> cells cell n \<Longrightarrow> take k b' = take k b"
  by (auto simp: libc_realloc_def Let_def min_def split: if_splits)

lemma cells_le: "0 < cell \<Longrightarrow> k * cell \<le> n \<Longrightarrow> k \<le> cells cell n"
  unfolding cells_def by (simp add: less_eq_div_iff_mult_less_eq)

lemma cells_bytes: "0 < cell \<Longrightarrow> cells cell n \<le> k \<Longrightarrow> n \<le> k * cell"
  using cells_mult [of cell n] mult_le_mono1 [of "cells cell n" k cell] by linarith

lemma libc_realloc_contract:
  assumes "0 < cell"
  shows "realloc_contract (\<lambda>l p sz. Some (libc_realloc cell l p (unat sz))) cell"
proof
  show "unat sz \<le> length b * cell" if "Some (libc_realloc cell m p (unat sz)) = Some (m', Some b)" for m p sz m' b
    using that cells_bytes [OF assms] libc_realloc_size [of cell m p "unat sz" m' b] by auto
  show "take k b' = take k b"
    if "Some (libc_realloc cell m (Some b) (unat sz)) = Some (m', Some b')" "k \<le> length b" "k * cell \<le> unat sz"
    for m b sz m' b' k
    using that libc_realloc_keep [of cell m b "unat sz" m' b' k] cells_le [OF assms, of k "unat sz"] by simp
qed simp

lemma js_def_realloc_cases:
  assumes "js_def_realloc cell (l, s) p sz = Some ((l', s'), Some b')"
  shows "\<exists>l''. libc_realloc cell l p (unat sz) = (l'', Some b') \<and> sz \<noteq> 0"
  using assms by (cases p) (auto simp: libc_realloc_def Let_def split: if_splits option.splits prod.splits)

lemma js_def_realloc_contract:
  assumes "0 < cell"
  shows "realloc_contract (js_def_realloc cell) cell"
proof
  fix m :: "'e mstate" and p sz
  obtain l s where m: "m = (l, s)" by (cases m)
  show "\<exists>r. js_def_realloc cell m p sz = Some r"
    by (cases p) (auto simp: m Let_def split: option.splits prod.splits)
  show "unat sz \<le> length b * cell" if "js_def_realloc cell m p sz = Some (m', Some b)" for m' b
    using that js_def_realloc_cases [of cell l s p sz] cells_bytes [OF assms] libc_realloc_size [of cell l p "unat sz"]
    by (cases m') (fastforce simp: m)
  show "take k b' = take k b"
    if "js_def_realloc cell m (Some b) sz = Some (m', Some b')" "k \<le> length b" "k * cell \<le> unat sz" for b m' b' k
    using that js_def_realloc_cases [of cell l s "Some b" sz] libc_realloc_keep [of cell l b "unat sz" _ b' k]
      cells_le [OF assms, of k "unat sz"]
    by (cases m') (auto simp: m)
qed

interpretation js_bytes: realloc_contract "js_def_realloc 1" 1
  by (rule js_def_realloc_contract) simp

interpretation js_words: realloc_contract "js_def_realloc 4" 4
  by (rule js_def_realloc_contract) simp

interpretation libc_bytes: realloc_contract "\<lambda>l p sz. Some (libc_realloc 1 l p (unat sz))" 1
  by (rule libc_realloc_contract) simp

interpretation libc_words: realloc_contract "\<lambda>l p sz. Some (libc_realloc 4 l p (unat sz))" 4
  by (rule libc_realloc_contract) simp

section \<open>Accounting\<close>

text \<open>Any sequence of allocator calls, with the blocks that are live after it.\<close>

inductive alloc_reach :: "nat \<Rightarrow> 'e mstate \<Rightarrow> 'e list list \<Rightarrow> bool" for cell where
  start: "alloc_reach cell (l, \<lparr>malloc_count = 0, malloc_size = 0, malloc_limit = lim\<rparr>) []"
| malloc: "alloc_reach cell m Bs \<Longrightarrow> js_def_malloc cell m sz = Some (m', p) \<Longrightarrow>
    alloc_reach cell m' (case p of None \<Rightarrow> Bs | Some b \<Rightarrow> b # Bs)"
| free: "alloc_reach cell m (As @ b # Bs) \<Longrightarrow> alloc_reach cell (js_def_free cell m (Some b)) (As @ Bs)"
| realloc: "alloc_reach cell m (As @ b # Bs) \<Longrightarrow> js_def_realloc cell m (Some b) sz = Some (m', p) \<Longrightarrow>
    alloc_reach cell m' (As @ (case p of None \<Rightarrow> if sz = 0 then Bs else b # Bs | Some b' \<Rightarrow> b' # Bs))"
| realloc_null: "alloc_reach cell m Bs \<Longrightarrow> js_def_realloc cell m None sz = Some (m', p) \<Longrightarrow>
    alloc_reach cell m' (case p of None \<Rightarrow> Bs | Some b \<Rightarrow> b # Bs)"
| limit: "alloc_reach cell (l, s) Bs \<Longrightarrow> alloc_reach cell (l, s\<lparr>malloc_limit := lim\<rparr>) Bs"

definition accounted :: "nat \<Rightarrow> JSMallocState \<Rightarrow> 'e list list \<Rightarrow> bool" where
  "accounted cell s Bs \<longleftrightarrow> malloc_count s = word_of_nat (length Bs) \<and>
     malloc_size s = word_of_nat (\<Sum>b\<leftarrow>Bs. length b * cell + 8)"

lemma accounted_malloc:
  "accounted cell (snd m) Bs \<Longrightarrow> js_def_malloc cell m sz = Some (m', p) \<Longrightarrow>
   accounted cell (snd m') (case p of None \<Rightarrow> Bs | Some b \<Rightarrow> b # Bs)"
  by (cases m) (auto simp: accounted_def js_def_malloc_usable_size_def MALLOC_OVERHEAD_def
      split: if_splits option.splits prod.splits)

lemma accounted_free:
  "accounted cell (snd m) (As @ b # Bs) \<Longrightarrow> accounted cell (snd (js_def_free cell m (Some b))) (As @ Bs)"
  by (cases m) (auto simp: accounted_def js_def_malloc_usable_size_def MALLOC_OVERHEAD_def)

lemma accounted_realloc:
  "accounted cell (snd m) (As @ b # Bs) \<Longrightarrow> js_def_realloc cell m (Some b) sz = Some (m', p) \<Longrightarrow>
   accounted cell (snd m') (As @ (case p of None \<Rightarrow> if sz = 0 then Bs else b # Bs | Some b' \<Rightarrow> b' # Bs))"
  by (cases m) (auto simp: accounted_def js_def_malloc_usable_size_def MALLOC_OVERHEAD_def Let_def
      split: if_splits option.splits prod.splits)

lemma alloc_reach_accounted: "alloc_reach cell m Bs \<Longrightarrow> accounted cell (snd m) Bs"
proof (induction rule: alloc_reach.induct)
  case (malloc m Bs sz m' p)
  show ?case by (rule accounted_malloc [OF malloc.IH malloc.hyps(2)])
next
  case (free m As b Bs)
  show ?case by (rule accounted_free [OF free.IH])
next
  case (realloc m As b Bs sz m' p)
  show ?case by (rule accounted_realloc [OF realloc.IH realloc.hyps(2)])
next
  case (realloc_null m Bs sz m' p)
  then show ?case using accounted_malloc [of cell m Bs sz m' p]
    by (cases m) (auto split: if_splits)
qed (auto simp: accounted_def)

section \<open>Growing arrays\<close>

text \<open>The arrays are blocks of bytes, so that the usable size of a block need not be a multiple of the
  size of an element.  The C library adds less than \<open>2 ^ 30\<close> bytes to what was requested.\<close>

definition small_slack :: "'e libc \<Rightarrow> bool" where
  "small_slack l \<longleftrightarrow> (\<forall>n k f. lc_answers l n = Grant k f \<longrightarrow> k < 2 ^ 30)"

lemma libc_realloc_slack:
  assumes "libc_realloc cell l p n = (l', Some b)" "small_slack l"
  shows "length b < cells cell n + 2 ^ 30"
proof -
  have sl: "lc_answers l m = Grant k f \<Longrightarrow> k < 2 ^ 30" for m k f
    using assms(2) unfolding small_slack_def by blast
  have "c < cells cell n + 2 ^ 30" if "libc_grant cell n l = Some (c, f)" for c f
    using that unfolding libc_grant_def by (auto split: libc_answer.splits if_splits dest: sl)
  then show ?thesis
    using assms(1) by (auto simp: libc_realloc_def libc_malloc_def Let_def min_def split: option.splits if_splits)
qed

lemma unat_word_of_nat_size: "n < 2 ^ 64 \<Longrightarrow> unat (word_of_nat n :: size_t) = n"
  by (simp add: unsigned_of_nat take_bit_nat_eq_self)

lemma unat_size_diff:
  "b \<le> a \<Longrightarrow> a < 2 ^ 64 \<Longrightarrow>
   unat (if (word_of_nat a :: size_t) > word_of_nat b then word_of_nat a - word_of_nat b else 0 :: size_t) = a - b"
  by (auto simp: word_less_nat_alt unat_sub word_le_nat_alt unat_word_of_nat_size)

text \<open>The element count that \<open>js_realloc_array\<close> stores is the number of whole elements in the block.\<close>

lemma array_capacity:
  assumes n: "0 < es" "n * es \<le> len" "len < 2 ^ 31" "0 < n"
  shows "c_int (uint (word_of_int (int n) +
      (if (word_of_nat len :: size_t) > word_of_int (int n * int es)
       then word_of_nat len - word_of_int (int n * int es) else 0) div word_of_int (int es) :: size_t)) = int (len div es)"
proof -
  have "es \<le> n * es" "n \<le> n * es" using n(1,4) by auto
  then have small: "es < 2 ^ 31" "n < 2 ^ 31" using n(2,3) by linarith+
  let ?k = "if (word_of_nat len :: size_t) > word_of_int (int n * int es)
       then word_of_nat len - word_of_int (int n * int es) else 0 :: size_t"
  have w: "(word_of_int (int n * int es) :: size_t) = word_of_nat (n * es)" by simp
  have "unat ?k = len - n * es"
    unfolding w using n by (intro unat_size_diff) auto
  then have "unat (?k div word_of_int (int es)) = (len - n * es) div es"
    using small by (simp add: unat_div unat_word_of_nat_size)
  also have "\<dots> = len div es - n" using div_mult_self1 [of es "len - n * es" n] n(1,2) by simp
  finally have d: "unat (?k div word_of_int (int es)) = len div es - n" .
  have le: "n \<le> len div es" using n(1,2) by (simp add: less_eq_div_iff_mult_less_eq)
  have "len div es \<le> len" by simp
  then have s2: "len div es < 2 ^ 31" using n(3) by linarith
  have "unat (word_of_int (int n) + ?k div word_of_int (int es)) = len div es"
    using d le small s2 by (subst unat_add_lem [THEN iffD1]) (auto simp: unat_word_of_nat_size)
  then have "uint (word_of_int (int n) + ?k div word_of_int (int es)) = int (len div es)" by (metis uint_nat)
  then show ?thesis using s2 by (simp add: c_int_small)
qed

definition blk :: "'e list option \<Rightarrow> 'e list" where
  "blk p = (case p of None \<Rightarrow> [] | Some b \<Rightarrow> b)"

text \<open>What a request for an array of \<open>n\<close> elements of \<open>es\<close> bytes gives: the number of elements is what fits
  into the new block and the old elements are kept; or the allocator refused and nothing but the
  pending exception and the C library has changed.\<close>

definition resized :: "u8 JSRuntime \<Rightarrow> u8 list option \<Rightarrow> int \<Rightarrow> int \<Rightarrow> int \<Rightarrow> u8 JSRuntime \<times> u8 list option \<times> int \<times> int \<Rightarrow> bool" where
  "resized rt arr es psize n = (\<lambda>(rt', arr', psize', r).
     r = 0 \<and> n \<le> psize' \<and> psize' = int (length (blk arr')) div es
       \<and> take (nat (psize * es)) (blk arr') = take (nat (psize * es)) (blk arr) \<and> rt_oom rt' = rt_oom rt
     \<or> r = -1 \<and> arr' = arr \<and> psize' = psize \<and> snd (rt_mem rt') = snd (rt_mem rt)
       \<and> rt' = rt\<lparr>rt_mem := rt_mem rt', rt_oom := True\<rparr>
       \<and> (\<exists>m. js_def_realloc 1 (rt_mem rt) arr (word_of_int (n * es)) = Some (m, None)))"

lemma js_def_realloc_refused:
  "js_def_realloc cell m p sz = Some (m', None) \<Longrightarrow> sz \<noteq> 0 \<Longrightarrow> snd m' = snd m"
  by (cases m; cases p) (auto simp: Let_def split: if_splits option.splits prod.splits)

lemma js_realloc_array_ok:
  assumes mf: "rt_mf rt = def_malloc_funcs 1" "rt_mem rt = (l, s)" "small_slack l" and es: "0 < es"
    and sz: "0 \<le> psize" "psize * 3 < 2 ^ 31" "psize * int es \<le> int (length (blk arr))" "psize < req"
      "max req (psize * 3 div 2) * int es < 2 ^ 30"
  shows "ok (js_realloc_array rt arr (int es) psize req) (resized rt arr (int es) psize (max req (psize * 3 div 2)))"
proof -
  define n where "n = nat (max req (psize * 3 div 2))"
  have n: "max req (psize * 3 div 2) = int n" "0 < n" "nat psize \<le> n" using sz by (auto simp: n_def)
  have "int (n * es) < int (2 ^ 30)" using sz(5) n(1) by simp
  then have nc: "n * es < 2 ^ 30" by (simp only: of_nat_less_iff)
  define w :: size_t where "w = word_of_int (int n * int es)"
  have uw: "unat w = n * es" unfolding w_def using nc by (simp flip: of_nat_mult add: unat_word_of_nat_size)
  have w0: "w \<noteq> 0" using uw n(2) es by auto
  obtain m' q where q: "js_def_realloc 1 (l, s) arr w = Some (m', q)" using js_bytes.ra_total [of "(l, s)" arr w] by auto
  have rt: "js_realloc_rt rt arr w = Some (rt\<lparr>rt_mem := m'\<rparr>, q)"
    using q mf by (simp add: js_realloc_rt_def def_malloc_funcs_def)
  have guard: "- (2 ^ 31) \<le> psize * 3 \<and> psize * 3 < 2 ^ 31" "- (2 ^ 31) \<le> int n * int es \<and> int n * int es < 2 ^ 31"
    using sz(1,2) nc by (auto simp flip: of_nat_mult)
  show ?thesis
  proof (cases q)
    case None
    have "js_realloc2 rt arr w = Some (throw_oom (rt\<lparr>rt_mem := m'\<rparr>), None, None)"
      using rt None w0 by (simp add: js_realloc2_def)
    moreover have "snd m' = s" using js_def_realloc_refused [of 1 "(l, s)" arr w m'] q None w0 by simp
    ultimately show ?thesis
      unfolding js_realloc_array_def max_int_eq n(1) Let_def w_def [symmetric]
      using guard q None mf(2) by (simp add: throw_oom_def resized_def w_def)
  next
    case (Some b)
    obtain l'' where lr: "libc_realloc 1 l arr (n * es) = (l'', Some b)"
      using js_def_realloc_cases [of 1 l s arr w "fst m'" "snd m'" b] q Some uw by auto
    have "length b < n * es + 2 ^ 30" using libc_realloc_slack [OF lr mf(3)] by (simp add: cells_def)
    then have cap: "length b < 2 ^ 31" using nc by simp
    have ln: "n * es \<le> length b" using js_bytes.ra_size [of "(l, s)" arr w m' b] q Some uw by simp
    define k where "k = (if js_def_malloc_usable_size 1 b > w then js_def_malloc_usable_size 1 b - w else 0)"
    have "js_realloc2 rt arr w = Some (rt\<lparr>rt_mem := m'\<rparr>, Some b, Some k)"
      using rt Some mf(1) by (simp add: js_realloc2_def js_malloc_usable_size_rt_def def_malloc_funcs_def k_def Let_def)
    moreover have "c_int (uint (word_of_int (int n) + k div word_of_int (int es) :: size_t)) = int (length b div es)"
      using array_capacity [OF es ln cap n(2)] unfolding k_def w_def js_def_malloc_usable_size_def mult_1_right .
    moreover have "take (nat (psize * int es)) b = take (nat (psize * int es)) (blk arr)"
    proof (cases arr)
      case (Some a)
      have u: "nat (psize * int es) = nat psize * es" using sz(1) by (simp add: nat_mult_distrib)
      have "nat psize * es \<le> n * es" using n(3) by simp
      then have "take (nat (psize * int es)) b = take (nat (psize * int es)) a"
        by (intro js_bytes.ra_keep [of "(l, s)" a w m'])
          (use q \<open>q = Some b\<close> Some sz(3) uw u in \<open>auto simp: blk_def\<close>)
      then show ?thesis using Some by (simp add: blk_def)
    qed (use sz(1,3) es in \<open>simp add: blk_def\<close>)
    moreover have "int n \<le> int (length b div es)" using ln es by (simp add: less_eq_div_iff_mult_less_eq)
    ultimately show ?thesis
      unfolding js_realloc_array_def max_int_eq n(1) Let_def w_def [symmetric]
      using guard by (simp add: blk_def resized_def zdiv_int)
  qed
qed

section \<open>Claims\<close>

text \<open>C5. After any sequence of allocations, releases, reallocations and changes of the limit,
  \<open>malloc_count\<close> is the number of live blocks and \<open>malloc_size\<close> the sum of their usable sizes and
  overheads, in \<open>size_t\<close> arithmetic, whatever calls the C library refused.\<close>

theorem malloc_accounting_invariant:
  assumes "alloc_reach cell (l, s) Bs"
  shows "malloc_count s = word_of_nat (length Bs)
    \<and> malloc_size s = word_of_nat (\<Sum>b\<leftarrow>Bs. length b * cell + 8)"
  using alloc_reach_accounted [OF assms] by (simp add: accounted_def)

definition libc_example :: "u8 libc" where
  "libc_example = \<lparr>lc_answers = (\<lambda>n. if n = 1 then Refuse else Grant 8 0), lc_calls = 0\<rparr>"

theorem malloc_accounting_invariant_witness:
  "malloc_size (snd (fst (the (js_def_malloc 1 (libc_example, \<lparr>malloc_count = 0, malloc_size = 0, malloc_limit = -1\<rparr>) 16)))) = 32"
proof -
  let ?m = "(libc_example, \<lparr>malloc_count = 0, malloc_size = 0, malloc_limit = -1\<rparr>)"
  have run: "js_def_malloc 1 ?m 16 = Some ((libc_example\<lparr>lc_calls := 1\<rparr>,
      \<lparr>malloc_count = 1, malloc_size = 32, malloc_limit = -1\<rparr>), Some (replicate 24 0))"
    by (simp add: libc_example_def libc_malloc_def libc_grant_def libc_tick_def cells_def
        js_def_malloc_usable_size_def MALLOC_OVERHEAD_def)
  have "alloc_reach 1 (libc_example\<lparr>lc_calls := 1\<rparr>,
      \<lparr>malloc_count = 1, malloc_size = 32, malloc_limit = -1\<rparr>) [replicate 24 0]"
    using alloc_reach.malloc [OF alloc_reach.start run] by simp
  from malloc_accounting_invariant [OF this] show ?thesis using run by simp
qed

text \<open>C18. \<open>js_resize_array\<close> on a byte block that holds \<open>psize\<close> elements of \<open>es\<close> bytes, when the requested
  and the grown number of elements take less than \<open>2 ^ 30\<close> bytes and the C library rounds blocks up by
  less than that.  A request for no more elements than there are changes nothing.  Otherwise it returns 0,
  the new count is the number of whole elements in the new block, at least the requested one and at least
  half as many again as before, and the old elements are kept; or the allocator refused, and it returns -1 with
  an out of memory exception while array, count and the accounting of the allocator are as before.\<close>

theorem js_resize_array_correct:
  fixes rt :: "u8 JSRuntime"
  assumes "rt_mf rt = def_malloc_funcs 1" "rt_mem rt = (l, s)" "small_slack l" "0 < es"
    and "0 \<le> psize" "psize * 3 < 2 ^ 31" "psize * int es \<le> int (length (blk arr))" "max req (psize * 3 div 2) * int es < 2 ^ 30"
  shows "\<exists>rt' arr' psize' r. js_resize_array rt arr (int es) psize req = Some (rt', arr', psize', r) \<and>
    (if req \<le> psize then rt' = rt \<and> arr' = arr \<and> psize' = psize \<and> r = 0
     else r = 0 \<and> max req (psize * 3 div 2) \<le> psize' \<and> psize' = int (length (blk arr')) div int es
         \<and> take (nat (psize * int es)) (blk arr') = take (nat (psize * int es)) (blk arr) \<and> rt_oom rt' = rt_oom rt
       \<or> r = -1 \<and> arr' = arr \<and> psize' = psize \<and> rt_oom rt' \<and> snd (rt_mem rt') = s
         \<and> (\<exists>m. js_def_realloc 1 (l, s) arr (word_of_int (max req (psize * 3 div 2) * int es)) = Some (m, None)))"
proof (cases "psize < req")
  case True
  obtain rt' arr' psize' r where g: "js_realloc_array rt arr (int es) psize req = Some (rt', arr', psize', r)"
    "resized rt arr (int es) psize (max req (psize * 3 div 2)) (rt', arr', psize', r)"
    using js_realloc_array_ok [OF assms(1-4) assms(5-7) True assms(8)] by (auto elim!: okE)
  have "rt_oom rt'" if "rt' = rt\<lparr>rt_mem := rt_mem rt', rt_oom := True\<rparr>" by (subst that) simp
  then show ?thesis using g True assms(2) by (auto simp: js_resize_array_def resized_def)
next
  case False
  then show ?thesis by (simp add: js_resize_array_def)
qed

definition rt_example :: "u8 JSRuntime" where
  "rt_example = \<lparr>rt_mf = def_malloc_funcs 1,
     rt_mem = (\<lparr>lc_answers = (\<lambda>n. Grant 6 0), lc_calls = 0\<rparr>, \<lparr>malloc_count = 1, malloc_size = 17, malloc_limit = -1\<rparr>), rt_oom = False\<rparr>"

text \<open>Two elements of four bytes, then five are requested: the block has 26 bytes and holds six.\<close>

theorem js_resize_array_correct_witness:
  "\<exists>rt' arr'. js_resize_array rt_example (Some [1, 2, 3, 4, 5, 6, 7, 8, 9]) 4 2 5 = Some (rt', Some arr', 6, 0)
    \<and> length arr' = 26 \<and> take 8 arr' = [1, 2, 3, 4, 5, 6, 7, 8]"
proof -
  let ?arr = "Some [1, 2, 3, 4, 5, 6, 7, 8, 9 :: u8]"
  have run: "\<exists>rt' arr'. js_resize_array rt_example ?arr 4 2 5 = Some (rt', Some arr', 6, 0) \<and> length arr' = 26"
    by (simp add: js_resize_array_def js_realloc_array_def js_realloc2_def js_realloc_rt_def js_malloc_usable_size_rt_def
        rt_example_def def_malloc_funcs_def js_def_malloc_usable_size_def libc_realloc_def libc_grant_def libc_tick_def
        cells_def c_int_def MALLOC_OVERHEAD_def)
  have "small_slack \<lparr>lc_answers = (\<lambda>n. Grant 6 (0 :: u8)), lc_calls = 0\<rparr>" by (simp add: small_slack_def)
  from js_resize_array_correct [of rt_example _ _ 4 2 ?arr 5, OF _ _ this]
  show ?thesis using run by (auto simp: rt_example_def blk_def)
qed

end
