(* ===== verification/DynBuf.thy ===== *)
theory DynBuf
  imports Alloc
begin

text \<open>
  The dynamic buffers of \<open>src/native/quickjs/cutils.c\<close> and \<open>cutils.h\<close>.  The allocation function
  \<open>realloc_func\<close> with its \<open>opaque\<close> state is a parameter; what the buffer relies on is the locale
  \<open>realloc_contract\<close>, and the claims are stated for the allocator of the runtime.  Sizes are \<open>size_t\<close>
  values with their wrap-around.  A copy of no bytes to a null buffer is a no-op, as in every C
  library.
\<close>

section \<open>State and operations\<close>

record DynBuf =
  db_buf :: "u8 list option"
  db_size :: size_t
  db_alloc :: size_t
  db_error :: bool

type_synonym 'm realloc_f = "'m \<Rightarrow> u8 list option \<Rightarrow> size_t \<Rightarrow> ('m \<times> u8 list option) option"

definition dbuf_init2 :: DynBuf where
  "dbuf_init2 = \<lparr>db_buf = None, db_size = 0, db_alloc = 0, db_error = False\<rparr>"

definition dbuf_realloc :: "'m realloc_f \<Rightarrow> 'm \<Rightarrow> DynBuf \<Rightarrow> size_t \<Rightarrow> ('m \<times> DynBuf \<times> int) option" where
  "dbuf_realloc ra m s new_size =
     (if new_size > db_alloc s then
        (if db_error s then Some (m, s, -1)
         else
           let sz = db_alloc s * 3 div 2;
               new_size' = (if sz > new_size then sz else new_size)
           in do {
             (m', p) \<leftarrow> ra m (db_buf s) new_size';
             case p of
               None \<Rightarrow> Some (m', s\<lparr>db_error := True\<rparr>, -1)
             | Some b \<Rightarrow> Some (m', s\<lparr>db_buf := Some b, db_alloc := new_size'\<rparr>, 0) })
      else Some (m, s, 0))"

text \<open>\<open>memcpy(s->buf + off, data, len)\<close>.\<close>

definition dbuf_store :: "DynBuf \<Rightarrow> nat \<Rightarrow> u8 list \<Rightarrow> DynBuf option" where
  "dbuf_store s off data =
     (if data = [] then Some s
      else case db_buf s of
        None \<Rightarrow> None
      | Some b \<Rightarrow> do { b' \<leftarrow> memcpy_at b off data; Some (s\<lparr>db_buf := Some b'\<rparr>) })"

definition dbuf_write :: "'m realloc_f \<Rightarrow> 'm \<Rightarrow> DynBuf \<Rightarrow> size_t \<Rightarrow> u8 list \<Rightarrow> ('m \<times> DynBuf \<times> int) option" where
  "dbuf_write ra m s offset data = do {
     let end_pos = offset + word_of_nat (length data);
     (m1, s1, r) \<leftarrow> dbuf_realloc ra m s end_pos;
     if r \<noteq> 0 then Some (m1, s1, -1)
     else do {
       s2 \<leftarrow> dbuf_store s1 (unat offset) data;
       Some (m1, if end_pos > db_size s2 then s2\<lparr>db_size := end_pos\<rparr> else s2, 0) } }"

definition dbuf_grow :: "'m realloc_f \<Rightarrow> 'm \<Rightarrow> DynBuf \<Rightarrow> size_t \<Rightarrow> ('m \<times> DynBuf \<times> int) option" where
  "dbuf_grow ra m s len =
     (if db_size s + len > db_alloc s then dbuf_realloc ra m s (db_size s + len) else Some (m, s, 0))"

definition dbuf_put :: "'m realloc_f \<Rightarrow> 'm \<Rightarrow> DynBuf \<Rightarrow> u8 list \<Rightarrow> ('m \<times> DynBuf \<times> int) option" where
  "dbuf_put ra m s data = do {
     let len = word_of_nat (length data);
     (m1, s1, r) \<leftarrow> dbuf_grow ra m s len;
     if r \<noteq> 0 then Some (m1, s1, -1)
     else do {
       s2 \<leftarrow> dbuf_store s1 (unat (db_size s1)) data;
       Some (m1, s2\<lparr>db_size := db_size s2 + len\<rparr>, 0) } }"

text \<open>\<open>memcpy\<close> between overlapping regions of the buffer is undefined.\<close>

definition dbuf_put_self :: "'m realloc_f \<Rightarrow> 'm \<Rightarrow> DynBuf \<Rightarrow> size_t \<Rightarrow> size_t \<Rightarrow> ('m \<times> DynBuf \<times> int) option" where
  "dbuf_put_self ra m s offset len = do {
     (m1, s1, r) \<leftarrow> dbuf_grow ra m s len;
     if r \<noteq> 0 then Some (m1, s1, -1)
     else if unat offset + unat len > length (blk (db_buf s1))
         \<or> (unat offset < unat (db_size s1) + unat len \<and> unat (db_size s1) < unat offset + unat len \<and> len \<noteq> 0) then None
     else do {
       s2 \<leftarrow> dbuf_store s1 (unat (db_size s1)) (take (unat len) (drop (unat offset) (blk (db_buf s1))));
       Some (m1, s2\<lparr>db_size := db_size s2 + len\<rparr>, 0) } }"

definition dbuf_putc :: "'m realloc_f \<Rightarrow> 'm \<Rightarrow> DynBuf \<Rightarrow> u8 \<Rightarrow> ('m \<times> DynBuf \<times> int) option" where
  "dbuf_putc ra m s c = dbuf_put ra m s [c]"

definition dbuf_putstr :: "'m realloc_f \<Rightarrow> 'm \<Rightarrow> DynBuf \<Rightarrow> u8 list \<Rightarrow> ('m \<times> DynBuf \<times> int) option" where
  "dbuf_putstr ra m s str = do {
     n \<leftarrow> strlen str;
     dbuf_put ra m s (take n str) }"

definition dbuf_put_u16 :: "'m realloc_f \<Rightarrow> 'm \<Rightarrow> DynBuf \<Rightarrow> u16 \<Rightarrow> ('m \<times> DynBuf \<times> int) option" where
  "dbuf_put_u16 ra m s val = dbuf_put ra m s (le_bytes 2 val)"

definition dbuf_put_u32 :: "'m realloc_f \<Rightarrow> 'm \<Rightarrow> DynBuf \<Rightarrow> u32 \<Rightarrow> ('m \<times> DynBuf \<times> int) option" where
  "dbuf_put_u32 ra m s val = dbuf_put ra m s (le_bytes 4 val)"

definition dbuf_put_u64 :: "'m realloc_f \<Rightarrow> 'm \<Rightarrow> DynBuf \<Rightarrow> u64 \<Rightarrow> ('m \<times> DynBuf \<times> int) option" where
  "dbuf_put_u64 ra m s val = dbuf_put ra m s (le_bytes 8 val)"

text \<open>A call of \<open>vsnprintf\<close> with the format and arguments of the caller either has a text to print, or fails: it
  has stored some bytes by then and returns a negative value.  A text whose length is no \<open>int\<close> is such a
  failure.  At most \<open>n - 1\<close> characters and a zero are stored; the second result is \<open>len\<close>.\<close>

datatype printf_result = Text "u8 list" | Fail int "u8 list"

fun vsnprintf :: "nat \<Rightarrow> printf_result \<Rightarrow> u8 list \<times> int" where
  "vsnprintf n (Text out) =
     (if n = 0 then [] else take (n - 1) out @ [0], if length out < 2 ^ 31 then int (length out) else -1)"
| "vsnprintf n (Fail e out) = (take n out, if e < 0 then e else -1)"

text \<open>The comparison \<open>len < sizeof(buf)\<close> and the sums with \<open>s->size\<close> convert \<open>len\<close> to \<open>size_t\<close>.\<close>

definition dbuf_printf :: "'m realloc_f \<Rightarrow> 'm \<Rightarrow> DynBuf \<Rightarrow> printf_result \<Rightarrow> ('m \<times> DynBuf \<times> int) option" where
  "dbuf_printf ra m s v =
     (let (buf, len) = vsnprintf 128 v; n = (word_of_int len :: size_t) in
      if n < 128 then dbuf_put ra m s (take (unat n) buf)
      else do {
        (m1, s1, r) \<leftarrow> dbuf_realloc ra m s (db_size s + n + 1);
        if r \<noteq> 0 then Some (m1, s1, -1)
        else do {
          s2 \<leftarrow> dbuf_store s1 (unat (db_size s1)) (fst (vsnprintf (unat (db_alloc s1 - db_size s1)) v));
          Some (m1, s2\<lparr>db_size := db_size s2 + n\<rparr>, 0) } })"

definition dbuf_free :: "'m realloc_f \<Rightarrow> 'm \<Rightarrow> DynBuf \<Rightarrow> ('m \<times> DynBuf) option" where
  "dbuf_free ra m s = do {
     m' \<leftarrow> (case db_buf s of None \<Rightarrow> Some m | Some b \<Rightarrow> do { (m1, p) \<leftarrow> ra m (Some b) 0; Some m1 });
     Some (m', dbuf_init2) }"

definition dbuf_error :: "DynBuf \<Rightarrow> bool" where
  "dbuf_error s = db_error s"

definition dbuf_set_error :: "DynBuf \<Rightarrow> DynBuf" where
  "dbuf_set_error s = s\<lparr>db_error := True\<rparr>"

text \<open>The way the buffers are used: a sequence of appending calls whose return values are ignored, and
  one look at the error flag at the end.\<close>

datatype dbuf_op =
  Op_put "u8 list" | Op_putc u8 | Op_putstr "u8 list" | Op_put_u16 u16 | Op_put_u32 u32 | Op_put_u64 u64
  | Op_printf printf_result

fun dbuf_exec :: "'m realloc_f \<Rightarrow> 'm \<Rightarrow> DynBuf \<Rightarrow> dbuf_op \<Rightarrow> ('m \<times> DynBuf \<times> int) option" where
  "dbuf_exec ra m s (Op_put d) = dbuf_put ra m s d"
| "dbuf_exec ra m s (Op_putc c) = dbuf_putc ra m s c"
| "dbuf_exec ra m s (Op_putstr str) = dbuf_putstr ra m s str"
| "dbuf_exec ra m s (Op_put_u16 v) = dbuf_put_u16 ra m s v"
| "dbuf_exec ra m s (Op_put_u32 v) = dbuf_put_u32 ra m s v"
| "dbuf_exec ra m s (Op_put_u64 v) = dbuf_put_u64 ra m s v"
| "dbuf_exec ra m s (Op_printf t) = dbuf_printf ra m s t"

fun dbuf_run :: "'m realloc_f \<Rightarrow> 'm \<Rightarrow> DynBuf \<Rightarrow> dbuf_op list \<Rightarrow> ('m \<times> DynBuf) option" where
  "dbuf_run ra m s [] = Some (m, s)"
| "dbuf_run ra m s (p # ps) = do {
     (m', s', r) \<leftarrow> dbuf_exec ra m s p;
     dbuf_run ra m' s' ps }"

fun op_bytes :: "dbuf_op \<Rightarrow> u8 list" where
  "op_bytes (Op_put d) = d"
| "op_bytes (Op_putc c) = [c]"
| "op_bytes (Op_putstr str) = c_str str"
| "op_bytes (Op_put_u16 v) = le_bytes 2 v"
| "op_bytes (Op_put_u32 v) = le_bytes 4 v"
| "op_bytes (Op_put_u64 v) = le_bytes 8 v"
| "op_bytes (Op_printf v) = (case v of Text out \<Rightarrow> out | Fail e w \<Rightarrow> [])"

fun op_valid :: "dbuf_op \<Rightarrow> bool" where
  "op_valid (Op_putstr str) = (0 \<in> set str)"
| "op_valid (Op_printf v) = (case v of Text out \<Rightarrow> length out < 2 ^ 31 | Fail e w \<Rightarrow> False)"
| "op_valid _ = True"

section \<open>Invariant and contents\<close>

definition dbuf_wf :: "DynBuf \<Rightarrow> bool" where
  "dbuf_wf s \<longleftrightarrow> db_size s \<le> db_alloc s \<and> unat (db_alloc s) \<le> length (blk (db_buf s))"

definition contents :: "DynBuf \<Rightarrow> u8 list" where
  "contents s = take (unat (db_size s)) (blk (db_buf s))"

lemma blk_simps [simp]: "blk None = []" "blk (Some b) = b"
  by (simp_all add: blk_def)

lemma length_contents: "dbuf_wf s \<Longrightarrow> length (contents s) = unat (db_size s)"
  by (auto simp: dbuf_wf_def contents_def word_le_nat_alt)

lemma dbuf_init2_wf [simp]: "dbuf_wf dbuf_init2" "contents dbuf_init2 = []" "\<not> db_error dbuf_init2"
  by (simp_all add: dbuf_wf_def dbuf_init2_def contents_def)

lemma unat_add_size: "unat (a :: size_t) + n < 2 ^ 64 \<Longrightarrow> unat (a + word_of_nat n) = unat a + n"
proof -
  assume "unat a + n < 2 ^ 64"
  moreover from this have "unat (word_of_nat n :: size_t) = n" by (intro unat_word_of_nat_size) simp
  ultimately show ?thesis by (subst unat_add_lem [THEN iffD1]) auto
qed

text \<open>What every operation guarantees: it succeeds with new contents, or it reports the error, sets
  the sticky flag and leaves the contents as they were.\<close>

definition dbuf_post :: "DynBuf \<Rightarrow> u8 list \<Rightarrow> 'm \<times> DynBuf \<times> int \<Rightarrow> bool" where
  "dbuf_post s xs = (\<lambda>(m', s', r). dbuf_wf s' \<and>
     (r = 0 \<and> contents s' = xs \<and> db_error s' = db_error s
      \<or> r = -1 \<and> contents s' = contents s \<and> db_error s'))"

lemma dbuf_post_cong: "contents s1 = contents s \<Longrightarrow> db_error s1 = db_error s \<Longrightarrow> dbuf_post s1 = dbuf_post s"
  by (simp add: dbuf_post_def fun_eq_iff)

lemma dbuf_store_ok:
  assumes "off + length data \<le> length (blk (db_buf s))"
  shows "ok (dbuf_store s off data) (\<lambda>s'. db_size s' = db_size s \<and> db_alloc s' = db_alloc s \<and> db_error s' = db_error s
    \<and> blk (db_buf s') = take off (blk (db_buf s)) @ data @ drop (off + length data) (blk (db_buf s)))"
proof (cases "data = []")
  case False
  then obtain b where "db_buf s = Some b" using assms by (cases "db_buf s") auto
  then show ?thesis using assms False by (auto simp: dbuf_store_def memcpy_at_def)
qed (simp add: dbuf_store_def)

locale dbuf_alloc = realloc_contract ra 1 for ra :: "'m realloc_f"
begin

lemma dbuf_realloc_ok:
  assumes wf: "dbuf_wf s"
  shows "ok (dbuf_realloc ra m s n) (\<lambda>(m', s', r). dbuf_post s (contents s) (m', s', r)
    \<and> db_size s' = db_size s \<and> (r = 0 \<longrightarrow> n \<le> db_alloc s'))"
proof (cases "n > db_alloc s \<and> \<not> db_error s")
  case False
  then show ?thesis using wf by (auto simp: dbuf_realloc_def dbuf_post_def)
next
  case True
  define n' where "n' = (if db_alloc s * 3 div 2 > n then db_alloc s * 3 div 2 else n)"
  have n': "n \<le> n'" by (auto simp: n'_def)
  obtain m' p where p: "ra m (db_buf s) n' = Some (m', p)" using ra_total [of m "db_buf s" n'] by auto
  have run: "dbuf_realloc ra m s n = (case p of None \<Rightarrow> Some (m', s\<lparr>db_error := True\<rparr>, -1)
      | Some b \<Rightarrow> Some (m', s\<lparr>db_buf := Some b, db_alloc := n'\<rparr>, 0))"
    unfolding dbuf_realloc_def Let_def n'_def [symmetric] using True p by simp
  show ?thesis
  proof (cases p)
    case None
    then show ?thesis using run wf by (simp add: dbuf_post_def dbuf_wf_def contents_def)
  next
    case (Some b)
    have sz: "unat (db_size s) \<le> unat n'" "db_size s \<le> n'" "unat (db_size s) \<le> length (blk (db_buf s))"
      using wf True n' by (auto simp: dbuf_wf_def word_le_nat_alt word_less_nat_alt)
    have "take (unat (db_size s)) b = take (unat (db_size s)) (blk (db_buf s))"
    proof (cases "db_buf s")
      case (Some b0)
      then show ?thesis using ra_keep [of m b0 n' m' b "unat (db_size s)"] p \<open>p = Some b\<close> sz by simp
    qed (use sz in simp)
    moreover have "unat n' \<le> length b" using ra_size [of m "db_buf s" n' m' b] p Some by simp
    ultimately show ?thesis using run Some sz n' True by (simp add: dbuf_post_def dbuf_wf_def contents_def)
  qed
qed

lemma dbuf_grow_ok:
  assumes wf: "dbuf_wf s" and len: "unat (db_size s) + unat n < 2 ^ 64"
  shows "ok (dbuf_grow ra m s n) (\<lambda>(m', s', r). dbuf_post s (contents s) (m', s', r)
    \<and> db_size s' = db_size s \<and> (r = 0 \<longrightarrow> unat (db_size s) + unat n \<le> unat (db_alloc s')))"
proof -
  have u: "unat (db_size s + n) = unat (db_size s) + unat n" using unat_add_size [of "db_size s" "unat n"] len by simp
  show ?thesis
  proof (cases "db_size s + n > db_alloc s")
    case True
    then show ?thesis
      using dbuf_realloc_ok [OF wf, of m "db_size s + n"] u
      by (auto simp: dbuf_grow_def word_le_nat_alt elim!: okE)
  next
    case False
    then have "unat (db_size s) + unat n \<le> unat (db_alloc s)" using u by (simp add: not_less word_le_nat_alt)
    then show ?thesis using False wf by (simp add: dbuf_grow_def dbuf_post_def)
  qed
qed

text \<open>A grown buffer is filled after its contents.\<close>

lemma dbuf_append_ok:
  assumes wf: "dbuf_wf s" and room: "unat (db_size s) + length data \<le> unat (db_alloc s)"
  shows "ok (dbuf_store s (unat (db_size s)) data) (\<lambda>s2. dbuf_wf (s2\<lparr>db_size := db_size s2 + word_of_nat (length data)\<rparr>)
    \<and> contents (s2\<lparr>db_size := db_size s2 + word_of_nat (length data)\<rparr>) = contents s @ data \<and> db_error s2 = db_error s)"
proof -
  have l: "unat (db_alloc s) \<le> length (blk (db_buf s))" using wf by (simp add: dbuf_wf_def)
  have "unat (db_alloc s) < 2 ^ 64" using unsigned_less [of "db_alloc s"] by simp
  then have u: "unat (db_size s + word_of_nat (length data)) = unat (db_size s) + length data"
    using room by (intro unat_add_size) linarith
  show ?thesis
    by (rule ok_mono [OF dbuf_store_ok])
      (use l room u in \<open>auto simp: dbuf_wf_def contents_def word_le_nat_alt\<close>)
qed

lemma dbuf_put_ok:
  assumes wf: "dbuf_wf s" and len: "unat (db_size s) + length data < 2 ^ 64"
  shows "ok (dbuf_put ra m s data) (dbuf_post s (contents s @ data))"
proof -
  have u: "unat (word_of_nat (length data) :: size_t) = length data" using len by (intro unat_word_of_nat_size) simp
  obtain m1 s1 r where g: "dbuf_grow ra m s (word_of_nat (length data)) = Some (m1, s1, r)"
    and p: "dbuf_post s (contents s) (m1, s1, r)" "db_size s1 = db_size s"
      "r = 0 \<longrightarrow> unat (db_size s) + length data \<le> unat (db_alloc s1)"
    using dbuf_grow_ok [OF wf, of "word_of_nat (length data)" m] len u by (auto elim!: okE)
  show ?thesis
  proof (cases "r = 0")
    case True
    then have s1: "dbuf_wf s1" "contents s1 = contents s" "db_error s1 = db_error s" using p by (auto simp: dbuf_post_def)
    have "ok (dbuf_store s1 (unat (db_size s1)) data) (\<lambda>s2.
        dbuf_post s (contents s @ data) (m1, s2\<lparr>db_size := db_size s2 + word_of_nat (length data)\<rparr>, 0))"
      by (rule ok_mono [OF dbuf_append_ok [OF s1(1)]]) (use p True s1 in \<open>auto simp: dbuf_post_def\<close>)
    then show ?thesis using g True by (auto simp: dbuf_put_def elim!: okE)
  next
    case False
    then show ?thesis using g p by (auto simp: dbuf_put_def dbuf_post_def)
  qed
qed

lemma dbuf_put_self_ok:
  assumes wf: "dbuf_wf s" and len: "unat off + unat n \<le> unat (db_size s)" "unat (db_size s) + unat n < 2 ^ 64"
  shows "ok (dbuf_put_self ra m s off n) (dbuf_post s (contents s @ take (unat n) (drop (unat off) (contents s))))"
proof -
  obtain m1 s1 r where g: "dbuf_grow ra m s n = Some (m1, s1, r)"
    and p: "dbuf_post s (contents s) (m1, s1, r)" "db_size s1 = db_size s"
      "r = 0 \<longrightarrow> unat (db_size s) + unat n \<le> unat (db_alloc s1)"
    using dbuf_grow_ok [OF wf len(2), of m] by (auto elim!: okE)
  show ?thesis
  proof (cases "r = 0")
    case True
    then have s1: "dbuf_wf s1" "contents s1 = contents s" "db_error s1 = db_error s" using p by (auto simp: dbuf_post_def)
    define d where "d = take (unat n) (drop (unat off) (blk (db_buf s1)))"
    have l: "unat (db_alloc s1) \<le> length (blk (db_buf s1))" using s1 by (simp add: dbuf_wf_def)
    have "take (unat n) (drop (unat off) (contents s1)) = d"
      using len(1) p(2) by (simp add: d_def contents_def drop_take min_def)
    then have d: "length d = unat n" "take (unat n) (drop (unat off) (contents s)) = d"
      using l p(2,3) True len s1 by (auto simp: d_def)
    have "ok (dbuf_store s1 (unat (db_size s1)) d) (\<lambda>s2.
        dbuf_post s (contents s @ d) (m1, s2\<lparr>db_size := db_size s2 + n\<rparr>, 0))"
      by (rule ok_mono [OF dbuf_append_ok [OF s1(1), of d]]) (use p True s1 d in \<open>auto simp: dbuf_post_def\<close>)
    then show ?thesis using g True len p(2,3) l d by (auto simp: dbuf_put_self_def d_def elim!: okE)
  next
    case False
    then show ?thesis using g p by (auto simp: dbuf_put_self_def dbuf_post_def)
  qed
qed

lemma dbuf_putstr_ok:
  assumes "dbuf_wf s" "0 \<in> set str" "unat (db_size s) + length (c_str str) < 2 ^ 64"
  shows "ok (dbuf_putstr ra m s str) (dbuf_post s (contents s @ c_str str))"
proof -
  have "take (length (c_str str)) str = c_str str" unfolding c_str_def by (rule takeWhile_eq_take [symmetric])
  then show ?thesis using dbuf_put_ok [OF assms(1,3), of m] assms(2) by (simp add: dbuf_putstr_def strlen_def)
qed

lemma dbuf_printf_ok:
  assumes wf: "dbuf_wf s" and len: "unat (db_size s) + length out + 1 < 2 ^ 64" "length out < 2 ^ 31"
  shows "ok (dbuf_printf ra m s (Text out)) (dbuf_post s (contents s @ out))"
proof -
  have u: "unat (word_of_nat (length out) :: size_t) = length out" using len(2) by (intro unat_word_of_nat_size) simp
  have fast: "(word_of_nat (length out) :: size_t) < 128 \<longleftrightarrow> length out < 128"
    using u by (simp add: word_less_nat_alt)
  show ?thesis
  proof (cases "length out < 128")
    case True
    then show ?thesis using dbuf_put_ok [OF wf, of out m] len fast u by (simp add: dbuf_printf_def)
  next
    case False
    define n where "n = db_size s + word_of_nat (length out) + 1"
    have un: "unat n = unat (db_size s) + length out + 1"
      using unat_add_size [of "db_size s" "length out + 1"] len by (simp add: n_def ac_simps)
    obtain m1 s1 r where g: "dbuf_realloc ra m s n = Some (m1, s1, r)"
      and p: "dbuf_post s (contents s) (m1, s1, r)" "db_size s1 = db_size s" "r = 0 \<longrightarrow> n \<le> db_alloc s1"
      using dbuf_realloc_ok [OF wf, of m n] by (auto elim!: okE)
    show ?thesis
    proof (cases "r = 0")
      case True
      then have s1: "dbuf_wf s1" "contents s1 = contents s" "db_error s1 = db_error s" using p by (auto simp: dbuf_post_def)
      define room where "room = unat (db_alloc s1 - db_size s1)"
      have "room = unat (db_alloc s1) - unat (db_size s)"
        using s1(1) p(2) by (simp add: room_def unat_sub dbuf_wf_def)
      then have room: "length out < room" "unat (db_size s1) + length out + 1 \<le> unat (db_alloc s1)"
        using p(2,3) True un by (auto simp: word_le_nat_alt)
      have w: "unat (db_size s1 + word_of_nat (length out)) = unat (db_size s1) + length out"
        using len p(2) by (intro unat_add_size) simp
      have "ok (dbuf_store s1 (unat (db_size s1)) (out @ [0])) (\<lambda>s2.
          dbuf_post s1 (contents s1 @ out) (m1, s2\<lparr>db_size := db_size s2 + word_of_nat (length out)\<rparr>, 0))"
        by (rule ok_mono [OF dbuf_store_ok])
          (use s1(1) room w in \<open>auto simp: dbuf_post_def dbuf_wf_def contents_def word_le_nat_alt\<close>)
      then show ?thesis using g True False fast room len(2)
        by (auto simp: dbuf_printf_def n_def room_def [symmetric] Let_def s1(2) dbuf_post_cong [OF s1(2,3)] elim!: okE)
    next
      case r: False
      then show ?thesis using g p False fast len(2) by (auto simp: dbuf_printf_def n_def dbuf_post_def Let_def)
    qed
  qed
qed

text \<open>A failure with the value -1 is taken for a length: nothing is appended and the last byte is lost.\<close>

lemma dbuf_printf_fail:
  assumes wf: "dbuf_wf s" and ne: "db_size s \<noteq> 0"
  shows "ok (dbuf_printf ra m s (Fail (-1) w)) (\<lambda>(m', s', r). m' = m \<and> r = 0 \<and> db_error s' = db_error s \<and> contents s' = butlast (contents s))"
proof -
  define room where "room = unat (db_alloc s - db_size s)"
  have "room = unat (db_alloc s) - unat (db_size s)" using wf by (simp add: room_def unat_sub dbuf_wf_def)
  then have fits: "unat (db_size s) + length (take room w) \<le> length (blk (db_buf s))"
    using wf by (auto simp: dbuf_wf_def word_le_nat_alt min_def)
  have "\<not> db_size s > db_alloc s" using wf by (simp add: dbuf_wf_def not_less)
  then have run: "dbuf_printf ra m s (Fail (-1) w) = do {
      s2 \<leftarrow> dbuf_store s (unat (db_size s)) (take room w); Some (m, s2\<lparr>db_size := db_size s2 + - 1\<rparr>, 0) }"
    by (simp add: dbuf_printf_def dbuf_realloc_def room_def Let_def)
  have u: "unat (db_size s - 1) = unat (db_size s) - 1"
    using ne by (simp add: unat_sub word_le_nat_alt unat_gt_0 Suc_leI)
  have le: "unat (db_size s) \<le> length (blk (db_buf s))" using fits by simp
  then have bl: "butlast (contents s) = take (unat (db_size s) - 1) (blk (db_buf s))"
    by (simp add: contents_def butlast_take)
  show ?thesis unfolding run
    using dbuf_store_ok [OF fits] u bl le by (auto simp: contents_def elim!: okE)
qed

text \<open>A write inside or right after the contents; a write further on would leave a gap of
  indeterminate bytes.\<close>

lemma dbuf_write_ok:
  assumes wf: "dbuf_wf s" and len: "unat off + length data < 2 ^ 64" "unat off \<le> unat (db_size s)"
  shows "ok (dbuf_write ra m s off data)
    (dbuf_post s (take (unat off) (contents s) @ data @ drop (unat off + length data) (contents s)))"
proof -
  define e where "e = off + word_of_nat (length data)"
  have ue: "unat e = unat off + length data" using unat_add_size [OF len(1)] by (simp add: e_def)
  obtain m1 s1 r where g: "dbuf_realloc ra m s e = Some (m1, s1, r)"
    and p: "dbuf_post s (contents s) (m1, s1, r)" "db_size s1 = db_size s" "r = 0 \<longrightarrow> e \<le> db_alloc s1"
    using dbuf_realloc_ok [OF wf, of m e] by (auto elim!: okE)
  show ?thesis
  proof (cases "r = 0")
    case True
    then have s1: "dbuf_wf s1" "contents s1 = contents s" "db_error s1 = db_error s" using p by (auto simp: dbuf_post_def)
    have room: "unat off + length data \<le> unat (db_alloc s1)" using p(3) True ue by (simp add: word_le_nat_alt)
    then have fits: "unat off + length data \<le> length (blk (db_buf s1))" using s1(1) by (simp add: dbuf_wf_def)
    have "ok (dbuf_store s1 (unat off) data) (\<lambda>s2. dbuf_post s1
        (take (unat off) (contents s1) @ data @ drop (unat off + length data) (contents s1))
        (m1, if e > db_size s2 then s2\<lparr>db_size := e\<rparr> else s2, 0))"
      by (rule ok_mono [OF dbuf_store_ok [OF fits]])
        (use s1(1) room fits ue len(2) p(2) in \<open>auto simp: dbuf_post_def dbuf_wf_def contents_def word_le_nat_alt
          word_less_nat_alt min_def drop_take\<close>)
    then show ?thesis using g True
      by (auto simp: dbuf_write_def e_def Let_def s1(2) dbuf_post_cong [OF s1(2,3)] elim!: okE)
  next
    case False
    then show ?thesis using g p by (auto simp: dbuf_write_def e_def Let_def dbuf_post_def)
  qed
qed

lemma dbuf_exec_ok:
  assumes "dbuf_wf s" "op_valid p" "unat (db_size s) + length (op_bytes p) + 1 < 2 ^ 64"
  shows "ok (dbuf_exec ra m s p) (dbuf_post s (contents s @ op_bytes p))"
  using assms
  by (cases p) (auto simp: dbuf_putc_def dbuf_put_u16_def dbuf_put_u32_def dbuf_put_u64_def
      intro!: dbuf_put_ok dbuf_putstr_ok dbuf_printf_ok split: printf_result.splits)

lemma dbuf_run_ok:
  assumes "dbuf_wf s" "\<forall>p \<in> set ps. op_valid p"
    and "unat (db_size s) + length (concat (map op_bytes ps)) + 1 < 2 ^ 64"
  shows "ok (dbuf_run ra m s ps) (\<lambda>(m', s'). dbuf_wf s' \<and> (db_error s \<longrightarrow> db_error s') \<and>
    (\<not> db_error s' \<longrightarrow> contents s' = contents s @ concat (map op_bytes ps)))"
  using assms
proof (induction ps arbitrary: m s)
  case Nil
  then show ?case by simp
next
  case (Cons p ps)
  obtain m1 s1 r where e: "dbuf_exec ra m s p = Some (m1, s1, r)" and q: "dbuf_post s (contents s @ op_bytes p) (m1, s1, r)"
    using dbuf_exec_ok [of s p m] Cons.prems by (auto elim!: okE)
  have s1: "dbuf_wf s1" "db_error s \<longrightarrow> db_error s1" "\<not> db_error s1 \<longrightarrow> contents s1 = contents s @ op_bytes p"
    and sz: "unat (db_size s1) \<le> unat (db_size s) + length (op_bytes p)"
    using q length_contents [OF Cons.prems(1)] length_contents [of s1] by (auto simp: dbuf_post_def)
  have "ok (dbuf_run ra m1 s1 ps) (\<lambda>(m', s'). dbuf_wf s' \<and> (db_error s1 \<longrightarrow> db_error s') \<and>
      (\<not> db_error s' \<longrightarrow> contents s' = contents s1 @ concat (map op_bytes ps)))"
    using Cons.prems s1 sz by (intro Cons.IH) auto
  then show ?case using e s1 by (auto elim!: okE)
qed

end

interpretation js_dbuf: dbuf_alloc "js_def_realloc 1"
  by unfold_locales

interpretation libc_dbuf: dbuf_alloc "\<lambda>l p sz. Some (libc_realloc 1 l p (unat sz))"
  by unfold_locales

section \<open>Claims\<close>

text \<open>C4. Any sequence of appending calls on an empty buffer with the runtime's allocator runs without
  undefined behaviour, whatever allocations fail; if the error flag is clear at the end, the buffer
  holds exactly the concatenation of what was appended.  Strings are terminated, formatting succeeds
  with a text of at most \<open>INT_MAX\<close> characters, and the total length is a \<open>size_t\<close>.\<close>

theorem dbuf_append_refines_concat:
  assumes "\<forall>p \<in> set ps. op_valid p" "length (concat (map op_bytes ps)) + 1 < 2 ^ 64"
  shows "\<exists>m' s'. dbuf_run (js_def_realloc 1) m dbuf_init2 ps = Some (m', s') \<and> dbuf_wf s' \<and>
    (\<not> dbuf_error s' \<longrightarrow> contents s' = concat (map op_bytes ps))"
  using ok_exists [OF js_dbuf.dbuf_run_ok [of dbuf_init2 ps m]] assms
  by (auto simp: dbuf_init2_def contents_def dbuf_wf_def dbuf_error_def)

definition mem_example :: "u8 mstate" where
  "mem_example = (\<lparr>lc_answers = (\<lambda>n. Grant 3 0), lc_calls = 0\<rparr>, \<lparr>malloc_count = 0, malloc_size = 0, malloc_limit = -1\<rparr>)"

theorem dbuf_append_refines_concat_witness:
  "\<exists>m' s'. dbuf_run (js_def_realloc 1) mem_example dbuf_init2
      [Op_putc 7, Op_put_u16 0x102, Op_putstr [65, 0], Op_printf (Text [66, 67])] = Some (m', s') \<and>
    \<not> dbuf_error s' \<and> contents s' = [7, 2, 1, 65, 66, 67]"
proof -
  let ?ps = "[Op_putc 7, Op_put_u16 0x102, Op_putstr [65, 0], Op_printf (Text [66, 67])]"
  have "case dbuf_run (js_def_realloc 1) mem_example dbuf_init2 ?ps of None \<Rightarrow> False | Some (m', s') \<Rightarrow> \<not> dbuf_error s'"
    by (simp add: mem_example_def dbuf_init2_def dbuf_putc_def dbuf_put_u16_def dbuf_putstr_def dbuf_printf_def dbuf_put_def
        dbuf_grow_def dbuf_realloc_def dbuf_store_def dbuf_error_def memcpy_at_def strlen_def c_str_def le_bytes_def upt_rec
        libc_malloc_def libc_realloc_def libc_grant_def libc_tick_def cells_def js_def_malloc_usable_size_def MALLOC_OVERHEAD_def)
  then show ?thesis using dbuf_append_refines_concat [of ?ps mem_example]
    by (auto simp: le_bytes_def upt_rec c_str_def)
qed

text \<open>C38. A failure of \<open>vsnprintf\<close> with the value -1 is not noticed: \<open>dbuf_printf\<close> returns 0, leaves the
  error flag as it was and takes the last byte off the contents, instead of appending or reporting an error.\<close>

theorem dbuf_printf_failure_truncates:
  assumes "dbuf_wf s" "contents s \<noteq> []"
  shows "\<exists>s'. dbuf_printf (js_def_realloc 1) m s (Fail (-1) w) = Some (m, s', 0) \<and> dbuf_error s' = dbuf_error s
    \<and> contents s' = butlast (contents s)"
proof -
  have "db_size s \<noteq> 0" using assms(2) by (auto simp: contents_def)
  from js_dbuf.dbuf_printf_fail [OF assms(1) this, of m w] show ?thesis by (auto simp: dbuf_error_def elim!: okE)
qed

theorem dbuf_printf_failure_truncates_witness:
  "\<exists>s'. dbuf_printf (js_def_realloc 1) mem_example \<lparr>db_buf = Some [1, 2, 3], db_size = 2, db_alloc = 3, db_error = False\<rparr> (Fail (-1) [9])
     = Some (mem_example, s', 0) \<and> contents s' = [1]"
  using dbuf_printf_failure_truncates [of "\<lparr>db_buf = Some [1, 2, 3], db_size = 2, db_alloc = 3, db_error = False\<rparr>" mem_example "[9]"]
  by (auto simp: dbuf_wf_def contents_def)



end
