(* ===== verification/Rqsort_Order.thy ===== *)
theory Rqsort_Order
  imports Rqsort
begin

text \<open>
  Correctness of \<open>rqsort\<close>: with a comparison function that is the sign of a total preorder (locale
  \<open>total_cmp\<close>) the heap sort and the insertion sort order their segment, and \<open>rqsort\<close> orders the
  array.  The loop of \<open>rqsort\<close> is verified once, in the locale \<open>rq_order\<close>, for a relation that its
  parts establish; the instance with the trivial relation gives safety for every comparison function.
\<close>

section \<open>Ordering\<close>

definition sorted_range :: "('a \<Rightarrow> 'a \<Rightarrow> bool) \<Rightarrow> nat \<Rightarrow> nat \<Rightarrow> 'a list \<Rightarrow> bool" where
  "sorted_range R l h xs \<longleftrightarrow> (\<forall>i j. l \<le> i \<longrightarrow> i < j \<longrightarrow> j < h \<longrightarrow> R (xs ! i) (xs ! j))"

lemma sorted_range_short: "h \<le> l + 1 \<Longrightarrow> sorted_range R l h xs"
  by (simp add: sorted_range_def)

lemma sorted_range_offset:
  assumes "\<forall>a b. a < b \<longrightarrow> b < n \<longrightarrow> R (xs ! (l + a)) (xs ! (l + b))"
  shows "sorted_range R l (l + n) xs"
  unfolding sorted_range_def
proof (intro allI impI)
  fix a b assume "l \<le> a" "a < b" "b < l + n"
  with assms [rule_format, of "a - l" "b - l"] show "R (xs ! a) (xs ! b)" by simp
qed

definition heap_at :: "'a cmp_f \<Rightarrow> nat \<Rightarrow> nat \<Rightarrow> 'a list \<Rightarrow> nat \<Rightarrow> bool" where
  "heap_at cmp base n xs j \<longleftrightarrow>
     (\<forall>c. c = 2 * j + 1 \<or> c = 2 * j + 2 \<longrightarrow> c < n \<longrightarrow> cmp (xs ! (base + c)) (xs ! (base + j)) \<le> 0)"

lemma parent_unique: "c = 2 * i + 1 \<or> c = 2 * i + 2 \<Longrightarrow> c = 2 * j + 1 \<or> c = 2 * j + 2 \<Longrightarrow> i = (j :: nat)"
  by presburger

text \<open>The contract of a comparison function that sorting relies on: it is the sign of a total
  preorder.\<close>

locale total_cmp =
  fixes cmp :: "'a cmp_f"
  assumes cmp_swap: "cmp a b > 0 \<longleftrightarrow> cmp b a < 0"
    and cmp_trans: "cmp a b \<le> 0 \<Longrightarrow> cmp b c \<le> 0 \<Longrightarrow> cmp a c \<le> 0"
begin

abbreviation le :: "'a \<Rightarrow> 'a \<Rightarrow> bool" where
  "le a b \<equiv> cmp a b \<le> 0"

lemma le_refl: "le a a"
  using cmp_swap [of a a] by linarith

lemma le_total: "le a b \<or> le b a"
  using cmp_swap [of a b] by linarith

lemma ge_iff: "0 \<le> cmp a b \<longleftrightarrow> le b a"
  using cmp_swap [of b a] by linarith

text \<open>Insertion: the element at \<open>j\<close> moves down, the others up to \<open>J\<close> are in order and those after
  \<open>j\<close> are not below it.\<close>

lemma insert_down_sorted:
  assumes "\<And>i k. i < k \<Longrightarrow> k \<le> J \<Longrightarrow> i \<noteq> j \<Longrightarrow> k \<noteq> j \<Longrightarrow> le (xs ! (ptr + i)) (xs ! (ptr + k))"
    and "\<And>k. j < k \<Longrightarrow> k \<le> J \<Longrightarrow> le (xs ! (ptr + j)) (xs ! (ptr + k))"
    and "j \<le> J" and "ptr + J < length xs"
  shows "ok (insert_down cmp ptr j xs) (\<lambda>ys. \<forall>i k. i < k \<longrightarrow> k \<le> J \<longrightarrow> le (ys ! (ptr + i)) (ys ! (ptr + k)))"
  using assms
proof (induction j arbitrary: xs)
  case 0
  then show ?case by (simp, metis gr_implies_not0 not_gr0)
next
  case (Suc j)
  let ?x = "xs ! (ptr + j)" and ?e = "xs ! (ptr + Suc j)"
  define ys where "ys = swapped xs (ptr + Suc j) (ptr + j)"
  have c: "cmp_at cmp xs (ptr + j) (ptr + Suc j) = Some (cmp ?x ?e)"
    using Suc.prems(3,4) by (simp add: cmp_at_def rd_def)
  have s: "swap_at xs (ptr + Suc j) (ptr + j) = Some ys"
    using Suc.prems(3,4) by (simp add: swap_at_def swapped_def rd_def wr_def ys_def)
  have y: "ys ! (ptr + m) = (if m = Suc j then ?x else if m = j then ?e else xs ! (ptr + m))" if "m \<le> J" for m
    using Suc.prems(3,4) that unfolding ys_def by auto
  show ?case
  proof (cases "0 < cmp ?x ?e")
    case True
    then have ex: "le ?e ?x" using cmp_swap [of ?x ?e] by simp
    have "ok (insert_down cmp ptr j ys) (\<lambda>ys. \<forall>i k. i < k \<longrightarrow> k \<le> J \<longrightarrow> le (ys ! (ptr + i)) (ys ! (ptr + k)))"
    proof (rule Suc.IH)
      show "le (ys ! (ptr + i)) (ys ! (ptr + k))" if "i < k" "k \<le> J" "i \<noteq> j" "k \<noteq> j" for i k
        using that Suc.prems(1) [of i k] Suc.prems(1) [of i j] Suc.prems(1) [of j k] Suc.prems(3)
        by (auto simp: y)
      show "le (ys ! (ptr + j)) (ys ! (ptr + k))" if "j < k" "k \<le> J" for k
        using that ex Suc.prems(2) [of k] by (auto simp: y)
    qed (use Suc.prems in \<open>auto simp: ys_def\<close>)
    with True c s show ?thesis by simp
  next
    case False
    have "le (xs ! (ptr + i)) (xs ! (ptr + k))" if "i < k" "k \<le> J" for i k
    proof -
      have "le (xs ! (ptr + i)) ?x" if "i \<le> j" for i
        using that Suc.prems(1) [of i j] Suc.prems(3) le_refl by (cases "i = j") auto
      then show ?thesis
        using that False Suc.prems(1) [of i k] Suc.prems(2) [of k] cmp_trans [of "xs ! (ptr + i)" ?x ?e]
        by (cases "k = Suc j"; cases "i = Suc j") auto
    qed
    with False c show ?thesis by simp
  qed
qed

lemma insertion_loop_sorted:
  "ptr + n \<le> length xs \<Longrightarrow> 0 < i \<Longrightarrow> sorted_range le ptr (ptr + min i n) xs \<Longrightarrow>
   ok (insertion_loop cmp ptr n i xs) (sorted_range le ptr (ptr + n))"
proof (induction "n - i" arbitrary: i xs)
  case 0
  then show ?case by (subst insertion_loop.simps) simp
next
  case (Suc d)
  then have i: "i < n" by simp
  have le: "le (xs ! (ptr + a)) (xs ! (ptr + b))" if "a < b" "b < i" for a b
    using Suc.prems(3) i that by (simp add: sorted_range_def)
  have "ok (insert_down cmp ptr i xs) (\<lambda>ys. \<forall>a b. a < b \<longrightarrow> b \<le> i \<longrightarrow> le (ys ! (ptr + a)) (ys ! (ptr + b)))"
    using le Suc.prems(1) i by (intro insert_down_sorted) auto
  then have "ok (insert_down cmp ptr i xs) (\<lambda>ys. sorted_range le ptr (ptr + min (i + 1) n) ys)"
  proof (rule ok_mono)
    fix ys assume *: "\<forall>a b. a < b \<longrightarrow> b \<le> i \<longrightarrow> le (ys ! (ptr + a)) (ys ! (ptr + b))"
    then show "sorted_range le ptr (ptr + min (i + 1) n) ys" by (intro sorted_range_offset) simp
  qed
  from ok_conj [OF insert_down_safe [of i n ptr xs cmp] this] obtain ys where
    "insert_down cmp ptr i xs = Some ys" "perm_range ptr (ptr + n) xs ys"
    "sorted_range le ptr (ptr + min (i + 1) n) ys" using i Suc.prems(1) by (auto elim: okE)
  then show ?case
    using Suc.hyps(1) [of "i + 1" ys] Suc.hyps(2) Suc.prems(1) perm_range_length [of ptr "ptr + n" xs ys] i
    by (subst insertion_loop.simps) simp
qed

lemma heap_child_max:
  assumes "base + n \<le> length xs" and "r * 2 + 1 < n"
  shows "ok (heap_child cmp base n xs (r * 2 + 1)) (\<lambda>c. (c = 2 * r + 1 \<or> c = 2 * r + 2) \<and> c < n \<and>
    (\<forall>c'. c' = 2 * r + 1 \<or> c' = 2 * r + 2 \<longrightarrow> c' < n \<longrightarrow> le (xs ! (base + c')) (xs ! (base + c))))"
  unfolding heap_child_def using assms le_refl le_total [of "xs ! (base + (r * 2 + 1))" "xs ! (base + (r * 2 + 1) + 1)"]
  by (intro ok_intros) (auto simp: mult.commute)

lemma sift_down_heap:
  assumes "base + n \<le> length xs" and "i \<le> r"
    and "\<And>j. i \<le> j \<Longrightarrow> j \<noteq> r \<Longrightarrow> heap_at cmp base n xs j"
    and "\<And>j c. i \<le> j \<Longrightarrow> r = 2 * j + 1 \<or> r = 2 * j + 2 \<Longrightarrow> c = 2 * r + 1 \<or> c = 2 * r + 2 \<Longrightarrow> c < n \<Longrightarrow>
      le (xs ! (base + c)) (xs ! (base + j))"
  shows "ok (sift_down cmp base n xs r) (\<lambda>ys. \<forall>j \<ge> i. heap_at cmp base n ys j)"
  using assms
proof (induction "n - r" arbitrary: r xs rule: less_induct)
  case less
  show ?case
  proof (cases "r * 2 + 1 < n")
    case False
    with less.prems(3) show ?thesis
      by (subst sift_down.simps) (auto simp: heap_at_def mult.commute)
  next
    case True
    from heap_child_max [OF less.prems(1) True] obtain c where
      c: "heap_child cmp base n xs (r * 2 + 1) = Some c" "c = 2 * r + 1 \<or> c = 2 * r + 2" "c < n"
      and max: "\<And>c'. c' = 2 * r + 1 \<or> c' = 2 * r + 2 \<Longrightarrow> c' < n \<Longrightarrow> le (xs ! (base + c')) (xs ! (base + c))"
      by (elim okE) blast
    have rc: "r < c" using c(2) by auto
    let ?r = "xs ! (base + r)" and ?c = "xs ! (base + c)"
    define ys where "ys = swapped xs (base + r) (base + c)"
    have d: "cmp_at cmp xs (base + r) (base + c) = Some (cmp ?r ?c)"
      using c(3) rc less.prems(1) by (simp add: cmp_at_def rd_def)
    have s: "swap_at xs (base + r) (base + c) = Some ys"
      using c(3) rc less.prems(1) by (simp add: swap_at_def swapped_def rd_def wr_def ys_def)
    have y: "ys ! (base + m) = (if m = r then ?c else if m = c then ?r else xs ! (base + m))" if "m < n" for m
      using c(3) rc less.prems(1) that unfolding ys_def by auto
    show ?thesis
    proof (cases "0 < cmp ?r ?c")
      case brk: True
      then have "le ?c ?r" using cmp_swap by (metis less_imp_le)
      then have "heap_at cmp base n xs r" using max cmp_trans unfolding heap_at_def by blast
      with less.prems(3) brk True c(1) d show ?thesis
        by (subst sift_down.simps) auto
    next
      case False
      have "ok (sift_down cmp base n ys c) (\<lambda>ys. \<forall>j \<ge> i. heap_at cmp base n ys j)"
      proof (rule less.hyps)
        show "heap_at cmp base n ys j" if "i \<le> j" "j \<noteq> c" for j
          unfolding heap_at_def
        proof (intro allI impI)
          fix k assume k: "k = 2 * j + 1 \<or> k = 2 * j + 2" "k < n"
          consider "j = r" | "k = r" "j \<noteq> r" | "j \<noteq> r" "k \<noteq> r" by blast
          then show "le (ys ! (base + k)) (ys ! (base + j))"
          proof cases
            case 1
            then show ?thesis using max [of k] k c False by (auto simp: y)
          next
            case 2
            then show ?thesis using less.prems(4) [of j c] that k c by (auto simp: y)
          next
            case 3
            have jk: "k \<noteq> c" "j < n" using parent_unique [OF c(2), of j] 3(1) k by auto
            have "le (xs ! (base + k)) (xs ! (base + j))"
              using less.prems(3) [OF that(1) 3(1)] k unfolding heap_at_def by blast
            then show ?thesis using 3 that(2) jk k(2) by (simp add: y)
          qed
        qed
        show "le (ys ! (base + k)) (ys ! (base + j))"
          if "i \<le> j" "c = 2 * j + 1 \<or> c = 2 * j + 2" "k = 2 * c + 1 \<or> k = 2 * c + 2" "k < n" for j k
        proof -
          have j: "j = r" and k: "k \<noteq> r" "k \<noteq> c" "r < n"
            using parent_unique [OF that(2) c(2)] that(3,4) rc by auto
          have "heap_at cmp base n xs c" using less.prems(3) [of c] less.prems(2) rc by simp
          then have "le (xs ! (base + k)) ?c" using that(3,4) unfolding heap_at_def by blast
          then show ?thesis using j k that(4) by (simp add: y)
        qed
      qed (use less.prems(1,2) c(3) rc in \<open>auto simp: ys_def\<close>)
      with False True c(1) d s show ?thesis by (subst sift_down.simps) auto
    qed
  qed
qed

lemma heap_build_heap:
  "base + n \<le> length xs \<Longrightarrow> (\<And>j. i \<le> j \<Longrightarrow> heap_at cmp base n xs j) \<Longrightarrow>
   ok (heap_build cmp base n i xs) (\<lambda>ys. \<forall>j. heap_at cmp base n ys j)"
proof (induction i arbitrary: xs)
  case (Suc i)
  have "ok (sift_down cmp base n xs i) (\<lambda>ys. \<forall>j \<ge> i. heap_at cmp base n ys j)"
    using Suc.prems by (intro sift_down_heap) auto
  from ok_conj [OF sift_down_safe this] Suc.prems(1) obtain ys where
    "sift_down cmp base n xs i = Some ys" "perm_range base (base + n) xs ys" "\<forall>j \<ge> i. heap_at cmp base n ys j"
    by (auto elim: okE)
  then show ?case using Suc.IH [of ys] Suc.prems(1) perm_range_length by fastforce
qed auto

lemma heap_root_max:
  assumes "\<And>j. heap_at cmp base n xs j" and "k < n"
  shows "le (xs ! (base + k)) (xs ! base)"
  using assms(2)
proof (induction k rule: less_induct)
  case (less k)
  show ?case
  proof (cases "k = 0")
    case True
    then show ?thesis by (simp add: le_refl)
  next
    case False
    let ?j = "(k - 1) div 2"
    have k: "k = 2 * ?j + 1 \<or> k = 2 * ?j + 2" using False by presburger
    then have "le (xs ! (base + k)) (xs ! (base + ?j))"
      using assms(1) [of ?j] less.prems unfolding heap_at_def by blast
    moreover have "le (xs ! (base + ?j)) (xs ! base)" using k less by auto
    ultimately show ?thesis by (rule cmp_trans)
  qed
qed

lemma heap_extract_sorted:
  assumes "base + n \<le> length xs" and "i < n" and "\<And>j. heap_at cmp base (Suc i) xs j"
    and "\<And>a b. a < b \<Longrightarrow> i < b \<Longrightarrow> b < n \<Longrightarrow> le (xs ! (base + a)) (xs ! (base + b))"
  shows "ok (heap_extract cmp base i xs) (\<lambda>ys. \<forall>a b. a < b \<longrightarrow> b < n \<longrightarrow> le (ys ! (base + a)) (ys ! (base + b)))"
  using assms
proof (induction i arbitrary: xs)
  case (Suc i)
  define ys where "ys = swapped xs base (base + Suc i)"
  have s: "swap_at xs base (base + Suc i) = Some ys"
    using Suc.prems(1,2) by (simp add: swap_at_def swapped_def rd_def wr_def ys_def)
  have y: "ys ! (base + m) = (if m = 0 then xs ! (base + Suc i) else if m = Suc i then xs ! base else xs ! (base + m))"
    if "m < n" for m using Suc.prems(1,2) that unfolding ys_def by auto
  have len: "length ys = length xs" by (simp add: ys_def)
  have "heap_at cmp base (Suc i) ys j" if "0 < j" for j
    using Suc.prems(2) Suc.prems(3) [of j] that by (auto simp: heap_at_def y)
  then have "ok (sift_down cmp base (Suc i) ys 0) (\<lambda>zs. \<forall>j \<ge> 0. heap_at cmp base (Suc i) zs j)"
    using Suc.prems(1,2) len by (intro sift_down_heap) auto
  from ok_conj [OF sift_down_safe this] Suc.prems(1,2) len obtain zs where
    z: "sift_down cmp base (Suc i) ys 0 = Some zs" "perm_range base (base + Suc i) ys zs"
    "\<forall>j. heap_at cmp base (Suc i) zs j" by (auto elim: okE)
  have out: "zs ! (base + b) = ys ! (base + b)" if "i < b" "b < n" for b
    using perm_range_outside [OF z(2)] that Suc.prems(1) len by simp
  have le: "le (ys ! (base + a)) (ys ! (base + b))" if "a < b" "i < b" "b < n" for a b
  proof (cases "b = Suc i")
    case True
    then show ?thesis
      using heap_root_max [OF Suc.prems(3), of "if a = 0 then Suc i else a"] that y [of a] y [of b]
      by (auto split: if_splits)
  next
    case False
    then show ?thesis using that Suc.prems(4) [of "if a = 0 then Suc i else if a = Suc i then 0 else a" b]
      y [of a] y [of b] by (auto split: if_splits)
  qed
  have "le (zs ! (base + a)) (zs ! (base + b))" if "a < b" "i < b" "b < n" for a b
  proof (cases "a \<le> i")
    case True
    have "le (ys ! k) (ys ! (base + b))" if "base \<le> k" "k < base + Suc i" for k
      using le [of "k - base" b] that \<open>i < b\<close> \<open>b < n\<close> by simp
    then have "le (zs ! (base + a)) (ys ! (base + b))"
      using True Suc.prems(1,2) len
      by (intro perm_range_all [OF z(2), where P = "\<lambda>x. le x (ys ! (base + b))"]) auto
    then show ?thesis using out that by simp
  next
    case False
    then show ?thesis using out le that by simp
  qed
  then have "ok (heap_extract cmp base i zs) (\<lambda>ys. \<forall>a b. a < b \<longrightarrow> b < n \<longrightarrow> le (ys ! (base + a)) (ys ! (base + b)))"
    using Suc.prems(1,2) z(3) perm_range_length [OF z(2)] len by (intro Suc.IH) auto
  with s z(1) show ?case by simp
next
  case 0
  then show ?case using "0.prems"(4) by auto
qed

lemma heapsortx_sorted:
  assumes "base + n \<le> length xs"
  shows "ok (heapsortx cmp base n xs) (sorted_range le base (base + n))"
proof (cases "1 < n")
  case False
  then show ?thesis by (simp add: heapsortx_def sorted_range_short)
next
  case True
  have "ok (heap_build cmp base n (n div 2) xs) (\<lambda>ys. \<forall>j. heap_at cmp base n ys j)"
    using assms by (intro heap_build_heap) (auto simp: heap_at_def)
  from ok_conj [OF heap_build_safe this] assms obtain ys where
    y: "heap_build cmp base n (n div 2) xs = Some ys" "perm_range base (base + n) xs ys" "\<forall>j. heap_at cmp base n ys j"
    by (auto elim: okE)
  have "ok (heap_extract cmp base (n - 1) ys) (\<lambda>ys. \<forall>a b. a < b \<longrightarrow> b < n \<longrightarrow> le (ys ! (base + a)) (ys ! (base + b)))"
    using True y(3) assms perm_range_length [OF y(2)] by (intro heap_extract_sorted) auto
  then have "ok (heap_extract cmp base (n - 1) ys) (sorted_range le base (base + n))"
    by (rule ok_mono) (rule sorted_range_offset)
  with True y(1) show ?thesis by (simp add: heapsortx_def)
qed
end

section \<open>The main loop\<close>

text \<open>The segments that remain to be sorted are disjoint, and any two elements that are not in a
  common segment are in order.\<close>

fun segs_disjoint :: "rq_segment list \<Rightarrow> bool" where
  "segs_disjoint [] = True"
| "segs_disjoint ((p, c, d) # L) =
     ((\<forall>(q, e, f) \<in> set L. p + c \<le> q \<or> q + e \<le> p) \<and> segs_disjoint L)"

definition in_seg :: "rq_segment list \<Rightarrow> nat \<Rightarrow> nat \<Rightarrow> bool" where
  "in_seg L i j \<longleftrightarrow> (\<exists>(p, c, d) \<in> set L. p \<le> i \<and> j < p + c)"

definition seg_inv :: "('a \<Rightarrow> 'a \<Rightarrow> bool) \<Rightarrow> nat \<Rightarrow> 'a list \<Rightarrow> rq_segment list \<Rightarrow> bool" where
  "seg_inv R n xs L \<longleftrightarrow> (\<forall>(p, c, d) \<in> set L. p + c \<le> n) \<and> segs_disjoint L \<and>
     (\<forall>i j. i < j \<longrightarrow> j < n \<longrightarrow> in_seg L i j \<or> R (xs ! i) (xs ! j))"

lemma in_seg_Cons [simp]: "in_seg ((p, c, d) # L) i j \<longleftrightarrow> p \<le> i \<and> j < p + c \<or> in_seg L i j"
  by (simp add: in_seg_def)

lemma in_seg_Nil [simp]: "\<not> in_seg [] i j"
  by (simp add: in_seg_def)

lemma in_seg_append [simp]: "in_seg (S @ L) i j \<longleftrightarrow> in_seg S i j \<or> in_seg L i j"
  by (auto simp: in_seg_def)

lemma segs_disjoint_append:
  "segs_disjoint (S @ L) \<longleftrightarrow> segs_disjoint S \<and> segs_disjoint L \<and>
     (\<forall>(p, c, d) \<in> set S. \<forall>(q, e, f) \<in> set L. p + c \<le> q \<or> q + e \<le> p)"
  by (induction S rule: segs_disjoint.induct) auto

lemma seg_inv_depth: "seg_inv R n xs ((p, c, d) # L) \<Longrightarrow> seg_inv R n xs ((p, c, d') # L)"
  by (simp add: seg_inv_def)

text \<open>A segment is rearranged and replaced by segments inside it.\<close>

lemma seg_refine:
  assumes inv: "seg_inv R n xs ((p, c, d) # L)" and perm: "perm_range p (p + c) xs ys" and len: "n \<le> length xs"
    and S: "\<forall>(q, e, f) \<in> set S. p \<le> q \<and> q + e \<le> p + c" and disj: "segs_disjoint S"
    and ord: "\<And>i j. p \<le> i \<Longrightarrow> i < j \<Longrightarrow> j < p + c \<Longrightarrow> in_seg S i j \<or> R (ys ! i) (ys ! j)"
  shows "seg_inv R n ys (S @ L)"
proof -
  have L: "p + c \<le> n" "\<forall>(q, e, f) \<in> set L. q + e \<le> n" "\<forall>(q, e, f) \<in> set L. p + c \<le> q \<or> q + e \<le> p"
    and pairs: "\<And>i j. i < j \<Longrightarrow> j < n \<Longrightarrow> p \<le> i \<and> j < p + c \<or> in_seg L i j \<or> R (xs ! i) (xs ! j)"
    using inv by (auto simp: seg_inv_def)
  have notin: "\<not> in_seg L i j" if "i < j" "p \<le> i \<and> i < p + c \<or> p \<le> j \<and> j < p + c" for i j
    using L(3) that by (auto simp: in_seg_def)
  have out: "ys ! k = xs ! k" if "k < p \<or> p + c \<le> k" "k < n" for k
    using perm_range_outside [OF perm that(1)] that(2) len by simp
  have "in_seg (S @ L) i j \<or> R (ys ! i) (ys ! j)" if ij: "i < j" "j < n" for i j
  proof -
    consider "p \<le> i" "j < p + c" | "p \<le> i" "i < p + c" "p + c \<le> j" | "i < p" "p \<le> j" "j < p + c"
      | "i < p \<or> p + c \<le> i" "j < p \<or> p + c \<le> j" using ij by linarith
    then show ?thesis
    proof cases
      case 1
      then show ?thesis using ord ij by auto
    next
      case 2
      have "R (xs ! k) (xs ! j)" if "p \<le> k" "k < p + c" for k
        using pairs [of k j] notin [of k j] that 2 ij by auto
      then have "R (ys ! i) (xs ! j)"
        using 2 L(1) len by (intro perm_range_all [OF perm, where P = "\<lambda>x. R x (xs ! j)"]) auto
      then show ?thesis using out [of j] 2 ij by simp
    next
      case 3
      have "R (xs ! i) (xs ! k)" if "p \<le> k" "k < p + c" for k
        using pairs [of i k] notin [of i k] that 3 ij L(1) by auto
      then have "R (xs ! i) (ys ! j)"
        using 3 L(1) len by (intro perm_range_all [OF perm, where P = "\<lambda>x. R (xs ! i) x"]) auto
      then show ?thesis using out [of i] 3 ij by simp
    next
      case 4
      then show ?thesis using pairs [OF ij] out ij by auto
    qed
  qed
  moreover have "segs_disjoint (S @ L)"
    unfolding segs_disjoint_append using S L(3) disj inv by (fastforce simp: seg_inv_def)
  ultimately show ?thesis using S L(1,2) by (fastforce simp: seg_inv_def)
qed

fun depth_ok :: "rq_segment list \<Rightarrow> bool" where
  "depth_ok [] = True"
| "depth_ok ((p, c, d) # st) = (length st \<le> d \<and> depth_ok st)"

text \<open>What the parts of the routine contribute to an ordering \<open>R\<close>.\<close>

locale rq_order =
  fixes cmp :: "'a cmp_f" and R :: "'a \<Rightarrow> 'a \<Rightarrow> bool"
  assumes less_same: "cmp p x > 0 \<Longrightarrow> same_as cmp p y \<Longrightarrow> R x y"
    and less_greater: "cmp p x > 0 \<Longrightarrow> cmp p y < 0 \<Longrightarrow> R x y"
    and same_same: "same_as cmp p x \<Longrightarrow> same_as cmp p y \<Longrightarrow> R x y"
    and same_greater: "same_as cmp p x \<Longrightarrow> cmp p y < 0 \<Longrightarrow> R x y"
    and heapsort_law: "l + c \<le> length xs \<Longrightarrow> ok (heapsortx cmp l c xs) (sorted_range R l (l + c))"
    and insertion_law: "l + c \<le> length xs \<Longrightarrow> ok (insertion_loop cmp l c 1 xs) (sorted_range R l (l + c))"
begin

lemma partitioned_pairs:
  assumes "partitioned cmp ptr c xs lt gt" and "ptr \<le> i" "i < j" "j < ptr + c"
  shows "in_seg [(ptr, lt, d), (ptr + gt, c - gt, d')] i j \<or> R (xs ! i) (xs ! j)"
proof -
  obtain p where lg: "lt < gt" "gt \<le> c"
    and a: "\<And>k. k < lt \<Longrightarrow> cmp p (xs ! (ptr + k)) > 0"
    and b: "\<And>k. lt \<le> k \<Longrightarrow> k < gt \<Longrightarrow> same_as cmp p (xs ! (ptr + k))"
    and g: "\<And>k. gt \<le> k \<Longrightarrow> k < c \<Longrightarrow> cmp p (xs ! (ptr + k)) < 0"
    using assms(1) unfolding partitioned_def by blast
  define u v where "u = i - ptr" and "v = j - ptr"
  have ij: "i = ptr + u" "j = ptr + v" "u < v" "v < c" using assms by (auto simp: u_def v_def)
  consider "v < lt" | "u < lt" "lt \<le> v" "v < gt" | "u < lt" "gt \<le> v" | "lt \<le> u" "v < gt"
    | "lt \<le> u" "u < gt" "gt \<le> v" | "gt \<le> u" using ij by linarith
  then show ?thesis
  proof cases
    case 2
    then show ?thesis using less_same [OF a [of u] b [of v]] ij by simp
  next
    case 3
    then show ?thesis using less_greater [OF a [of u] g [of v]] ij by simp
  next
    case 4
    then show ?thesis using same_same [OF b [of u] b [of v]] ij by simp
  next
    case 5
    then show ?thesis using same_greater [OF b [of u] g [of v]] ij by simp
  qed (use ij lg in auto)
qed

lemma quick_loop_ok:
  assumes "seg_inv R n xs ((ptr, c, depth) # st)" "length st \<le> depth" "depth_ok st" "n \<le> length xs"
  shows "ok (quick_loop cmp ptr c depth st xs) (\<lambda>(ys, ptr', c', st').
    perm_range 0 n xs ys \<and> seg_inv R n ys ((ptr', c', 0) # st') \<and> depth_ok st')"
  using assms
proof (induction c arbitrary: ptr depth st xs rule: less_induct)
  case (less c)
  have seg: "ptr + c \<le> n" using less.prems(1) by (auto simp: seg_inv_def)
  then have len: "ptr + c \<le> length xs" using less.prems(4) by simp
  consider "c \<le> 6" | "6 < c" "depth + 1 > 50" | "6 < c" "depth + 1 \<le> 50" by linarith
  then show ?case
  proof cases
    case 1
    then show ?thesis
      using seg_inv_depth [OF less.prems(1)] less.prems(3) by (subst quick_loop.simps) (simp add: perm_range_refl)
  next
    case 2
    obtain ys where ys: "heapsortx cmp ptr c xs = Some ys" and py: "perm_range ptr (ptr + c) xs ys"
      and so: "sorted_range R ptr (ptr + c) ys"
      using heapsortx_safe [OF len, of cmp] heapsort_law [OF len] by (auto elim!: okE)
    have "seg_inv R n ys ([(ptr, 0, 0)] @ st)"
      by (rule seg_refine [OF less.prems(1) py less.prems(4)]) (use so in \<open>auto simp: sorted_range_def\<close>)
    then show ?thesis
      using 2 ys less.prems(3) perm_range_widen [OF py, of 0 n] seg by (subst quick_loop.simps) simp
  next
    case 3
    obtain ys lt gt where ys: "partition_step cmp ptr c xs = Some (ys, lt, gt)"
      and py: "perm_range ptr (ptr + c) xs ys" and pa: "partitioned cmp ptr c ys lt gt"
      using partition_step_ok [OF len, of cmp] 3(1) by (auto elim!: okE)
    have lg: "lt < gt" "gt \<le> c" using pa by (auto simp: partitioned_def)
    have ly: "n \<le> length ys" using perm_range_length [OF py] less.prems(4) by simp
    have py': "perm_range 0 n xs ys" using perm_range_widen [OF py, of 0 n] seg by simp
    have rest: "ok (quick_loop cmp q e (depth + 1) ((q', e', depth + 1) # st) ys) (\<lambda>(zs, ptr', c', st').
        perm_range 0 n xs zs \<and> seg_inv R n zs ((ptr', c', 0) # st') \<and> depth_ok st')"
      if "e < c" "seg_inv R n ys ((q, e, depth + 1) # (q', e', depth + 1) # st)" for q e q' e'
      by (rule ok_mono [OF less.IH [OF that(1) that(2) _ _ ly]])
        (use less.prems(2,3) perm_range_trans [OF py'] in auto)
    have push: "rq_push s st = Some (s # st)" for s using 3 less.prems(2) by (simp add: rq_push_def)
    have "seg_inv R n ys ([(ptr, lt, depth + 1), (ptr + gt, c - gt, depth + 1)] @ st)"
      by (rule seg_refine [OF less.prems(1) py less.prems(4)])
        (use lg partitioned_pairs [OF pa] in auto)
    moreover have "seg_inv R n ys ([(ptr + gt, c - gt, depth + 1), (ptr, lt, depth + 1)] @ st)"
      by (rule seg_refine [OF less.prems(1) py less.prems(4)])
        (use lg partitioned_pairs [OF pa, of _ _ "depth + 1" "depth + 1"] in auto)
    ultimately show ?thesis
      using 3 ys push rest lg by (subst quick_loop.simps) simp
  qed
qed

lemma rqsort_loop_ok:
  "seg_inv R n xs st \<Longrightarrow> depth_ok st \<Longrightarrow> n \<le> length xs \<Longrightarrow>
   ok (rqsort_loop cmp st xs) (\<lambda>ys. perm_range 0 n xs ys \<and> sorted_range R 0 n ys)"
proof (induction "rq_work st" arbitrary: st xs rule: less_induct)
  case less
  show ?case
  proof (cases st)
    case Nil
    then show ?thesis
      using less.prems by (simp add: rqsort_loop.simps seg_inv_def sorted_range_def perm_range_refl)
  next
    case (Cons e st0)
    obtain ptr c d where e: "e = (ptr, c, d)" by (cases e)
    obtain ys ptr' c' st' where q: "quick_loop cmp ptr c d st0 xs = Some (ys, ptr', c', st')"
      and py: "perm_range 0 n xs ys" and inv: "seg_inv R n ys ((ptr', c', 0) # st')" and dep: "depth_ok st'"
      using quick_loop_ok [of n xs ptr c d st0] less.prems Cons e by (auto elim!: okE)
    have ly: "n \<le> length ys" using perm_range_length [OF py] less.prems(3) by simp
    have seg: "ptr' + c' \<le> n" using inv by (auto simp: seg_inv_def)
    obtain zs where zs: "insertion_loop cmp ptr' c' 1 ys = Some zs" and pz: "perm_range ptr' (ptr' + c') ys zs"
      and so: "sorted_range R ptr' (ptr' + c') zs"
      using insertion_loop_safe [of ptr' c' ys cmp 1] insertion_law [of ptr' c' ys] seg ly by (auto elim!: okE)
    have pz': "perm_range 0 n xs zs"
      using perm_range_trans [OF py] perm_range_widen [OF pz, of 0 n] seg by simp
    have "seg_inv R n zs ([] @ st')"
      by (rule seg_refine [OF inv pz ly]) (use so in \<open>auto simp: sorted_range_def\<close>)
    moreover have "rq_work st' < rq_work st"
      using uptoD [OF quick_loop_work q] Cons e by (simp add: rq_work_def)
    ultimately have "ok (rqsort_loop cmp st' zs) (\<lambda>us. perm_range 0 n zs us \<and> sorted_range R 0 n us)"
      using less.hyps dep perm_range_length [OF pz] ly by simp
    then have "ok (rqsort_loop cmp st' zs) (\<lambda>us. perm_range 0 n xs us \<and> sorted_range R 0 n us)"
      by (rule ok_mono) (use perm_range_trans [OF pz'] in auto)
    then show ?thesis using Cons e q zs by (simp add: rqsort_loop.simps)
  qed
qed

lemma rqsort_ok:
  assumes "n \<le> length xs" "0 < sz"
  shows "ok (rqsort cmp n sz xs) (\<lambda>ys. perm_range 0 n xs ys \<and> sorted_range R 0 n ys)"
proof (cases "n < 2")
  case True
  then show ?thesis by (simp add: rqsort_def perm_range_refl sorted_range_def)
next
  case False
  have "seg_inv R n xs [(0, n, 0)]" by (simp add: seg_inv_def)
  then show ?thesis using rqsort_loop_ok [of n xs "[(0, n, 0)]"] False assms by (simp add: rqsort_def)
qed

end

interpretation any: rq_order cmp "\<lambda>_ _. True" for cmp :: "'a cmp_f"
  by unfold_locales (auto simp: sorted_range_def elim!: ok_mono [OF heapsortx_safe] ok_mono [OF insertion_loop_safe])

context total_cmp
begin

lemma le_same: "same_as cmp p x \<Longrightarrow> cmp p x \<le> 0 \<and> cmp x p \<le> 0"
  using le_refl [of p] cmp_swap [of p x] cmp_swap [of x p] by auto

end

sublocale total_cmp \<subseteq> sorting: rq_order cmp "\<lambda>x y. cmp x y \<le> 0"
proof unfold_locales
  show "cmp x y \<le> 0" if "cmp p x > 0" "same_as cmp p y" for p x y
    using cmp_trans [of x p y] le_same [OF that(2)] that(1) cmp_swap [of p x] by simp
  show "cmp x y \<le> 0" if "cmp p x > 0" "cmp p y < 0" for p x y
    using cmp_trans [of x p y] that cmp_swap [of p x] by simp
  show "cmp x y \<le> 0" if "same_as cmp p x" "same_as cmp p y" for p x y
    using cmp_trans [of x p y] le_same [OF that(1)] le_same [OF that(2)] by simp
  show "cmp x y \<le> 0" if "same_as cmp p x" "cmp p y < 0" for p x y
    using cmp_trans [of x p y] le_same [OF that(1)] that(2) by simp
  show "ok (heapsortx cmp l c xs) (sorted_range (\<lambda>x y. cmp x y \<le> 0) l (l + c))" if "l + c \<le> length xs" for l c xs
    using heapsortx_sorted [OF that] .
  show "ok (insertion_loop cmp l c 1 xs) (sorted_range (\<lambda>x y. cmp x y \<le> 0) l (l + c))" if "l + c \<le> length xs" for l c xs
    by (rule ok_mono [OF insertion_loop_sorted [OF that, of 1]]) (auto intro: sorted_range_short)
qed

context total_cmp
begin

lemma rqsort_sorted:
  assumes "n \<le> length xs" "0 < sz"
  shows "ok (rqsort cmp n sz xs) (\<lambda>ys. perm_range 0 n xs ys \<and> sorted_range le 0 n ys)"
  by (rule sorting.rqsort_ok [OF assms])

end

end
