(* ===== verification/CharRange.thy ===== *)
theory CharRange
  imports DynBuf Rqsort_Order
begin

text \<open>
  The character ranges of \<open>src/native/quickjs/libunicode.c\<close> and \<open>libunicode.h\<close>: sets of code points
  as sorted arrays of interval boundaries.  The abstraction \<open>cr_set\<close> reads a boundary list as the
  set of the points with an odd number of boundaries at or before them.  The allocation function is
  a parameter, as for the dynamic buffers; the lengths are the non-negative values of the \<open>int\<close>
  fields, and the product in \<open>cr_realloc\<close> is undefined when it leaves \<open>int\<close>.
\<close>

section \<open>State and operations\<close>

record CharRange =
  cr_len :: nat
  cr_size :: nat
  cr_points :: "u32 list option"

type_synonym 'm cr_realloc_f = "'m \<Rightarrow> u32 list option \<Rightarrow> size_t \<Rightarrow> ('m \<times> u32 list option) option"

definition cr_init :: CharRange where
  "cr_init = \<lparr>cr_len = 0, cr_size = 0, cr_points = None\<rparr>"

definition cr_free :: "'m cr_realloc_f \<Rightarrow> 'm \<Rightarrow> CharRange \<Rightarrow> 'm option" where
  "cr_free ra m cr = do { (m', p) \<leftarrow> ra m (cr_points cr) 0; Some m' }"

definition cr_realloc :: "'m cr_realloc_f \<Rightarrow> 'm \<Rightarrow> CharRange \<Rightarrow> nat \<Rightarrow> ('m \<times> CharRange \<times> int) option" where
  "cr_realloc ra m cr sz =
     (if sz > cr_size cr then
        (if cr_size cr * 3 \<ge> 2 ^ 31 then None
         else let new_size = nat (max_int (int sz) (int (cr_size cr) * 3 div 2)) in do {
           (m', p) \<leftarrow> ra m (cr_points cr) (word_of_nat (new_size * 4));
           case p of
             None \<Rightarrow> Some (m', cr, -1)
           | Some b \<Rightarrow> Some (m', cr\<lparr>cr_points := Some b, cr_size := new_size\<rparr>, 0) })
      else Some (m, cr, 0))"

text \<open>A store into \<open>cr->points\<close>.\<close>

definition cr_wr :: "CharRange \<Rightarrow> nat \<Rightarrow> u32 \<Rightarrow> CharRange option" where
  "cr_wr cr i v = (case cr_points cr of
       None \<Rightarrow> None
     | Some b \<Rightarrow> do { b' \<leftarrow> wr b i v; Some (cr\<lparr>cr_points := Some b'\<rparr>) })"

definition cr_rd :: "CharRange \<Rightarrow> nat \<Rightarrow> u32 option" where
  "cr_rd cr i = rd (blk (cr_points cr)) i"

definition cr_copy :: "'m cr_realloc_f \<Rightarrow> 'm \<Rightarrow> CharRange \<Rightarrow> CharRange \<Rightarrow> ('m \<times> CharRange \<times> int) option" where
  "cr_copy ra m cr cr1 = do {
     (m', cr', r) \<leftarrow> cr_realloc ra m cr (cr_len cr1);
     if r \<noteq> 0 then Some (m', cr', -1)
     else if cr_len cr1 = 0 then Some (m', cr'\<lparr>cr_len := 0\<rparr>, 0)
     else if length (blk (cr_points cr1)) < cr_len cr1 then None
     else do {
       b \<leftarrow> memcpy_at (blk (cr_points cr')) 0 (take (cr_len cr1) (blk (cr_points cr1)));
       Some (m', cr'\<lparr>cr_points := Some b, cr_len := cr_len cr1\<rparr>, 0) } }"

definition cr_add_point :: "'m cr_realloc_f \<Rightarrow> 'm \<Rightarrow> CharRange \<Rightarrow> u32 \<Rightarrow> ('m \<times> CharRange \<times> int) option" where
  "cr_add_point ra m cr v = do {
     (m', cr', r) \<leftarrow> (if cr_len cr \<ge> cr_size cr then cr_realloc ra m cr (cr_len cr + 1) else Some (m, cr, 0));
     if r \<noteq> 0 then Some (m', cr', -1)
     else do {
       cr1 \<leftarrow> cr_wr cr' (cr_len cr') v;
       Some (m', cr1\<lparr>cr_len := cr_len cr1 + 1\<rparr>, 0) } }"

definition cr_add_interval :: "'m cr_realloc_f \<Rightarrow> 'm \<Rightarrow> CharRange \<Rightarrow> u32 \<Rightarrow> u32 \<Rightarrow> ('m \<times> CharRange \<times> int) option" where
  "cr_add_interval ra m cr c1 c2 = do {
     (m', cr', r) \<leftarrow> (if cr_len cr + 2 > cr_size cr then cr_realloc ra m cr (cr_len cr + 2) else Some (m, cr, 0));
     if r \<noteq> 0 then Some (m', cr', -1)
     else do {
       cr1 \<leftarrow> cr_wr cr' (cr_len cr') c1;
       cr2 \<leftarrow> cr_wr (cr1\<lparr>cr_len := cr_len cr1 + 1\<rparr>) (cr_len cr1 + 1) c2;
       Some (m', cr2\<lparr>cr_len := cr_len cr2 + 1\<rparr>, 0) } }"

text \<open>\<open>cr_compress\<close>: the inner loop finds the last interval that touches the current one.\<close>

function compress_skip :: "u32 list \<Rightarrow> nat \<Rightarrow> nat \<Rightarrow> nat option" where
  "compress_skip pt len j =
     (if j + 3 < len then do {
        x \<leftarrow> rd pt (j + 1);
        y \<leftarrow> rd pt (j + 2);
        if x = y then compress_skip pt len (j + 2) else Some j }
      else Some j)"
  by pat_completeness auto
termination by (relation "measure (\<lambda>(pt, len, j). len - j)") auto

declare compress_skip.simps [simp del]

lemma compress_skip_ge: "compress_skip pt len j = Some j' \<Longrightarrow> j \<le> j'"
proof (induction pt len j rule: compress_skip.induct)
  case (1 pt len j)
  from "1.prems" show ?case
    by (subst (asm) compress_skip.simps) (auto split: if_splits option.splits bind_splits dest!: "1.IH")
qed

function compress_loop :: "u32 list \<Rightarrow> nat \<Rightarrow> nat \<Rightarrow> nat \<Rightarrow> (u32 list \<times> nat) option" where
  "compress_loop pt len i k =
     (if i + 1 < len then do {
        x \<leftarrow> rd pt i;
        y \<leftarrow> rd pt (i + 1);
        if x = y then compress_loop pt len (i + 2) k
        else do {
          j \<leftarrow> compress_skip pt len i;
          a \<leftarrow> rd pt i;
          pt1 \<leftarrow> wr pt k a;
          b \<leftarrow> rd pt1 (j + 1);
          pt2 \<leftarrow> wr pt1 (k + 1) b;
          compress_loop pt2 len (j + 2) (k + 2) } }
      else Some (pt, k))"
  by pat_completeness auto
termination
  by (relation "measure (\<lambda>(pt, len, i, k). len - i)") (auto dest: compress_skip_ge)

declare compress_loop.simps [simp del]

definition cr_compress :: "CharRange \<Rightarrow> CharRange option" where
  "cr_compress cr =
     (if cr_len cr \<le> 1 then Some (cr\<lparr>cr_len := 0\<rparr>)
      else do {
        (pt, k) \<leftarrow> compress_loop (blk (cr_points cr)) (cr_len cr) 0 0;
        Some (cr\<lparr>cr_points := Some pt, cr_len := k\<rparr>) })"

datatype CharRangeOp = CR_OP_UNION | CR_OP_INTER | CR_OP_XOR

fun is_in :: "CharRangeOp \<Rightarrow> bool \<Rightarrow> bool \<Rightarrow> bool" where
  "is_in CR_OP_UNION a b = (a \<or> b)"
| "is_in CR_OP_INTER a b = (a \<and> b)"
| "is_in CR_OP_XOR a b = (a \<noteq> b)"

text \<open>One more point from \<open>a\<close> or \<open>b\<close> in increasing order, with the advanced indices; \<^term>\<open>Some None\<close> at
  the end of both.\<close>

definition cr_next :: "u32 list \<Rightarrow> nat \<Rightarrow> u32 list \<Rightarrow> nat \<Rightarrow> nat \<Rightarrow> nat \<Rightarrow> (u32 \<times> nat \<times> nat) option option" where
  "cr_next a_pt a_len b_pt b_len a_idx b_idx =
     (if a_idx < a_len \<and> b_idx < b_len then do {
        x \<leftarrow> rd a_pt a_idx;
        y \<leftarrow> rd b_pt b_idx;
        Some (Some (if x < y then (x, a_idx + 1, b_idx)
                    else if x = y then (x, a_idx + 1, b_idx + 1) else (y, a_idx, b_idx + 1))) }
      else if a_idx < a_len then do { x \<leftarrow> rd a_pt a_idx; Some (Some (x, a_idx + 1, b_idx)) }
      else if b_idx < b_len then do { y \<leftarrow> rd b_pt b_idx; Some (Some (y, a_idx, b_idx + 1)) }
      else Some None)"

lemma cr_next_less:
  "cr_next a_pt a_len b_pt b_len ai bi = Some (Some (v, ai', bi')) \<Longrightarrow>
   (a_len - ai') + (b_len - bi') < (a_len - ai) + (b_len - bi)"
  by (auto simp: cr_next_def split: if_splits bind_splits)

function cr_op_loop ::
  "'m cr_realloc_f \<Rightarrow> u32 list \<Rightarrow> nat \<Rightarrow> u32 list \<Rightarrow> nat \<Rightarrow> CharRangeOp \<Rightarrow> 'm \<Rightarrow> CharRange \<Rightarrow> nat \<Rightarrow> nat \<Rightarrow>
   ('m \<times> CharRange \<times> int) option" where
  "cr_op_loop ra a_pt a_len b_pt b_len opr m cr a_idx b_idx = do {
     n \<leftarrow> cr_next a_pt a_len b_pt b_len a_idx b_idx;
     case n of
       None \<Rightarrow> Some (m, cr, 0)
     | Some (v, ai, bi) \<Rightarrow>
         if is_in opr (odd ai) (odd bi) \<noteq> odd (cr_len cr) then do {
           (m', cr', r) \<leftarrow> cr_add_point ra m cr v;
           if r \<noteq> 0 then Some (m', cr', -1)
           else cr_op_loop ra a_pt a_len b_pt b_len opr m' cr' ai bi }
         else cr_op_loop ra a_pt a_len b_pt b_len opr m cr ai bi }"
  by pat_completeness auto
termination
  by (relation "measure (\<lambda>(ra, a_pt, a_len, b_pt, b_len, opr, m, cr, ai, bi). (a_len - ai) + (b_len - bi))")
    (auto dest!: cr_next_less)

declare cr_op_loop.simps [simp del]

definition cr_op ::
  "'m cr_realloc_f \<Rightarrow> 'm \<Rightarrow> CharRange \<Rightarrow> u32 list \<Rightarrow> nat \<Rightarrow> u32 list \<Rightarrow> nat \<Rightarrow> CharRangeOp \<Rightarrow>
   ('m \<times> CharRange \<times> int) option" where
  "cr_op ra m cr a_pt a_len b_pt b_len opr = do {
     (m', cr', r) \<leftarrow> cr_op_loop ra a_pt a_len b_pt b_len opr m cr 0 0;
     if r \<noteq> 0 then Some (m', cr', -1)
     else do { cr'' \<leftarrow> cr_compress cr'; Some (m', cr'', 0) } }"

definition cr_union1 :: "'m cr_realloc_f \<Rightarrow> 'm \<Rightarrow> CharRange \<Rightarrow> u32 list \<Rightarrow> nat \<Rightarrow> ('m \<times> CharRange \<times> int) option" where
  "cr_union1 ra m cr b_pt b_len = do {
     (m', cr', ret) \<leftarrow> cr_op ra m \<lparr>cr_len = 0, cr_size = 0, cr_points = None\<rparr>
        (blk (cr_points cr)) (cr_len cr) b_pt b_len CR_OP_UNION;
     m'' \<leftarrow> cr_free ra m' cr;
     Some (m'', cr', ret) }"

definition cr_union_interval :: "'m cr_realloc_f \<Rightarrow> 'm \<Rightarrow> CharRange \<Rightarrow> u32 \<Rightarrow> u32 \<Rightarrow> ('m \<times> CharRange \<times> int) option" where
  "cr_union_interval ra m cr c1 c2 = cr_union1 ra m cr [c1, c2 + 1] 2"

definition cr_invert :: "'m cr_realloc_f \<Rightarrow> 'm \<Rightarrow> CharRange \<Rightarrow> ('m \<times> CharRange \<times> int) option" where
  "cr_invert ra m cr = do {
     let len = cr_len cr;
     (m', cr', r) \<leftarrow> cr_realloc ra m cr (len + 2);
     if r \<noteq> 0 then Some (m', cr', -1)
     else do {
       b1 \<leftarrow> memcpy_at (blk (cr_points cr')) 1 (take len (blk (cr_points cr')));
       b2 \<leftarrow> wr b1 0 0;
       b3 \<leftarrow> wr b2 (len + 1) (-1);
       cr'' \<leftarrow> cr_compress (cr'\<lparr>cr_points := Some b3, cr_len := len + 2\<rparr>);
       Some (m', cr'', 0) } }"

section \<open>Sorting of intervals\<close>

type_synonym interval = "u32 \<times> u32"

definition point_cmp :: "interval \<Rightarrow> interval \<Rightarrow> int" where
  "point_cmp p1 p2 = (let v1 = fst p1; v2 = fst p2 in of_bool (v1 > v2) - of_bool (v1 < v2))"

text \<open>The array of points seen as an array of intervals, as in the call of \<open>rqsort\<close>.\<close>

fun pair_up :: "u32 list \<Rightarrow> interval list" where
  "pair_up (x # y # xs) = (x, y) # pair_up xs"
| "pair_up _ = []"

definition flatten :: "interval list \<Rightarrow> u32 list" where
  "flatten ps = concat (map (\<lambda>(x, y). [x, y]) ps)"

function overlap_scan :: "u32 list \<Rightarrow> nat \<Rightarrow> nat \<Rightarrow> u32 \<Rightarrow> (nat \<times> u32) option" where
  "overlap_scan pt len i end_pt =
     (if i < len then do {
        start1 \<leftarrow> rd pt i;
        end1 \<leftarrow> rd pt (i + 1);
        if start1 > end_pt then Some (i, end_pt)
        else if end1 \<le> end_pt then overlap_scan pt len (i + 2) end_pt
        else overlap_scan pt len (i + 2) end1 }
      else Some (i, end_pt))"
  by pat_completeness auto
termination by (relation "measure (\<lambda>(pt, len, i, e). len - i)") auto

declare overlap_scan.simps [simp del]

lemma overlap_scan_ge: "upto_ub (overlap_scan pt len i e) (\<lambda>(i', e'). i \<le> i')"
proof (induction pt len i e rule: overlap_scan.induct)
  case (1 pt len i e)
  show ?case
    apply (subst overlap_scan.simps)
    apply (intro upto_intros)
    subgoal by simp
    subgoal by (rule upto_mono [OF "1.IH"(1)]) auto
    subgoal by (rule upto_mono [OF "1.IH"(2)]) auto
    subgoal by simp
    done
qed

function overlap_loop :: "u32 list \<Rightarrow> nat \<Rightarrow> nat \<Rightarrow> nat \<Rightarrow> (u32 list \<times> nat) option" where
  "overlap_loop pt len i j =
     (if i < len then do {
        start \<leftarrow> rd pt i;
        end0 \<leftarrow> rd pt (i + 1);
        (i', end1) \<leftarrow> overlap_scan pt len (i + 2) end0;
        pt1 \<leftarrow> wr pt j start;
        pt2 \<leftarrow> wr pt1 (j + 1) end1;
        overlap_loop pt2 len i' (j + 2) }
      else Some (pt, j))"
  by pat_completeness auto
termination
  by (relation "measure (\<lambda>(pt, len, i, j). len - i)") (auto dest!: uptoD [OF overlap_scan_ge])

declare overlap_loop.simps [simp del]

definition cr_sort_and_remove_overlap :: "CharRange \<Rightarrow> CharRange option" where
  "cr_sort_and_remove_overlap cr = do {
     let pts = blk (cr_points cr);
     ps \<leftarrow> rqsort point_cmp (cr_len cr div 2) 8 (pair_up (take (cr_len cr) pts));
     (pt, j) \<leftarrow> overlap_loop (flatten ps @ drop (2 * (cr_len cr div 2)) pts) (cr_len cr) 0 0;
     Some (cr\<lparr>cr_points := map_option (\<lambda>_. pt) (cr_points cr), cr_len := j\<rparr>) }"

end
