(* ===== verification/CharRange_Sets.thy ===== *)
theory CharRange_Sets
  imports CharRange
begin

text \<open>
  Correctness of the character ranges: \<open>cr_compress\<close> normalises, \<open>cr_op\<close> computes union,
  intersection and symmetric difference of the denoted sets, \<open>cr_invert\<close> the complement, and
  \<open>cr_sort_and_remove_overlap\<close> normalises an arbitrary list of intervals, with \<open>rqsort\<close> as its sort.
\<close>

section \<open>Boundary lists as sets\<close>

definition cnt :: "u32 \<Rightarrow> u32 list \<Rightarrow> nat" where
  "cnt c pts = length (filter (\<lambda>p. p \<le> c) pts)"

definition cr_set :: "u32 list \<Rightarrow> u32 set" where
  "cr_set pts = {c. odd (cnt c pts)}"

lemma cnt_simps [simp]:
  "cnt c [] = 0" "cnt c (x # xs) = (if x \<le> c then Suc (cnt c xs) else cnt c xs)"
  "cnt c (xs @ ys) = cnt c xs + cnt c ys"
  by (simp_all add: cnt_def)

lemma cnt_above: "sorted (x # xs) \<Longrightarrow> c < x \<Longrightarrow> cnt c xs = 0"
  by (auto simp: cnt_def filter_empty_conv)

lemma cnt_all: "\<forall>x \<in> set xs. x \<le> c \<Longrightarrow> cnt c xs = length xs"
  by (simp add: cnt_def filter_id_conv)

text \<open>A normalised range: strictly increasing boundaries, an even number of them.\<close>

definition cr_normal :: "u32 list \<Rightarrow> bool" where
  "cr_normal pts \<longleftrightarrow> sorted_wrt (<) pts \<and> even (length pts)"

section \<open>Compression\<close>

fun comp :: "u32 list \<Rightarrow> u32 list" where
  "comp (x # y # z # w # r) =
     (if x = y then comp (z # w # r) else if y = z then comp (x # w # r) else x # y # comp (z # w # r))"
| "comp (x # y # r) = (if x = y then [] else [x, y])"
| "comp _ = []"

lemma comp_subset: "set (comp xs) \<subseteq> set xs"
  by (induction xs rule: comp.induct) auto

lemma comp_length: "length (comp xs) \<le> length xs"
  by (induction xs rule: comp.induct) auto

lemma comp_even: "even (length (comp xs))"
  by (induction xs rule: comp.induct) auto

lemma comp_strict: "sorted xs \<Longrightarrow> sorted_wrt (<) (comp xs)"
proof (induction xs rule: comp.induct)
  case (1 x y z w r)
  show ?case
  proof (cases "x = y \<or> y = z")
    case True
    then show ?thesis using "1.IH"(1,2) "1.prems" by (cases "x = y") auto
  next
    case False
    have "x < y" "y < z" using "1.prems" False by auto
    have "\<forall>v \<in> set (comp (z # w # r)). z \<le> v"
      using comp_subset [of "z # w # r"] "1.prems" by auto
    then have "\<forall>v \<in> set (comp (z # w # r)). x < v \<and> y < v"
      using \<open>x < y\<close> \<open>y < z\<close> by fastforce
    then show ?thesis using "1.IH"(3) "1.prems" False \<open>x < y\<close> by simp
  qed
qed auto

lemma comp_cnt: "even (length xs) \<Longrightarrow> even (cnt c (comp xs)) = even (cnt c xs)"
  by (induction xs rule: comp.induct) auto

lemma comp_set: "even (length xs) \<Longrightarrow> cr_set (comp xs) = cr_set xs"
  using comp_cnt by (auto simp: cr_set_def)

lemma slice_Suc: "i < h \<Longrightarrow> h \<le> length xs \<Longrightarrow> slice i h xs = xs ! i # slice (Suc i) h xs"
proof -
  assume a: "i < h" "h \<le> length xs"
  then have "h - i = Suc (h - Suc i)" by simp
  then show ?thesis using a by (simp add: slice_def Cons_nth_drop_Suc [symmetric])
qed

lemma slice_empty [simp]: "h \<le> i \<Longrightarrow> slice i h xs = []"
  by (simp add: slice_def)

lemma sorted_slice_Suc: "i < h \<Longrightarrow> h \<le> length xs \<Longrightarrow> sorted (slice i h xs) \<Longrightarrow> sorted (slice (Suc i) h xs)"
  by (simp add: slice_Suc)

lemma compress_skip_comp:
  assumes "len \<le> length pt" "j + 1 < len" "even (len - j)" "a < pt ! (j + 1)" "sorted (slice (j + 1) len pt)"
  shows "ok (compress_skip pt len j) (\<lambda>j'. j \<le> j' \<and> even (len - j') \<and> j' + 1 < len \<and>
    comp (a # slice (j + 1) len pt) = a # pt ! (j' + 1) # comp (slice (j' + 2) len pt))"
  using assms
proof (induction pt len j rule: compress_skip.induct)
  case (1 pt len j)
  note p = "1.prems"
  show ?case
  proof (cases "j + 3 < len")
    case False
    then have "len = j + 2 \<or> len = j + 3" using p by auto
    then have "len = j + 2" using p(3) by auto
    then show ?thesis using p False
      by (subst compress_skip.simps) (auto simp: slice_Suc)
  next
    case True
    then have tr: "rd pt (j + 1) = Some (pt ! (j + 1))" "rd pt (j + 2) = Some (pt ! (j + 2))"
      using p(1) by (auto simp: rd_def)
    have s: "slice (j + 1) len pt = pt ! (j + 1) # pt ! (j + 2) # pt ! (j + 3) # slice (j + 4) len pt"
      using True p(1) by (simp add: slice_Suc numeral_eq_Suc)
    have s2: "slice (j + 2) len pt = pt ! (j + 2) # pt ! (j + 3) # slice (j + 4) len pt"
      "slice (j + 3) len pt = pt ! (j + 3) # slice (j + 4) len pt"
      using True p(1) by (simp_all add: slice_Suc numeral_eq_Suc)
    show ?thesis
    proof (cases "pt ! (j + 1) = pt ! (j + 2)")
      case eq: True
      have e: "j + 2 + 1 = j + 3" and ev: "even (len - (j + 2))" using p(3) True by auto
      have "a < pt ! (j + 3)" using p(4,5) s by (auto intro: less_le_trans)
      then have "ok (compress_skip pt len (j + 2)) (\<lambda>j'. j + 2 \<le> j' \<and> even (len - j') \<and> j' + 1 < len \<and>
          comp (a # slice (j + 3) len pt) = a # pt ! (j' + 1) # comp (slice (j' + 2) len pt))"
        using ev p(1,5) s s2(2) True by (intro "1.IH" [OF True tr eq, unfolded e]) auto
      moreover have "comp (a # slice (j + 1) len pt) = comp (a # slice (j + 3) len pt)"
        using s s2(2) eq p(4) by simp
      ultimately show ?thesis using True tr eq
        by (subst compress_skip.simps) (auto elim!: ok_mono)
    next
      case False
      then show ?thesis using True tr s s2 p(3,4) by (subst compress_skip.simps) auto
    qed
  qed
qed

lemma slice_update_below: "k < i \<Longrightarrow> slice i h (xs[k := v]) = slice i h xs"
  by (simp add: slice_def drop_update_cancel)

lemma compress_loop_comp:
  assumes "len \<le> length pt" "k \<le> i" "i \<le> len" "even (len - i)" "sorted (slice i len pt)"
  shows "ok (compress_loop pt len i k) (\<lambda>(pt', k'). length pt' = length pt \<and>
    k' = k + length (comp (slice i len pt)) \<and> take k' pt' = take k pt @ comp (slice i len pt))"
  using assms
proof (induction "len - i" arbitrary: pt i k rule: less_induct)
  case less
  note p = less.prems
  show ?case
  proof (cases "i + 1 < len")
    case False
    then have "slice i len pt = [] \<or> (\<exists>x. slice i len pt = [x])"
      using p by (cases "i < len") (auto simp: slice_Suc)
    then show ?thesis using False by (subst compress_loop.simps) auto
  next
    case True
    have r: "rd pt i = Some (pt ! i)" "rd pt (i + 1) = Some (pt ! (i + 1))" using True p(1) by (auto simp: rd_def)
    have s: "slice i len pt = pt ! i # slice (i + 1) len pt" "slice (i + 1) len pt = pt ! (i + 1) # slice (i + 2) len pt"
      using True p(1) by (simp_all add: slice_Suc)
    show ?thesis
    proof (cases "pt ! i = pt ! (i + 1)")
      case eq: True
      have c: "comp (slice i len pt) = comp (slice (i + 2) len pt)"
      proof (cases "i + 3 < len")
        case True
        then have "slice (i + 2) len pt = pt ! (i + 2) # pt ! (i + 3) # slice (i + 4) len pt"
          using p(1) by (simp add: slice_Suc numeral_eq_Suc)
        then show ?thesis using s eq by simp
      next
        case False
        then have "len = i + 2" using p(4) True by presburger
        then show ?thesis using s eq by simp
      qed
      have "ok (compress_loop pt len (i + 2) k) (\<lambda>(pt', k'). length pt' = length pt \<and>
          k' = k + length (comp (slice (i + 2) len pt)) \<and> take k' pt' = take k pt @ comp (slice (i + 2) len pt))"
        using True p s by (intro less.hyps) auto
      then show ?thesis using True r eq c by (subst compress_loop.simps) simp
    next
      case False
      then have "pt ! i < pt ! (i + 1)" using p(5) s by (auto simp: less_le)
      then obtain j where j: "compress_skip pt len i = Some j" "i \<le> j" "even (len - j)" "j + 1 < len"
        and cj: "comp (slice i len pt) = pt ! i # pt ! (j + 1) # comp (slice (j + 2) len pt)"
        using compress_skip_comp [of len pt i "pt ! i"] p s True by (auto elim!: okE)
      define q where "q = pt[k := pt ! i, k + 1 := pt ! (j + 1)]"
      have b: "rd (pt[k := pt ! i]) (j + 1) = Some (pt ! (j + 1))" using j p by (auto simp: rd_def)
      have w: "wr pt k (pt ! i) = Some (pt[k := pt ! i])" "wr (pt[k := pt ! i]) (k + 1) (pt ! (j + 1)) = Some q"
        using j p by (auto simp: wr_def q_def)
      have sq: "slice (j + 2) len q = slice (j + 2) len pt" using j p by (simp add: q_def slice_update_below)
      have tq: "take (k + 2) q = take k pt @ [pt ! i, pt ! (j + 1)]"
        using j p by (intro nth_equalityI) (auto simp: q_def nth_append nth_list_update less_Suc_eq nth_Cons')
      have srt: "sorted (slice (j + 2) len pt)"
        using sorted_wrt_drop [OF p(5), of "j + 2 - i"] j(2) by (simp add: slice_def drop_take)
      have "ok (compress_loop q len (j + 2) (k + 2)) (\<lambda>(pt', k'). length pt' = length q \<and>
          k' = k + 2 + length (comp (slice (j + 2) len q)) \<and> take k' pt' = take (k + 2) q @ comp (slice (j + 2) len q))"
        using j p srt sq by (intro less.hyps) (auto simp: q_def)
      then show ?thesis using True r False j b w sq tq cj
        by (subst compress_loop.simps) (auto simp: q_def elim!: ok_mono)
    qed
  qed
qed

section \<open>Merging two boundary lists\<close>

text \<open>\<open>pa\<close> and \<open>pb\<close>: whether the current position is inside the first and the second set.\<close>

definition emit :: "(bool \<Rightarrow> bool \<Rightarrow> bool) \<Rightarrow> bool \<Rightarrow> bool \<Rightarrow> bool \<Rightarrow> bool \<Rightarrow> u32 \<Rightarrow> u32 list \<Rightarrow> u32 list" where
  "emit f pa pb pa' pb' v rest = (if f pa' pb' \<noteq> f pa pb then v # rest else rest)"

fun mrg :: "(bool \<Rightarrow> bool \<Rightarrow> bool) \<Rightarrow> bool \<Rightarrow> bool \<Rightarrow> u32 list \<Rightarrow> u32 list \<Rightarrow> u32 list" where
  "mrg f pa pb [] [] = []"
| "mrg f pa pb (x # a) [] = emit f pa pb (\<not> pa) pb x (mrg f (\<not> pa) pb a [])"
| "mrg f pa pb [] (y # b) = emit f pa pb pa (\<not> pb) y (mrg f pa (\<not> pb) [] b)"
| "mrg f pa pb (x # a) (y # b) =
     (if x < y then emit f pa pb (\<not> pa) pb x (mrg f (\<not> pa) pb a (y # b))
      else if x = y then emit f pa pb (\<not> pa) (\<not> pb) x (mrg f (\<not> pa) (\<not> pb) a b)
      else emit f pa pb pa (\<not> pb) y (mrg f pa (\<not> pb) (x # a) b))"

lemma mrg_subset: "set (mrg f pa pb a b) \<subseteq> set a \<union> set b"
  by (induction f pa pb a b rule: mrg.induct) (auto simp: emit_def)

lemma mrg_length: "length (mrg f pa pb a b) \<le> length a + length b"
  by (induction f pa pb a b rule: mrg.induct) (auto simp: emit_def)

lemma mrg_parity:
  "odd (length (mrg f pa pb a b)) \<longleftrightarrow> f (pa \<noteq> odd (length a)) (pb \<noteq> odd (length b)) \<noteq> f pa pb"
  by (induction f pa pb a b rule: mrg.induct) (auto simp: emit_def)

lemma mrg_sorted: "sorted a \<Longrightarrow> sorted b \<Longrightarrow> sorted (mrg f pa pb a b)"
proof (induction f pa pb a b rule: mrg.induct)
  case (2 f pa pb x a)
  then show ?case using mrg_subset [of f "\<not> pa" pb a "[]"] by (auto simp: emit_def)
next
  case (3 f pa pb y b)
  then show ?case using mrg_subset [of f pa "\<not> pb" "[]" b] by (auto simp: emit_def)
next
  case (4 f pa pb x a y b)
  have lb: "\<forall>z \<in> set a \<union> set (y # b). x \<le> z" if "x \<le> y"
    using that "4.prems" by (auto intro: order.trans [of x y])
  have lb': "\<forall>z \<in> set (x # a) \<union> set b. y \<le> z" if "y \<le> x"
    using that "4.prems" by (auto intro: order.trans [of y x])
  consider "x < y" | "x = y" | "y < x" by fastforce
  then show ?case
  proof cases
    case 1
    have "\<forall>z \<in> set (mrg f (\<not> pa) pb a (y # b)). x \<le> z" using lb mrg_subset [of f "\<not> pa" pb a "y # b"] 1 by fastforce
    then show ?thesis using 1 "4.IH"(1) "4.prems" by (simp add: emit_def)
  next
    case 2
    have "\<forall>z \<in> set (mrg f (\<not> pa) (\<not> pb) a b). x \<le> z" using lb mrg_subset [of f "\<not> pa" "\<not> pb" a b] 2 by fastforce
    then show ?thesis using 2 "4.IH"(2) "4.prems" by (simp add: emit_def)
  next
    case 3
    have "\<forall>z \<in> set (mrg f pa (\<not> pb) (x # a) b). y \<le> z" using lb' mrg_subset [of f pa "\<not> pb" "x # a" b] 3 by fastforce
    moreover have "\<not> x < y" "x \<noteq> y" using 3 by auto
    ultimately show ?thesis using "4.IH"(3) "4.prems" by (simp add: emit_def)
  qed
qed auto

lemma mrg_cnt:
  "sorted a \<Longrightarrow> sorted b \<Longrightarrow>
   odd (cnt c (mrg f pa pb a b)) \<longleftrightarrow> f (pa \<noteq> odd (cnt c a)) (pb \<noteq> odd (cnt c b)) \<noteq> f pa pb"
proof (induction f pa pb a b rule: mrg.induct)
  case (2 f pa pb x a)
  have "cnt c (mrg f (\<not> pa) pb a []) = 0 \<and> cnt c a = 0" if "c < x"
    using 2 that cnt_above [of x a c] cnt_above [of x "mrg f (\<not> pa) pb a []" c] mrg_sorted [of a "[]" f "\<not> pa" pb]
      mrg_subset [of f "\<not> pa" pb a "[]"] by fastforce
  then show ?case using 2 by (cases "x \<le> c") (auto simp: emit_def not_le)
next
  case (3 f pa pb y b)
  have "cnt c (mrg f pa (\<not> pb) [] b) = 0 \<and> cnt c b = 0" if "c < y"
    using 3 that cnt_above [of y b c] cnt_above [of y "mrg f pa (\<not> pb) [] b" c] mrg_sorted [of "[]" b f pa "\<not> pb"]
      mrg_subset [of f pa "\<not> pb" "[]" b] by fastforce
  then show ?case using 3 by (cases "y \<le> c") (auto simp: emit_def not_le)
next
  case (4 f pa pb x a y b)
  have low: "cnt c zs = 0" if "\<forall>z \<in> set zs. c < z" for zs
    using that by (auto simp: cnt_def filter_empty_conv not_le)
  have above: "\<forall>z \<in> set (mrg f pa pb (x # a) (y # b)). c < z" "\<forall>z \<in> set a. c < z" "\<forall>z \<in> set b. c < z"
    if "c < x" "c < y"
    using that "4.prems" mrg_subset [of f pa pb "x # a" "y # b"] by fastforce+
  consider "c < x" "c < y" | "x \<le> c" "x < y" | "x \<le> c" "x = y" | "y \<le> c" "y < x" by fastforce
  then show ?case
  proof cases
    case 1
    then show ?thesis using low [OF above(1)] low [OF above(2)] low [OF above(3)] by (auto simp del: mrg.simps)
  qed (use 4 in \<open>auto simp: emit_def\<close>)
qed auto

section \<open>The operations on ranges\<close>

definition cr_pts :: "CharRange \<Rightarrow> u32 list" where
  "cr_pts cr = take (cr_len cr) (blk (cr_points cr))"

definition cr_wf :: "CharRange \<Rightarrow> bool" where
  "cr_wf cr \<longleftrightarrow> cr_len cr \<le> cr_size cr \<and> cr_size cr \<le> length (blk (cr_points cr)) \<and> cr_size cr < 2 ^ 29"

lemma length_cr_pts: "cr_wf cr \<Longrightarrow> length (cr_pts cr) = cr_len cr"
  by (simp add: cr_wf_def cr_pts_def)

lemma cr_init_wf [simp]: "cr_wf cr_init" "cr_pts cr_init = []" "cr_len cr_init = 0"
  by (simp_all add: cr_wf_def cr_init_def cr_pts_def)

text \<open>The result of an operation that either extends the points or fails and keeps them.\<close>

definition cr_post :: "CharRange \<Rightarrow> u32 list \<Rightarrow> 'm \<times> CharRange \<times> int \<Rightarrow> bool" where
  "cr_post cr xs = (\<lambda>(m', cr', r). cr_wf cr' \<and> (r = 0 \<and> cr_pts cr' = xs \<or> r = -1 \<and> cr_pts cr' = cr_pts cr))"

lemma cr_compress_ok:
  assumes wf: "cr_wf cr" and ev: "even (cr_len cr)" and so: "sorted (cr_pts cr)"
  shows "ok (cr_compress cr) (\<lambda>cr'. cr_wf cr' \<and> cr_pts cr' = comp (cr_pts cr) \<and> cr_size cr' = cr_size cr)"
proof (cases "cr_len cr \<le> 1")
  case True
  then have "cr_len cr = 0" using ev by (cases "cr_len cr") auto
  then show ?thesis using wf by (auto simp: cr_compress_def cr_pts_def cr_wf_def)
next
  case False
  define pt where "pt = blk (cr_points cr)"
  have sl: "slice 0 (cr_len cr) pt = cr_pts cr" by (simp add: slice_def pt_def cr_pts_def)
  have "ok (compress_loop pt (cr_len cr) 0 0) (\<lambda>(pt', k'). length pt' = length pt \<and>
      k' = 0 + length (comp (slice 0 (cr_len cr) pt)) \<and> take k' pt' = take 0 pt @ comp (slice 0 (cr_len cr) pt))"
    using wf ev so sl by (intro compress_loop_comp) (auto simp: cr_wf_def pt_def)
  then obtain pt' where c: "compress_loop pt (cr_len cr) 0 0 = Some (pt', length (comp (cr_pts cr)))"
    "length pt' = length pt" "take (length (comp (cr_pts cr))) pt' = comp (cr_pts cr)"
    using sl by (auto elim!: okE)
  have "length (comp (cr_pts cr)) \<le> cr_len cr" using comp_length [of "cr_pts cr"] length_cr_pts [OF wf] by simp
  then show ?thesis using False c wf by (auto simp: cr_compress_def pt_def cr_wf_def cr_pts_def)
qed

lemma cr_wr_ok:
  "i < length (blk (cr_points cr)) \<Longrightarrow>
   cr_wr cr i v = Some (cr\<lparr>cr_points := Some ((blk (cr_points cr))[i := v])\<rparr>)"
  by (cases "cr_points cr") (auto simp: cr_wr_def wr_def)

lemma take_snoc_update: "n < length b \<Longrightarrow> take (Suc n) (b[n := v]) = take n b @ [v]"
  by (simp add: take_Suc_conv_app_nth)

text \<open>An allocation function that never fails: then no operation reports a failure.\<close>

definition never_refuses :: "'m cr_realloc_f \<Rightarrow> bool" where
  "never_refuses ra \<longleftrightarrow> (\<forall>m p sz m'. ra m p sz \<noteq> Some (m', None))"

lemma cr_realloc_granted: "never_refuses ra \<Longrightarrow> cr_realloc ra m cr sz = Some (m', cr', r) \<Longrightarrow> r = 0"
  by (auto simp: cr_realloc_def Let_def never_refuses_def split: if_splits bind_splits option.splits)

lemma cr_add_point_granted: "never_refuses ra \<Longrightarrow> cr_add_point ra m cr v = Some (m', cr', r) \<Longrightarrow> r = 0"
  by (auto simp: cr_add_point_def dest: cr_realloc_granted split: if_splits bind_splits)

lemma cr_add_interval_granted: "never_refuses ra \<Longrightarrow> cr_add_interval ra m cr a b = Some (m', cr', r) \<Longrightarrow> r = 0"
  by (auto simp: cr_add_interval_def dest: cr_realloc_granted split: if_splits bind_splits)

lemma cr_op_loop_granted:
  assumes nr: "never_refuses ra"
  shows "cr_op_loop ra a a_len b b_len opr m cr ai bi = Some (m', cr', r) \<Longrightarrow> r = 0"
proof (induction "(a_len - ai) + (b_len - bi)" arbitrary: m cr ai bi rule: less_induct)
  case less
  obtain n where n: "cr_next a a_len b b_len ai bi = Some n"
    using less.prems by (subst (asm) cr_op_loop.simps) (auto split: bind_splits)
  show ?case
  proof (cases n)
    case None
    then show ?thesis using less.prems n by (subst (asm) cr_op_loop.simps) simp
  next
    case (Some t)
    obtain v ai' bi' where t: "t = (v, ai', bi')" by (cases t)
    have lt: "(a_len - ai') + (b_len - bi') < (a_len - ai) + (b_len - bi)" using cr_next_less n Some t by blast
    show ?thesis using less.prems n Some t less.hyps [OF lt] cr_add_point_granted [OF nr, of m cr v]
      by (subst (asm) cr_op_loop.simps) (auto split: if_splits bind_splits)
  qed
qed

lemma cr_op_granted:
  "never_refuses ra \<Longrightarrow> cr_op ra m cr a a_len b b_len opr = Some (m', cr', r) \<Longrightarrow> r = 0"
  by (auto simp: cr_op_def dest: cr_op_loop_granted split: if_splits bind_splits)

lemma cr_union1_granted: "never_refuses ra \<Longrightarrow> cr_union1 ra m cr b b_len = Some (m', cr', r) \<Longrightarrow> r = 0"
  by (auto simp: cr_union1_def dest: cr_op_granted split: bind_splits)

lemma cr_invert_granted: "never_refuses ra \<Longrightarrow> cr_invert ra m cr = Some (m', cr', r) \<Longrightarrow> r = 0"
  by (auto simp: cr_invert_def Let_def dest: cr_realloc_granted split: if_splits bind_splits)

locale cr_alloc = realloc_contract ra 4 for ra :: "'m cr_realloc_f"
begin

lemma cr_realloc_ok:
  assumes wf: "cr_wf cr" and sz: "sz \<le> 2 ^ 28 + 2"
  shows "ok (cr_realloc ra m cr sz) (\<lambda>(m', cr', r). cr_post cr (cr_pts cr) (m', cr', r) \<and>
    cr_len cr' = cr_len cr \<and> (r = 0 \<longrightarrow> sz \<le> cr_size cr'))"
proof (cases "sz > cr_size cr")
  case False
  then show ?thesis using wf by (simp add: cr_realloc_def cr_post_def)
next
  case True
  define n where "n = nat (max_int (int sz) (int (cr_size cr) * 3 div 2))"
  have n: "sz \<le> n" "n < 2 ^ 29" "cr_size cr * 3 < 2 ^ 31" using True sz wf by (auto simp: n_def cr_wf_def)
  have un: "unat (word_of_nat (n * 4) :: size_t) = n * 4" using n by (intro unat_word_of_nat_size) simp
  obtain m' p where p: "ra m (cr_points cr) (word_of_nat (n * 4)) = Some (m', p)"
    using ra_total [of m "cr_points cr" "word_of_nat (n * 4)"] by auto
  have run: "cr_realloc ra m cr sz = (case p of None \<Rightarrow> Some (m', cr, -1)
      | Some b \<Rightarrow> Some (m', cr\<lparr>cr_points := Some b, cr_size := n\<rparr>, 0))"
    unfolding cr_realloc_def Let_def n_def [symmetric] using True n(3) p by simp
  show ?thesis
  proof (cases p)
    case None
    then show ?thesis using run wf by (simp add: cr_post_def)
  next
    case (Some b)
    have len: "cr_len cr \<le> n" "cr_len cr \<le> length (blk (cr_points cr))" using wf True n(1) by (auto simp: cr_wf_def)
    have "take (cr_len cr) b = take (cr_len cr) (blk (cr_points cr))"
    proof (cases "cr_points cr")
      case (Some b0)
      then show ?thesis using ra_keep [of m b0 "word_of_nat (n * 4)" m' b "cr_len cr"] p \<open>p = Some b\<close> len un by simp
    qed (use len in simp)
    moreover have "n \<le> length b" using ra_size [of m "cr_points cr" "word_of_nat (n * 4)" m' b] p Some un by simp
    ultimately show ?thesis using run Some len n by (simp add: cr_post_def cr_wf_def cr_pts_def)
  qed
qed

lemma cr_add_point_ok:
  assumes wf: "cr_wf cr" and len: "cr_len cr < 2 ^ 28"
  shows "ok (cr_add_point ra m cr v) (cr_post cr (cr_pts cr @ [v]))"
proof -
  obtain m1 cr1 r where g: "(if cr_len cr \<ge> cr_size cr then cr_realloc ra m cr (cr_len cr + 1) else Some (m, cr, 0))
      = Some (m1, cr1, r)"
    and p: "cr_post cr (cr_pts cr) (m1, cr1, r)" "cr_len cr1 = cr_len cr" "r = 0 \<longrightarrow> cr_len cr < cr_size cr1"
    using cr_realloc_ok [OF wf, of "cr_len cr + 1" m] len wf
    by (cases "cr_len cr \<ge> cr_size cr") (auto simp: cr_post_def elim!: okE)
  show ?thesis
  proof (cases "r = 0")
    case True
    then have c1: "cr_wf cr1" "cr_pts cr1 = cr_pts cr" "cr_len cr1 < length (blk (cr_points cr1))"
      using p by (auto simp: cr_post_def cr_wf_def)
    have "take (Suc (cr_len cr1)) ((blk (cr_points cr1))[cr_len cr1 := v]) = cr_pts cr @ [v]"
      using take_snoc_update [OF c1(3)] c1(2) by (simp add: cr_pts_def)
    then show ?thesis
      unfolding cr_add_point_def g using True c1 p by (simp add: cr_wr_ok cr_post_def cr_wf_def cr_pts_def)
  next
    case False
    then show ?thesis unfolding cr_add_point_def g using p by (auto simp: cr_post_def)
  qed
qed

lemma cr_add_interval_ok:
  assumes wf: "cr_wf cr" and len: "cr_len cr < 2 ^ 28"
  shows "ok (cr_add_interval ra m cr c1 c2) (cr_post cr (cr_pts cr @ [c1, c2]))"
proof -
  obtain m1 cr1 r where g: "(if cr_len cr + 2 > cr_size cr then cr_realloc ra m cr (cr_len cr + 2) else Some (m, cr, 0))
      = Some (m1, cr1, r)"
    and p: "cr_post cr (cr_pts cr) (m1, cr1, r)" "cr_len cr1 = cr_len cr" "r = 0 \<longrightarrow> cr_len cr + 2 \<le> cr_size cr1"
    using cr_realloc_ok [OF wf, of "cr_len cr + 2" m] len wf
    by (cases "cr_len cr + 2 > cr_size cr") (auto simp: cr_post_def elim!: okE)
  show ?thesis
  proof (cases "r = 0")
    case True
    then have c1: "cr_wf cr1" "cr_pts cr1 = cr_pts cr" "cr_len cr1 + 2 \<le> length (blk (cr_points cr1))"
      using p by (auto simp: cr_post_def cr_wf_def)
    let ?n = "cr_len cr1" let ?b = "blk (cr_points cr1)"
    have "take (Suc (Suc ?n)) (?b[?n := c1, Suc ?n := c2]) = take (Suc ?n) (?b[?n := c1]) @ [c2]"
      using c1(3) by (intro take_snoc_update) simp
    also have "\<dots> = cr_pts cr @ [c1, c2]" using take_snoc_update [of ?n ?b c1] c1(2,3) by (simp add: cr_pts_def)
    finally show ?thesis
      unfolding cr_add_interval_def g using True c1 p by (simp add: cr_wr_ok cr_post_def cr_wf_def cr_pts_def)
  next
    case False
    then show ?thesis unfolding cr_add_interval_def g using p by (auto simp: cr_post_def)
  qed
qed

lemma cr_next_cases:
  assumes "a_len \<le> length a" "b_len \<le> length b" "ai \<le> a_len" "bi \<le> b_len"
  shows "ok (cr_next a a_len b b_len ai bi) (\<lambda>n. case n of
      None \<Rightarrow> ai = a_len \<and> bi = b_len
    | Some (v, ai', bi') \<Rightarrow> ai' \<le> a_len \<and> bi' \<le> b_len \<and> ai + bi < ai' + bi' \<and>
        (\<forall>f. mrg f (odd ai) (odd bi) (slice ai a_len a) (slice bi b_len b) =
          emit f (odd ai) (odd bi) (odd ai') (odd bi') v (mrg f (odd ai') (odd bi') (slice ai' a_len a) (slice bi' b_len b))))"
proof -
  consider "ai < a_len" "bi < b_len" | "ai < a_len" "bi = b_len" | "ai = a_len" "bi < b_len" | "ai = a_len" "bi = b_len"
    using assms by linarith
  then show ?thesis
  proof cases
    case 1
    then show ?thesis using assms by (auto simp: cr_next_def rd_def slice_Suc)
  next
    case 2
    then show ?thesis using assms by (auto simp: cr_next_def rd_def slice_Suc)
  next
    case 3
    then show ?thesis using assms by (auto simp: cr_next_def rd_def slice_Suc)
  next
    case 4
    then show ?thesis by (simp add: cr_next_def)
  qed
qed

lemma cr_op_loop_ok:
  assumes "a_len \<le> length a" "b_len \<le> length b" "ai \<le> a_len" "bi \<le> b_len" "cr_wf cr"
    and "odd (cr_len cr) = is_in opr (odd ai) (odd bi)" "cr_len cr + (a_len - ai) + (b_len - bi) \<le> 2 ^ 28"
  shows "ok (cr_op_loop ra a a_len b b_len opr m cr ai bi) (\<lambda>(m', cr', r). cr_wf cr' \<and>
    (r = 0 \<and> cr_pts cr' = cr_pts cr @ mrg (is_in opr) (odd ai) (odd bi) (slice ai a_len a) (slice bi b_len b) \<or> r = -1))"
  using assms
proof (induction "(a_len - ai) + (b_len - bi)" arbitrary: m cr ai bi rule: less_induct)
  case less
  obtain n where n: "cr_next a a_len b b_len ai bi = Some n" and nx: "case n of
      None \<Rightarrow> ai = a_len \<and> bi = b_len
    | Some (v, ai', bi') \<Rightarrow> ai' \<le> a_len \<and> bi' \<le> b_len \<and> ai + bi < ai' + bi' \<and>
        (\<forall>f. mrg f (odd ai) (odd bi) (slice ai a_len a) (slice bi b_len b) =
          emit f (odd ai) (odd bi) (odd ai') (odd bi') v (mrg f (odd ai') (odd bi') (slice ai' a_len a) (slice bi' b_len b)))"
    using cr_next_cases [OF less.prems(1-4)] by (elim okE) blast
  show ?case
  proof (cases n)
    case None
    then show ?thesis using n nx less.prems(5) by (subst cr_op_loop.simps) simp
  next
    case (Some t)
    obtain v ai' bi' where t: "t = (v, ai', bi')" by (cases t)
    have le: "ai' \<le> a_len" "bi' \<le> b_len" "ai \<le> ai'" "bi \<le> bi'" "(a_len - ai') + (b_len - bi') < (a_len - ai) + (b_len - bi)"
      and m: "mrg (is_in opr) (odd ai) (odd bi) (slice ai a_len a) (slice bi b_len b) =
        emit (is_in opr) (odd ai) (odd bi) (odd ai') (odd bi') v
          (mrg (is_in opr) (odd ai') (odd bi') (slice ai' a_len a) (slice bi' b_len b))"
      using nx cr_next_less [of a a_len b b_len ai bi v ai' bi'] n Some t less.prems(3,4)
      by (auto simp: cr_next_def split: if_splits bind_splits)
    note run = cr_op_loop.simps [of ra a a_len b b_len opr m cr ai bi]
    show ?thesis
    proof (cases "is_in opr (odd ai') (odd bi') = odd (cr_len cr)")
      case True
      have "ok (cr_op_loop ra a a_len b b_len opr m cr ai' bi') (\<lambda>(m', cr', r). cr_wf cr' \<and>
        (r = 0 \<and> cr_pts cr' = cr_pts cr @ mrg (is_in opr) (odd ai') (odd bi') (slice ai' a_len a) (slice bi' b_len b) \<or> r = -1))"
        using True le less.prems by (intro less.hyps) auto
      then show ?thesis using run n Some t m True less.prems(6) by (simp add: emit_def)
    next
      case False
      have lt: "cr_len cr < 2 ^ 28" using le(5) less.prems(7) by linarith
      obtain m1 cr1 r where g: "cr_add_point ra m cr v = Some (m1, cr1, r)" and p: "cr_post cr (cr_pts cr @ [v]) (m1, cr1, r)"
        using cr_add_point_ok [OF less.prems(5) lt, of m v] by (auto elim!: okE)
      show ?thesis
      proof (cases "r = 0")
        case True
        then have c1: "cr_wf cr1" "cr_pts cr1 = cr_pts cr @ [v]" using p by (auto simp: cr_post_def)
        then have l1: "cr_len cr1 = Suc (cr_len cr)"
          using length_cr_pts [OF c1(1)] length_cr_pts [OF less.prems(5)] by simp
        have "ok (cr_op_loop ra a a_len b b_len opr m1 cr1 ai' bi') (\<lambda>(m', cr', r). cr_wf cr' \<and>
          (r = 0 \<and> cr_pts cr' = cr_pts cr1 @ mrg (is_in opr) (odd ai') (odd bi') (slice ai' a_len a) (slice bi' b_len b) \<or> r = -1))"
          using False le less.prems c1 l1 by (intro less.hyps) auto
        then show ?thesis using run n Some t m False less.prems(6) g True c1 by (simp add: emit_def)
      next
        case r: False
        then show ?thesis using run n Some t False g p by (auto simp: cr_post_def)
      qed
    qed
  qed
qed

text \<open>The set that an operation denotes.\<close>

lemma mrg_set:
  assumes "sorted a" "sorted b" "\<not> f False False"
  shows "cr_set (mrg f False False a b) = {c. f (c \<in> cr_set a) (c \<in> cr_set b)}"
  using mrg_cnt [OF assms(1,2), of _ f False False] assms(3) by (auto simp: cr_set_def)

lemma cr_op_ok:
  assumes "a_len \<le> length a" "b_len \<le> length b" "sorted (take a_len a)" "sorted (take b_len b)"
    and "even a_len" "even b_len" "cr_wf cr" "cr_len cr = 0" "a_len + b_len \<le> 2 ^ 28"
  shows "ok (cr_op ra m cr a a_len b b_len opr) (\<lambda>(m', cr', r). cr_wf cr' \<and>
    (r = 0 \<and> cr_normal (cr_pts cr') \<and> length (cr_pts cr') \<le> a_len + b_len
       \<and> cr_set (cr_pts cr') = {c. is_in opr (c \<in> cr_set (take a_len a)) (c \<in> cr_set (take b_len b))}
     \<or> r = -1))"
proof -
  let ?m = "mrg (is_in opr) False False (take a_len a) (take b_len b)"
  have f0: "\<not> is_in opr False False" by (cases opr) auto
  have s: "slice 0 a_len a = take a_len a" "slice 0 b_len b = take b_len b" by (simp_all add: slice_def)
  have e: "cr_pts cr = []" using assms(8) by (simp add: cr_pts_def)
  obtain m1 cr1 r where g: "cr_op_loop ra a a_len b b_len opr m cr 0 0 = Some (m1, cr1, r)"
    and p: "cr_wf cr1" "r = 0 \<and> cr_pts cr1 = ?m \<or> r = -1"
    using cr_op_loop_ok [of a_len a b_len b 0 0 cr opr m] assms f0 s e by (auto elim!: okE)
  show ?thesis
  proof (cases "r = 0")
    case True
    then have c1: "cr_pts cr1 = ?m" using p by auto
    have "even (length ?m)" using mrg_parity [of "is_in opr" False False "take a_len a" "take b_len b"] assms by auto
    then have ev: "even (cr_len cr1)" "even (length (cr_pts cr1))" using c1 length_cr_pts [OF p(1)] by simp_all
    have so: "sorted (cr_pts cr1)" using c1 mrg_sorted [OF assms(3,4)] by simp
    have len: "length (comp ?m) \<le> a_len + b_len"
      using comp_length [of ?m] mrg_length [of "is_in opr" False False "take a_len a" "take b_len b"] assms(1,2) by simp
    obtain cr2 where c2: "cr_compress cr1 = Some cr2" "cr_wf cr2" "cr_pts cr2 = comp ?m"
      using cr_compress_ok [OF p(1) ev(1) so] c1 by (auto elim!: okE)
    have "cr_set (comp ?m) = {c. is_in opr (c \<in> cr_set (take a_len a)) (c \<in> cr_set (take b_len b))}"
      using comp_set [OF ev(2)] mrg_set [of _ _ "is_in opr", OF assms(3,4) f0] c1 by simp
    moreover have "cr_normal (comp ?m)" using comp_strict [OF so] comp_even c1 by (simp add: cr_normal_def)
    ultimately show ?thesis using g True c2 len by (simp add: cr_op_def)
  next
    case False
    then show ?thesis using g p by (simp add: cr_op_def)
  qed
qed

lemma cr_union1_ok:
  assumes "cr_wf cr" "sorted (cr_pts cr)" "even (cr_len cr)" "b_len \<le> length b" "sorted (take b_len b)" "even b_len"
    and "cr_len cr + b_len \<le> 2 ^ 28"
  shows "ok (cr_union1 ra m cr b b_len) (\<lambda>(m', cr', r). cr_wf cr' \<and>
    (r = 0 \<and> cr_normal (cr_pts cr') \<and> cr_set (cr_pts cr') = cr_set (cr_pts cr) \<union> cr_set (take b_len b) \<or> r = -1))"
proof -
  define e where "e = \<lparr>cr_len = 0, cr_size = 0, cr_points = None\<rparr>"
  have l: "cr_len cr \<le> length (blk (cr_points cr))" using assms(1) by (simp add: cr_wf_def)
  have "cr_wf e" "cr_len e = 0" by (simp_all add: e_def cr_wf_def)
  then obtain m1 cr1 r where g: "cr_op ra m e (blk (cr_points cr)) (cr_len cr) b b_len CR_OP_UNION = Some (m1, cr1, r)"
    and p: "cr_wf cr1" "r = 0 \<and> cr_normal (cr_pts cr1) \<and> cr_set (cr_pts cr1) =
       {c. c \<in> cr_set (cr_pts cr) \<or> c \<in> cr_set (take b_len b)} \<or> r = -1"
    using cr_op_ok [OF l assms(4) _ assms(5,3,6), of e m CR_OP_UNION] assms by (auto simp: cr_pts_def elim!: okE)
  obtain m2 where "cr_free ra m1 cr = Some m2" using ra_total [of m1 "cr_points cr" 0] by (auto simp: cr_free_def)
  then show ?thesis using g p by (auto simp: cr_union1_def e_def)
qed

lemma cr_invert_ok:
  assumes wf: "cr_wf cr" and so: "sorted (cr_pts cr)" and ev: "even (cr_len cr)" and len: "cr_len cr \<le> 2 ^ 28"
  shows "ok (cr_invert ra m cr) (\<lambda>(m', cr', r). cr_wf cr' \<and>
    (r = 0 \<and> cr_normal (cr_pts cr') \<and> cr_set (cr_pts cr') = - cr_set (cr_pts cr) - {-1} \<and> length (cr_pts cr') \<le> cr_len cr + 2
     \<or> r = -1 \<and> cr_pts cr' = cr_pts cr))"
proof -
  let ?n = "cr_len cr"
  obtain m1 cr1 r where g: "cr_realloc ra m cr (?n + 2) = Some (m1, cr1, r)"
    and p: "cr_post cr (cr_pts cr) (m1, cr1, r)" "cr_len cr1 = ?n" "r = 0 \<longrightarrow> ?n + 2 \<le> cr_size cr1"
    using cr_realloc_ok [OF wf, of "?n + 2" m] len by (auto elim!: okE)
  show ?thesis
  proof (cases "r = 0")
    case False
    then show ?thesis using g p by (auto simp: cr_invert_def cr_post_def Let_def)
  next
    case True
    then have c1: "cr_wf cr1" "cr_pts cr1 = cr_pts cr" "?n + 2 \<le> length (blk (cr_points cr1))"
      using p by (auto simp: cr_post_def cr_wf_def)
    define b where "b = blk (cr_points cr1)"
    have tb: "take ?n b = cr_pts cr" using c1 p(2) by (simp add: cr_pts_def b_def)
    moreover have "length (take ?n b) = ?n" using c1(3) by (simp add: b_def)
    ultimately have tb: "take ?n b = cr_pts cr" "length (take ?n b) = ?n" by simp_all
    define b3 where "b3 = (take 1 b @ take ?n b @ drop (1 + ?n) b)[0 := 0, ?n + 1 := -1]"
    have l3: "length b3 = length b" using c1(3) by (simp add: b3_def b_def)
    have run: "cr_invert ra m cr = do { cr'' \<leftarrow> cr_compress (cr1\<lparr>cr_points := Some b3, cr_len := ?n + 2\<rparr>); Some (m1, cr'', 0) }"
      using g True c1(3) by (auto simp: cr_invert_def memcpy_at_def wr_def b3_def b_def Let_def)
    obtain x where x: "take 1 b = [x]" using c1(3) by (cases b) (auto simp: b_def)
    obtain y u where y: "drop (1 + ?n) b = y # u" using c1(3) by (cases "drop (1 + ?n) b") (auto simp: b_def)
    have "b3 = 0 # take ?n b @ (-1) # u" unfolding b3_def x y using tb(2) by (simp add: list_update_append)
    then have pts: "take (?n + 2) b3 = 0 # cr_pts cr @ [-1]" using tb by simp
    define cr2 where "cr2 = cr1\<lparr>cr_points := Some b3, cr_len := ?n + 2\<rparr>"
    have w2: "cr_wf cr2" "even (cr_len cr2)" "cr_pts cr2 = 0 # cr_pts cr @ [-1]"
      using c1 p(3) True ev l3 pts by (auto simp: cr2_def cr_wf_def cr_pts_def b_def)
    have s2: "sorted (cr_pts cr2)" using w2(3) so by (auto simp: sorted_append)
    have ev2: "even (length (cr_pts cr2))" using w2(2) length_cr_pts [OF w2(1)] by metis
    obtain cr3 where c3: "cr_compress cr2 = Some cr3" "cr_wf cr3" "cr_pts cr3 = comp (cr_pts cr2)"
      using cr_compress_ok [OF w2(1,2) s2] by (auto elim!: okE)
    have "cnt c (cr_pts cr) = ?n" if "c = -1" for c
      using that cnt_all [of "cr_pts cr" c] length_cr_pts [OF wf] by simp
    then have "cr_set (cr_pts cr2) = - cr_set (cr_pts cr) - {-1}"
      using ev by (auto simp: w2(3) cr_set_def word_order.extremum_unique)
    then have "cr_set (comp (cr_pts cr2)) = - cr_set (cr_pts cr) - {-1}" using comp_set [OF ev2] by simp
    then show ?thesis
      unfolding run using c3 comp_strict [OF s2] comp_even comp_length [of "cr_pts cr2"] w2(3) length_cr_pts [OF wf]
      by (simp add: cr2_def cr_normal_def)
  qed
qed

end

interpretation js_cr: cr_alloc "js_def_realloc 4"
  by unfold_locales

interpretation libc_cr: cr_alloc "\<lambda>l p sz. Some (libc_realloc 4 l p (unat sz))"
  by unfold_locales

section \<open>Sorting and removing overlaps\<close>

interpretation pts: total_cmp point_cmp
  by unfold_locales (auto simp: point_cmp_def Let_def of_bool_def split: if_splits)

lemma point_cmp_le: "point_cmp x y \<le> 0 \<longleftrightarrow> fst x \<le> fst y"
  by (auto simp: point_cmp_def Let_def)

definition iset :: "interval list \<Rightarrow> u32 set" where
  "iset ps = (\<Union>(s, e) \<in> set ps. {s..<e})"

lemma iset_simps [simp]: "iset [] = {}" "iset ((s, e) # ps) = {s..<e} \<union> iset ps"
  by (simp_all add: iset_def)

lemma flatten_simps [simp]:
  "flatten [] = []" "flatten ((x, y) # ps) = x # y # flatten ps" "flatten (ps @ qs) = flatten ps @ flatten qs"
  by (simp_all add: flatten_def)

lemma length_flatten: "length (flatten ps) = 2 * length ps"
  by (induction ps) auto

lemma flatten_pair_up: "even (length xs) \<Longrightarrow> flatten (pair_up xs) = xs"
  by (induction xs rule: pair_up.induct) auto

lemma length_pair_up: "length (pair_up xs) = length xs div 2"
  by (induction xs rule: pair_up.induct) auto

lemma pair_up_flatten [simp]: "pair_up (flatten ps) = ps"
  by (induction ps) auto

fun ovl :: "interval list \<Rightarrow> interval list" where
  "ovl ((s, e) # (s1, e1) # r) =
     (if s1 > e then (s, e) # ovl ((s1, e1) # r) else if e1 \<le> e then ovl ((s, e) # r) else ovl ((s, e1) # r))"
| "ovl ps = ps"

abbreviation by_start :: "interval list \<Rightarrow> bool" where
  "by_start \<equiv> sorted_wrt (\<lambda>p q. fst p \<le> fst q)"

lemma ovl_iset:
  "by_start ps \<Longrightarrow> \<forall>(s, e) \<in> set ps. s < e \<Longrightarrow> iset (ovl ps) = iset ps"
  by (induction ps rule: ovl.induct) (auto simp: not_less)

lemma ovl_start: "by_start ps \<Longrightarrow> (s, e) \<in> set (ovl ps) \<Longrightarrow> fst (hd ps) \<le> s"
proof (induction ps rule: ovl.induct)
  case (1 s0 e0 s1 e1 r)
  then show ?case by (auto split: if_splits)
qed auto

lemma ovl_normal:
  "by_start ps \<Longrightarrow> \<forall>(s, e) \<in> set ps. s < e \<Longrightarrow> sorted_wrt (<) (flatten (ovl ps))"
proof (induction ps rule: ovl.induct)
  case (1 s e s1 e1 r)
  consider "s1 > e" | "\<not> s1 > e" "e1 \<le> e" | "\<not> s1 > e" "\<not> e1 \<le> e" by blast
  then show ?case
  proof cases
    case 1
    let ?r = "ovl ((s1, e1) # r)"
    have so: "sorted_wrt (<) (flatten ?r)" using "1.IH"(1) "1.prems" 1 by auto
    have ge: "s1 \<le> a" if "(a, b) \<in> set ?r" for a b using ovl_start [of "(s1, e1) # r" a b] "1.prems" that by simp
    have "s1 \<le> x" if "x \<in> set (flatten ?r)" for x
    proof (cases ?r)
      case Nil
      then show ?thesis using that by simp
    next
      case (Cons p q)
      obtain a b where p: "p = (a, b)" by (cases p)
      then have "s1 \<le> a" using ge [of a b] Cons by simp
      then show ?thesis using so that Cons p by auto
    qed
    then have "\<forall>x \<in> set (flatten ?r). s < x \<and> e < x"
      using 1 "1.prems" by (auto intro: less_le_trans less_trans)
    then show ?thesis using so 1 "1.prems" by auto
  next
    case 2
    then show ?thesis using "1.IH"(2) "1.prems" by auto
  next
    case 3
    then have "s < e1" using "1.prems" by auto
    then show ?thesis using "1.IH"(3) "1.prems" 3 by auto
  qed
qed auto

lemma normal_iset: "sorted_wrt (<) (flatten ps) \<Longrightarrow> cr_set (flatten ps) = iset ps"
proof (induction ps)
  case (Cons p ps)
  obtain s e where p: "p = (s, e)" by (cases p)
  have IH: "cr_set (flatten ps) = iset ps" and so: "s < e" "\<forall>x \<in> set (flatten ps). e < x"
    using Cons p by auto
  have "cnt c (flatten ps) = 0" if "c < e" for c
    using so(2) that by (auto simp: cnt_def filter_empty_conv not_le)
  then have "cr_set (flatten (p # ps)) = {s..<e} \<union> cr_set (flatten ps)"
    using so(1) unfolding cr_set_def p by (auto simp: not_le)
  then show ?case using IH p by simp
qed (simp add: cr_set_def)

lemma overlap_scan_ok:
  assumes "len \<le> length pt" "i \<le> len" "even (len - i)"
  shows "ok (overlap_scan pt len i e) (\<lambda>(i', e'). i \<le> i' \<and> i' \<le> len \<and> even (len - i') \<and>
    (\<forall>s. ovl ((s, e) # pair_up (slice i len pt)) = (s, e') # ovl (pair_up (slice i' len pt))))"
  using assms
proof (induction "len - i" arbitrary: i e rule: less_induct)
  case less
  note p = less.prems
  show ?case
  proof (cases "i < len")
    case False
    then show ?thesis using p by (subst overlap_scan.simps) simp
  next
    case True
    then have i2: "i + 2 \<le> len" using p(3) by presburger
    then have s: "slice i len pt = pt ! i # pt ! (i + 1) # slice (i + 2) len pt"
      and r: "rd pt i = Some (pt ! i)" "rd pt (i + 1) = Some (pt ! (i + 1))"
      using p(1) by (simp_all add: slice_Suc rd_def)
    have rec: "ok (overlap_scan pt len (i + 2) e0) (\<lambda>(i', e'). i + 2 \<le> i' \<and> i' \<le> len \<and> even (len - i') \<and>
      (\<forall>s. ovl ((s, e0) # pair_up (slice (i + 2) len pt)) = (s, e') # ovl (pair_up (slice i' len pt))))" for e0
      using True i2 p by (intro less.hyps) auto
    consider "pt ! i > e" | "\<not> pt ! i > e" "pt ! (i + 1) \<le> e" | "\<not> pt ! i > e" "\<not> pt ! (i + 1) \<le> e" by blast
    then show ?thesis
    proof cases
      case 1
      then show ?thesis using True r s p by (subst overlap_scan.simps) auto
    next
      case 2
      then show ?thesis using True r s rec [of e] by (subst overlap_scan.simps) (auto elim!: ok_mono)
    next
      case 3
      then show ?thesis using True r s rec [of "pt ! (i + 1)"] by (subst overlap_scan.simps) (auto elim!: ok_mono)
    qed
  qed
qed

lemma overlap_loop_ok:
  assumes "len \<le> length pt" "i \<le> len" "even (len - i)" "j \<le> i"
  shows "ok (overlap_loop pt len i j) (\<lambda>(pt', j'). length pt' = length pt \<and>
    j' = j + length (flatten (ovl (pair_up (slice i len pt)))) \<and>
    take j' pt' = take j pt @ flatten (ovl (pair_up (slice i len pt))))"
  using assms
proof (induction "len - i" arbitrary: pt i j rule: less_induct)
  case less
  note p = less.prems
  show ?case
  proof (cases "i < len")
    case False
    then show ?thesis using p by (subst overlap_loop.simps) simp
  next
    case True
    then have i2: "i + 2 \<le> len" using p(3) by presburger
    then have s: "slice i len pt = pt ! i # pt ! (i + 1) # slice (i + 2) len pt"
      and r: "rd pt i = Some (pt ! i)" "rd pt (i + 1) = Some (pt ! (i + 1))"
      using p(1) by (simp_all add: slice_Suc rd_def)
    obtain i' e' where sc: "overlap_scan pt len (i + 2) (pt ! (i + 1)) = Some (i', e')" "i + 2 \<le> i'" "i' \<le> len" "even (len - i')"
      and ov: "\<And>s. ovl ((s, pt ! (i + 1)) # pair_up (slice (i + 2) len pt)) = (s, e') # ovl (pair_up (slice i' len pt))"
      using overlap_scan_ok [of len pt "i + 2" "pt ! (i + 1)"] i2 p by (auto elim!: okE)
    define q where "q = pt[j := pt ! i, j + 1 := e']"
    have w: "wr pt j (pt ! i) = Some (pt[j := pt ! i])" "wr (pt[j := pt ! i]) (j + 1) e' = Some q"
      using i2 p by (auto simp: wr_def q_def)
    have sq: "slice i' len q = slice i' len pt" using sc(2) p by (simp add: q_def slice_update_below)
    have tq: "take (j + 2) q = take j pt @ [pt ! i, e']"
      using i2 p by (intro nth_equalityI) (auto simp: q_def nth_append nth_list_update less_Suc_eq nth_Cons')
    have "ok (overlap_loop q len i' (j + 2)) (\<lambda>(pt', j'). length pt' = length q \<and>
        j' = j + 2 + length (flatten (ovl (pair_up (slice i' len q)))) \<and>
        take j' pt' = take (j + 2) q @ flatten (ovl (pair_up (slice i' len q))))"
      using sc p by (intro less.hyps) (auto simp: q_def)
    then show ?thesis using True r sc w sq tq s ov
      by (subst overlap_loop.simps) (auto simp: q_def elim!: ok_mono)
  qed
qed

lemma cr_sort_ok:
  assumes wf: "cr_wf cr" and ev: "even (cr_len cr)" and ne: "\<forall>(s, e) \<in> set (pair_up (cr_pts cr)). s < e"
  shows "ok (cr_sort_and_remove_overlap cr) (\<lambda>cr'. cr_wf cr' \<and> cr_normal (cr_pts cr') \<and>
    cr_set (cr_pts cr') = iset (pair_up (cr_pts cr)) \<and> cr_len cr' \<le> cr_len cr)"
proof -
  let ?n = "cr_len cr" let ?ps = "pair_up (cr_pts cr)" let ?b = "blk (cr_points cr)"
  have ln: "length ?ps = ?n div 2" using length_pair_up [of "cr_pts cr"] length_cr_pts [OF wf] by simp
  obtain qs where q: "rqsort point_cmp (?n div 2) 8 ?ps = Some qs" "perm_range 0 (?n div 2) ?ps qs"
    "sorted_range (\<lambda>x y. point_cmp x y \<le> 0) 0 (?n div 2) qs"
    using pts.sorting.rqsort_ok [of "?n div 2" ?ps 8] ln by (auto elim!: okE)
  have ms: "mset qs = mset ?ps" using q(2) by (simp add: perm_range_def)
  then have set: "set qs = set ?ps" and lq: "length qs = ?n div 2" using mset_eq_setD mset_eq_length ln by metis+
  have so: "by_start qs"
    using q(3) lq by (simp add: sorted_wrt_iff_nth_less sorted_range_def point_cmp_le)
  define pt where "pt = flatten qs @ drop (2 * (?n div 2)) ?b"
  have n2: "2 * (?n div 2) = ?n" using ev by simp
  have lp: "length pt = length ?b" "take ?n pt = flatten qs"
    using lq n2 wf by (auto simp: pt_def length_flatten cr_wf_def)
  have sl: "slice 0 ?n pt = flatten qs" using lp(2) by (simp add: slice_def)
  obtain pt' where o: "overlap_loop pt ?n 0 0 = Some (pt', length (flatten (ovl qs)))"
    "length pt' = length pt" "take (length (flatten (ovl qs))) pt' = flatten (ovl qs)"
    using overlap_loop_ok [of ?n pt 0 0] wf ev sl lp(1) by (auto simp: cr_wf_def elim!: okE)
  have ne': "\<forall>(s, e) \<in> set qs. s < e" using ne set by simp
  note no = ovl_normal [OF so ne']
  have "length (ovl ps) \<le> length ps" for ps by (induction ps rule: ovl.induct) auto
  then have le: "length (flatten (ovl qs)) \<le> ?n" using lq n2 length_flatten by (metis mult_le_mono2)
  have "iset (ovl qs) = iset ?ps" using ovl_iset [OF so ne'] set by (simp add: iset_def)
  then have "cr_normal (flatten (ovl qs))" "cr_set (flatten (ovl qs)) = iset ?ps"
    using no normal_iset [OF no] by (simp_all add: cr_normal_def length_flatten)
  moreover have "cr_sort_and_remove_overlap cr = Some (cr\<lparr>cr_points := map_option (\<lambda>_. pt') (cr_points cr),
      cr_len := length (flatten (ovl qs))\<rparr>)"
    using q(1) o(1) unfolding cr_sort_and_remove_overlap_def Let_def pt_def by (simp add: cr_pts_def)
  ultimately show ?thesis
    using o(2,3) lp(1) le wf by (cases "cr_points cr") (auto simp: cr_wf_def cr_pts_def)
qed

section \<open>Claims\<close>

text \<open>C3. \<open>cr_op\<close> on two sorted boundary lists of even length, with an empty result range and any
  allocation function that keeps its contract: it never reads or writes out of bounds; it returns 0 with a
  normalised result (strictly increasing, even) that denotes the union, intersection or symmetric
  difference of the two sets, or returns -1, which happens only when an allocation is refused.\<close>

theorem cr_op_correct:
  assumes "cr_alloc ra" "a_len \<le> length a" "b_len \<le> length b" "sorted (take a_len a)" "sorted (take b_len b)"
    and "even a_len" "even b_len" "cr_wf cr" "cr_len cr = 0" "a_len + b_len \<le> 2 ^ 28"
  shows "\<exists>m' cr' r. cr_op ra m cr a a_len b b_len opr = Some (m', cr', r) \<and>
    (r = 0 \<and> cr_normal (cr_pts cr')
       \<and> cr_set (cr_pts cr') = {c. is_in opr (c \<in> cr_set (take a_len a)) (c \<in> cr_set (take b_len b))}
     \<or> r = -1 \<and> \<not> never_refuses ra)"
  using ok_exists [OF cr_alloc.cr_op_ok [OF assms, of m opr]] cr_op_granted [of ra m cr a a_len b b_len opr] by fastforce

text \<open>An allocation function that keeps the contract and always succeeds.\<close>

definition granting_realloc :: "u32 cr_realloc_f" where
  "granting_realloc m p sz =
     (let n = cells 4 (unat sz) in Some (m, Some (case p of None \<Rightarrow> replicate n m | Some b \<Rightarrow> take n b @ replicate (n - length b) m)))"

interpretation granting_cr: cr_alloc granting_realloc
proof
  fix m :: u32 and p sz
  show "\<exists>r. granting_realloc m p sz = Some r" by (simp add: granting_realloc_def Let_def)
  show "unat sz \<le> length b * 4" if "granting_realloc m p sz = Some (m', Some b)" for m' b
    using that cells_mult [of 4 "unat sz"] by (auto simp: granting_realloc_def Let_def min_def split: option.splits)
  show "take k b' = take k b" if "granting_realloc m (Some b) sz = Some (m', Some b')" "k \<le> length b" "k * 4 \<le> unat sz" for b b' m' k
    using that cells_le [of 4 k "unat sz"] by (auto simp: granting_realloc_def Let_def min_def)
qed

lemma granting_never_refuses: "never_refuses granting_realloc"
  by (simp add: never_refuses_def granting_realloc_def Let_def)

theorem cr_op_correct_witness:
  "\<exists>m' cr'. cr_op granting_realloc 0 cr_init [65, 91] 2 [70, 123] 2 CR_OP_INTER = Some (m', cr', 0) \<and>
    cr_set (cr_pts cr') = {c. c \<in> cr_set [65, 91] \<and> c \<in> cr_set [70, 123]}"
  using cr_op_correct [OF granting_cr.cr_alloc_axioms, of 2 "[65, 91]" 2 "[70, 123]" cr_init 0 CR_OP_INTER] granting_never_refuses
  by auto

text \<open>C13. \<open>cr_invert\<close> denotes the complement up to the last 32-bit value and \<open>cr_union_interval\<close> adds
  all points from \<open>c1\<close> to \<open>c2\<close>; both leave a normalised range or return -1, the latter only when an
  allocation is refused, and a failed inversion keeps the points.\<close>

theorem cr_invert_union_correct:
  assumes al: "cr_alloc ra" and "cr_wf cr" "sorted (cr_pts cr)" "even (cr_len cr)" "cr_len cr + 2 \<le> 2 ^ 28" "c1 \<le> c2" "c2 < -1"
  shows "(\<exists>m' cr' r. cr_invert ra m cr = Some (m', cr', r) \<and>
      (r = 0 \<and> cr_normal (cr_pts cr') \<and> cr_set (cr_pts cr') = - cr_set (cr_pts cr) - {-1}
       \<or> r = -1 \<and> cr_pts cr' = cr_pts cr \<and> \<not> never_refuses ra))
    \<and> (\<exists>m' cr' r. cr_union_interval ra m cr c1 c2 = Some (m', cr', r) \<and>
      (r = 0 \<and> cr_normal (cr_pts cr') \<and> cr_set (cr_pts cr') = cr_set (cr_pts cr) \<union> {c1..c2} \<or> r = -1 \<and> \<not> never_refuses ra))"
proof
  show "\<exists>m' cr' r. cr_invert ra m cr = Some (m', cr', r) \<and>
      (r = 0 \<and> cr_normal (cr_pts cr') \<and> cr_set (cr_pts cr') = - cr_set (cr_pts cr) - {-1}
       \<or> r = -1 \<and> cr_pts cr' = cr_pts cr \<and> \<not> never_refuses ra)"
    using ok_exists [OF cr_alloc.cr_invert_ok [OF assms(1-4), of m]] assms(5) cr_invert_granted [of ra m cr] by fastforce
  have "1 + c2 \<noteq> 0" using assms(7) by (auto simp: add_eq_0_iff)
  then have nx: "c2 < c \<longleftrightarrow> c2 + 1 \<le> c" for c
    using unatSuc [of c2] by (simp add: word_less_nat_alt word_le_nat_alt Suc_le_eq add.commute)
  have "sorted (take 2 [c1, c2 + 1])" using assms(6) nx [of "c2 + 1"] by (auto simp: nx [symmetric] intro: order.trans)
  moreover have "cr_set (take 2 [c1, c2 + 1]) = {c1..c2}"
    using assms(6) by (auto simp: cr_set_def nx [symmetric] not_less split: if_splits)
  ultimately show "\<exists>m' cr' r. cr_union_interval ra m cr c1 c2 = Some (m', cr', r) \<and>
      (r = 0 \<and> cr_normal (cr_pts cr') \<and> cr_set (cr_pts cr') = cr_set (cr_pts cr) \<union> {c1..c2} \<or> r = -1 \<and> \<not> never_refuses ra)"
    using ok_exists [OF cr_alloc.cr_union1_ok [OF assms(1-4), of 2 "[c1, c2 + 1]" m]] assms(5)
      cr_union1_granted [of ra m cr "[c1, c2 + 1]" 2]
    by (fastforce simp: cr_union_interval_def)
qed

theorem cr_invert_union_correct_witness:
  "\<exists>m' cr'. cr_union_interval granting_realloc 0 cr_init 48 57 = Some (m', cr', 0) \<and> cr_set (cr_pts cr') = {48..57}"
  using cr_invert_union_correct [OF granting_cr.cr_alloc_axioms, of cr_init 48 57 0] granting_never_refuses
  by (auto simp: cr_set_def)

text \<open>C12. \<open>cr_sort_and_remove_overlap\<close> turns any array of non-empty intervals, in any order and
  overlapping in any way, into the normalised range of their union; the sort is \<open>rqsort\<close> on the
  interval starts.\<close>

theorem cr_sort_and_remove_overlap_correct:
  assumes "cr_wf cr" "even (cr_len cr)" "\<forall>(s, e) \<in> set (pair_up (cr_pts cr)). s < e"
  shows "\<exists>cr'. cr_sort_and_remove_overlap cr = Some cr' \<and> cr_normal (cr_pts cr')
    \<and> cr_set (cr_pts cr') = iset (pair_up (cr_pts cr))"
  using ok_exists [OF cr_sort_ok [OF assms]] by auto

theorem cr_sort_and_remove_overlap_correct_witness:
  "\<exists>cr'. cr_sort_and_remove_overlap \<lparr>cr_len = 4, cr_size = 4, cr_points = Some [7, 9, 1, 8]\<rparr> = Some cr'
    \<and> cr_normal (cr_pts cr') \<and> cr_set (cr_pts cr') = {7..<9} \<union> {1..<8}"
  using cr_sort_and_remove_overlap_correct [of "\<lparr>cr_len = 4, cr_size = 4, cr_points = Some [7, 9, 1, 8]\<rparr>"]
  by (simp add: cr_wf_def cr_pts_def)

end
