(* ===== verification/PropTable.thy ===== *)
theory PropTable
  imports Prelude UniData
begin

text \<open>
  Lookups in the run-length encoded tables of \<open>src/native/quickjs/libunicode.c\<close>: \<open>get_le24\<close>,
  \<open>get_index_pos\<close>, \<open>lre_is_in_table\<close> and \<open>unicode_get_cc\<close>.  A table is a sequence of runs of code
  points; an index table holds, for about every 32 bytes, the code point at which decoding can start.

  The locale \<open>run_codec\<close> is what the search through the index relies on: how a byte sequence decodes
  into runs.  It is discharged for both encodings.  That the index fits its table is checked by
  \<open>blocks_ok\<close>, which is evaluated on the tables of the program.
\<close>

section \<open>Operations\<close>

definition rdi :: "'a list \<Rightarrow> int \<Rightarrow> 'a option" where
  "rdi xs i = (if i < 0 then None else rd xs (nat i))"

definition get_le24 :: "int list \<Rightarrow> int \<Rightarrow> int option" where
  "get_le24 ptr off = do {
     a \<leftarrow> rdi ptr off;
     b \<leftarrow> rdi ptr (off + 1);
     c \<leftarrow> rdi ptr (off + 2);
     Some (a OR (push_bit 8 b) OR (push_bit 16 c)) }"

definition UNICODE_INDEX_BLOCK_LEN :: int where
  "UNICODE_INDEX_BLOCK_LEN = 32"

abbreviation code21 :: "int \<Rightarrow> int" where
  "code21 v \<equiv> v AND (2 ^ 21 - 1)"

function index_loop :: "int \<Rightarrow> int list \<Rightarrow> int \<Rightarrow> int \<Rightarrow> int option" where
  "index_loop c index_table idx_min idx_max =
     (if idx_max - idx_min > 1 then do {
        let idx = (idx_max + idx_min) div 2;
        v \<leftarrow> get_le24 index_table (idx * 3);
        if c < code21 v then index_loop c index_table idx_min idx else index_loop c index_table idx idx_max }
      else Some idx_min)"
  by pat_completeness auto
termination by (relation "measure (\<lambda>(c, t, lo, hi). nat (hi - lo))") auto

declare index_loop.simps [simp del]

text \<open>The result and \<open>*pcode\<close>, which is not stored when the result is -1.\<close>

definition get_index_pos :: "int \<Rightarrow> int list \<Rightarrow> int \<Rightarrow> (int \<times> int option) option" where
  "get_index_pos c index_table index_table_len = do {
     v \<leftarrow> get_le24 index_table 0;
     if c < code21 v then Some (0, Some 0)
     else do {
       let idx_max = index_table_len - 1;
       code \<leftarrow> get_le24 index_table (idx_max * 3);
       if c \<ge> code then Some (-1, None)
       else do {
         idx_min \<leftarrow> index_loop c index_table 0 idx_max;
         v \<leftarrow> get_le24 index_table (idx_min * 3);
         Some ((idx_min + 1) * UNICODE_INDEX_BLOCK_LEN + drop_bit 21 v, Some (code21 v)) } } }"

definition u32 :: "int \<Rightarrow> int" where
  "u32 x = x mod 2 ^ 32"

text \<open>The loop of \<open>lre_is_in_table\<close>, from the byte it has reached.\<close>

fun in_table_scan :: "int \<Rightarrow> int list \<Rightarrow> int \<Rightarrow> bool \<Rightarrow> bool option" where
  "in_table_scan c [] code inb = None"
| "in_table_scan c (b # p) code inb =
     (if b < 64 then
        (let code1 = u32 (code + drop_bit 3 b + 1) in
         if c < code1 then Some inb
         else let code2 = u32 (code1 + (b AND 7) + 1) in
           if c < code2 then Some (\<not> inb) else in_table_scan c p code2 inb)
      else if b \<ge> 0x80 then
        (let code1 = u32 (code + b - 0x80 + 1) in
         if c < code1 then Some inb else in_table_scan c p code1 (\<not> inb))
      else if b < 0x60 then
        (case p of
           [] \<Rightarrow> None
         | b0 # p' \<Rightarrow> let code1 = u32 (code + (push_bit 8 (b - 0x40) OR b0) + 1) in
             if c < code1 then Some inb else in_table_scan c p' code1 (\<not> inb))
      else
        (case p of
           b0 # b1 # p' \<Rightarrow> let code1 = u32 (code + (push_bit 16 (b - 0x60) OR push_bit 8 b0 OR b1) + 1) in
             if c < code1 then Some inb else in_table_scan c p' code1 (\<not> inb)
         | _ \<Rightarrow> None))"

definition lre_is_in_table :: "int \<Rightarrow> int list \<Rightarrow> int list \<Rightarrow> int \<Rightarrow> bool option" where
  "lre_is_in_table c table index_table index_table_len = do {
     (pos, code) \<leftarrow> get_index_pos c index_table index_table_len;
     if pos < 0 then Some False
     else do {
       cd \<leftarrow> code;
       in_table_scan c (drop (nat pos) table) cd False } }"

definition lre_is_case_ignorable :: "int \<Rightarrow> bool option" where
  "lre_is_case_ignorable c = lre_is_in_table c unicode_prop_Case_Ignorable_table unicode_prop_Case_Ignorable_index
     (int (length unicode_prop_Case_Ignorable_index) div 3)"

definition lre_is_id_start :: "int \<Rightarrow> bool option" where
  "lre_is_id_start c = lre_is_in_table c unicode_prop_ID_Start_table unicode_prop_ID_Start_index
     (int (length unicode_prop_ID_Start_index) div 3)"

definition lre_is_id_continue :: "int \<Rightarrow> bool option" where
  "lre_is_id_continue c = do {
     s \<leftarrow> lre_is_id_start c;
     if s then Some True
     else lre_is_in_table c unicode_prop_ID_Continue1_table unicode_prop_ID_Continue1_index
       (int (length unicode_prop_ID_Continue1_index) div 3) }"

text \<open>The loop of \<open>unicode_get_cc\<close>: \<open>cc_run\<close> reads the header of a run, its count, type and data byte.\<close>

fun cc_count :: "int \<Rightarrow> int list \<Rightarrow> (int \<times> int list) option" where
  "cc_count n p =
     (if n < 48 then Some (n, p)
      else if n < 56 then
        (case p of [] \<Rightarrow> None | b0 # p' \<Rightarrow> Some ((push_bit 8 (n - 48) OR b0) + 48, p'))
      else
        (case p of
           b0 # b1 # p' \<Rightarrow> Some ((push_bit 8 (n - 56) OR push_bit 8 b0 OR b1) + 48 + 2 ^ 11, p')
         | _ \<Rightarrow> None))"

definition cc_run :: "int \<Rightarrow> int list \<Rightarrow> ((int \<times> int \<times> int) \<times> int list) option" where
  "cc_run b p = do {
     let type = drop_bit 6 b;
     (n, p1) \<leftarrow> cc_count (b AND 0x3f) p;
     if type \<le> 1 then (case p1 of [] \<Rightarrow> None | d # p2 \<Rightarrow> Some ((n, type, d), p2))
     else Some ((n, type, 0), p1) }"

lemma cc_run_shorter: "cc_run b p = Some (r, q) \<Longrightarrow> length q \<le> length p"
  by (auto simp: cc_run_def Let_def split: bind_splits if_splits list.splits)

definition cc_value :: "int \<Rightarrow> int \<Rightarrow> int \<Rightarrow> int \<Rightarrow> int" where
  "cc_value type d c code =
     (if type = 0 then d else if type = 1 then u32 (d + c - code) else if type = 2 then 0 else 230)"

function (sequential) get_cc_scan :: "int \<Rightarrow> int list \<Rightarrow> int \<Rightarrow> int option" where
  "get_cc_scan c [] code = None"
| "get_cc_scan c (b # p) code = (case cc_run b p of
       None \<Rightarrow> None
     | Some ((n, type, d), p1) \<Rightarrow> let c1 = u32 (code + n + 1) in
         if c < c1 then Some (cc_value type d c code) else get_cc_scan c p1 c1)"
  by pat_completeness auto
termination by (relation "measure (\<lambda>(c, p, code). length p)") (auto dest: cc_run_shorter)

definition unicode_get_cc :: "int \<Rightarrow> int option" where
  "unicode_get_cc c = do {
     (pos, code) \<leftarrow> get_index_pos c unicode_cc_index (int (length unicode_cc_index) div 3);
     if pos < 0 then Some 0
     else do {
       cd \<leftarrow> code;
       get_cc_scan c (drop (nat pos) unicode_cc_table) cd } }"

section \<open>Run-length codecs with an index\<close>

definition span :: "('r \<Rightarrow> int) \<Rightarrow> 'r list \<Rightarrow> int" where
  "span len rs = sum_list (map len rs)"

lemma span_simps [simp]: "span len [] = 0" "span len (r # rs) = len r + span len rs"
  "span len (xs @ ys) = span len xs + span len ys"
  by (simp_all add: span_def)

text \<open>The entries of an index table.\<close>

fun le24s :: "int list \<Rightarrow> int list" where
  "le24s (a # b # c # r) = (a OR (push_bit 8 b) OR (push_bit 16 c)) # le24s r"
| "le24s _ = []"

lemma length_le24s: "length (le24s t) = length t div 3"
  by (induction t rule: le24s.induct) auto

lemma nth_le24s: "k < length t div 3 \<Longrightarrow> le24s t ! k = t ! (3 * k) OR push_bit 8 (t ! (3 * k + 1)) OR push_bit 16 (t ! (3 * k + 2))"
proof (induction t arbitrary: k rule: le24s.induct)
  case (1 a b c r)
  then show ?case by (cases k) auto
qed auto

lemma get_le24_nth:
  assumes "0 \<le> k" "k < int (length (le24s t))"
  shows "get_le24 t (k * 3) = Some (le24s t ! nat k)"
proof -
  obtain n where n: "k = int n" "n < length t div 3" using assms by (metis length_le24s of_nat_less_iff zero_le_imp_eq_int)
  then have "3 * n + 2 < length t" by linarith
  then show ?thesis using n nth_le24s [OF n(2)] by (simp add: get_le24_def rdi_def rd_def mult.commute nat_add_distrib nat_mult_distrib)
qed

text \<open>\<open>split_at n xs\<close> cuts a list, with an integer as length.\<close>

fun split_at :: "int \<Rightarrow> 'a list \<Rightarrow> 'a list \<times> 'a list" where
  "split_at n [] = ([], [])"
| "split_at n (x # xs) = (if n \<le> 0 then ([], x # xs) else let (a, b) = split_at (n - 1) xs in (x # a, b))"

lemma split_at_eq: "split_at n xs = (take (nat n) xs, drop (nat n) xs)"
proof (induction n xs rule: split_at.induct)
  case (2 n x xs)
  then show ?case by (cases "n \<le> 0") (auto simp: Suc_nat_eq_nat_zadd1 take_Cons' drop_Cons' nat_diff_distrib)
qed simp

text \<open>\<open>blocks_ok\<close> walks through the entries of an index: each block decodes completely, to runs that start
  in the initial state and cover the code points up to the next entry.\<close>

fun blocks_ok :: "(int list \<Rightarrow> 'r list) \<Rightarrow> (int list \<Rightarrow> bool) \<Rightarrow> ('r \<Rightarrow> int) \<Rightarrow> ('r list \<Rightarrow> bool) \<Rightarrow>
    int list \<Rightarrow> int \<Rightarrow> int \<Rightarrow> int \<Rightarrow> int list \<Rightarrow> bool" where
  "blocks_ok decode complete len sync p pos code k [] = False"
| "blocks_ok decode complete len sync p pos code k [v] = (complete p \<and> code < v \<and> code + span len (decode p) = v)"
| "blocks_ok decode complete len sync p pos code k (v # vs) =
     (let pos' = (k + 1) * 32 + drop_bit 21 v; code' = code21 v; (b, q) = split_at (pos' - pos) p in
      pos \<le> pos' \<and> q \<noteq> [] \<and> complete b \<and> sync (decode b) \<and> code < code' \<and> code + span len (decode b) = code'
      \<and> blocks_ok decode complete len sync q pos' code' (k + 1) vs)"

locale run_codec =
  fixes decode :: "int list \<Rightarrow> 'r list" and complete :: "int list \<Rightarrow> bool" and len :: "'r \<Rightarrow> int" and sync :: "'r list \<Rightarrow> bool"
  assumes decode_append: "complete b \<Longrightarrow> decode (b @ p) = decode b @ decode p"
    and complete_append: "complete b \<Longrightarrow> complete (b @ p) = complete p"
    and complete_Nil: "complete []" and decode_Nil: "decode [] = []"
    and sync_append: "sync xs \<Longrightarrow> sync (xs @ ys) = sync ys" and sync_Nil: "sync []"
begin

text \<open>Entry \<open>j\<close> of the index is a position where decoding can start.\<close>

definition entry_ok :: "int list \<Rightarrow> int \<Rightarrow> int \<Rightarrow> bool" where
  "entry_ok tbl pos code \<longleftrightarrow> (\<exists>b q. tbl = b @ q \<and> int (length b) = pos \<and> complete b \<and> sync (decode b) \<and> span len (decode b) = code)"

lemma entry_ok_start: "complete b \<Longrightarrow> sync (decode b) \<Longrightarrow> entry_ok (b @ p) (int (length b)) (span len (decode b))"
  unfolding entry_ok_def by blast

lemma blocks_ok_entries:
  assumes "blocks_ok decode complete len sync p (int (length b)) code k vs"
    and "complete b" "sync (decode b)" "span len (decode b) = code"
  shows "vs \<noteq> [] \<and> complete (b @ p) \<and> span len (decode (b @ p)) = last vs \<and> code < (if length vs = 1 then last vs else code21 (hd vs))
    \<and> (\<forall>j. Suc j < length vs \<longrightarrow> entry_ok (b @ p) ((k + int j + 1) * 32 + drop_bit 21 (vs ! j)) (code21 (vs ! j))
        \<and> code21 (vs ! j) < (if j + 2 = length vs then last vs else code21 (vs ! Suc j)))"
  using assms
proof (induction vs arbitrary: p b code k)
  case (Cons v vs)
  show ?case
  proof (cases vs)
    case Nil
    then show ?thesis using Cons.prems decode_append [of b p] complete_append [of b p] by simp
  next
    case (Cons w ws)
    let ?pos' = "(k + 1) * 32 + drop_bit 21 v" let ?n = "nat (?pos' - int (length b))"
    define b1 where "b1 = take ?n p" define q where "q = drop ?n p"
    have p: "p = b1 @ q" by (simp add: b1_def q_def)
    have ok: "int (length b) \<le> ?pos'" "q \<noteq> []" "complete b1" "sync (decode b1)" "code < code21 v"
      "code + span len (decode b1) = code21 v" "blocks_ok decode complete len sync q ?pos' (code21 v) (k + 1) vs"
      using Cons.prems(1) Cons by (auto simp: Let_def split_at_eq b1_def q_def)
    have l: "int (length (b @ b1)) = ?pos'" using ok(1,2) by (auto simp: b1_def q_def)
    have bb: "complete (b @ b1)" "sync (decode (b @ b1))" "span len (decode (b @ b1)) = code21 v"
      using Cons.prems(2-4) ok by (auto simp: complete_append decode_append sync_append)
    have IH: "vs \<noteq> [] \<and> complete ((b @ b1) @ q) \<and> span len (decode ((b @ b1) @ q)) = last vs \<and> code21 v < (if length vs = 1 then last vs else code21 (hd vs))
      \<and> (\<forall>j. Suc j < length vs \<longrightarrow> entry_ok ((b @ b1) @ q) ((k + 1 + int j + 1) * 32 + drop_bit 21 (vs ! j)) (code21 (vs ! j))
          \<and> code21 (vs ! j) < (if j + 2 = length vs then last vs else code21 (vs ! Suc j)))"
      by (rule Cons.IH [OF _ bb]) (use ok(7) l in simp)
    have e0: "entry_ok (b @ p) ?pos' (code21 v)" using entry_ok_start [OF bb(1,2), of q] l bb(3) p by simp
    have "entry_ok (b @ p) ((k + int j + 1) * 32 + drop_bit 21 ((v # vs) ! j)) (code21 ((v # vs) ! j))
        \<and> code21 ((v # vs) ! j) < (if j + 2 = length (v # vs) then last (v # vs) else code21 ((v # vs) ! Suc j))"
      if "Suc j < length (v # vs)" for j
    proof (cases j)
      case 0
      then show ?thesis using e0 IH Cons by (auto simp: hd_conv_nth)
    next
      case (Suc i)
      then have "k + 1 + int i + 1 = k + int j + 1" "Suc i < length vs" using that by auto
      then show ?thesis using IH Suc p Cons by (auto simp: algebra_simps)
    qed
    then show ?thesis using IH ok(5) p Cons by auto
  qed
qed simp

text \<open>The binary search stays inside the index and ends at an entry at or before \<open>c\<close>.\<close>

lemma index_loop_ok:
  assumes "0 \<le> lo" "lo < hi" "hi < int (length (le24s t))" "code21 (le24s t ! nat lo) \<le> c"
  shows "ok (index_loop c t lo hi) (\<lambda>r. 0 \<le> r \<and> r + 1 < int (length (le24s t)) \<and> code21 (le24s t ! nat r) \<le> c)"
  using assms
proof (induction c t lo hi rule: index_loop.induct)
  case (1 c t lo hi)
  let ?m = "(hi + lo) div 2"
  show ?case
  proof (cases "hi - lo > 1")
    case True
    then have m: "lo < ?m" "?m < hi" by auto
    then have g: "get_le24 t (?m * 3) = Some (le24s t ! nat ?m)" using 1(3,5) by (intro get_le24_nth) auto
    show ?thesis
    proof (cases "c < code21 (le24s t ! nat ?m)")
      case less: True
      then show ?thesis using 1(1) [OF True refl g less] 1(3-6) m True g by (subst index_loop.simps) simp
    next
      case False
      then show ?thesis using 1(2) [OF True refl g False] 1(3-6) m True g by (subst index_loop.simps) simp
    qed
  next
    case False
    then show ?thesis using 1(3-6) by (subst index_loop.simps) simp
  qed
qed

lemma blocks_ok_complete: "blocks_ok decode complete len sync tbl 0 0 0 vs \<Longrightarrow> complete tbl \<and> span len (decode tbl) = last vs"
  using blocks_ok_entries [of tbl "[]" 0 0 vs] complete_Nil decode_Nil sync_Nil by auto

lemma get_index_pos_ok:
  assumes blocks: "blocks_ok decode complete len sync tbl 0 0 0 (le24s idx)" and n: "2 \<le> length (le24s idx)" and c: "0 \<le> c"
  shows "ok (get_index_pos c idx (int (length idx) div 3)) (\<lambda>(pos, code).
    if c < span len (decode tbl) then 0 \<le> pos \<and> (\<exists>cd. code = Some cd \<and> cd \<le> c \<and> entry_ok tbl pos cd) else pos = -1)"
proof -
  let ?vs = "le24s idx"
  have bl: "blocks_ok decode complete len sync tbl (int (length [])) 0 0 ?vs" using blocks by simp
  note e = blocks_ok_entries [OF bl complete_Nil] decode_Nil sync_Nil
  have ent: "entry_ok tbl ((int j + 1) * 32 + drop_bit 21 (?vs ! j)) (code21 (?vs ! j))" if "Suc j < length ?vs" for j
    using e that by auto
  have lim: "span len (decode tbl) = last ?vs" and first: "code21 (?vs ! 0) < last ?vs"
  proof -
    show "span len (decode tbl) = last ?vs" using e by auto
    have "code21 (?vs ! j) < last ?vs" if "Suc j < length ?vs" for j
      using that
    proof (induction "length ?vs - j" arbitrary: j rule: less_induct)
      case less
      then have "code21 (?vs ! j) < (if j + 2 = length ?vs then last ?vs else code21 (?vs ! Suc j))" using e by auto
      then show ?case using less.hyps [of "Suc j"] less.prems by (cases "j + 2 = length ?vs") force+
    qed
    then show "code21 (?vs ! 0) < last ?vs" using n by simp
  qed
  have l3: "int (length idx) div 3 = int (length ?vs)" by (simp add: length_le24s zdiv_int)
  have g0: "get_le24 idx 0 = Some (?vs ! 0)" using get_le24_nth [of 0 idx] n by (cases "le24s idx") auto
  have gl: "get_le24 idx ((int (length ?vs) - 1) * 3) = Some (last ?vs)"
    using get_le24_nth [of "int (length ?vs) - 1" idx] n by (simp add: last_conv_nth nat_diff_distrib flip: length_greater_0_conv)
  have e0: "entry_ok tbl 0 0" using entry_ok_start [of "[]" tbl] complete_Nil decode_Nil sync_Nil by simp
  consider "c < code21 (?vs ! 0)" | "code21 (?vs ! 0) \<le> c" "c < last ?vs" | "last ?vs \<le> c" by linarith
  then show ?thesis
  proof cases
    case 1
    then show ?thesis using g0 e0 c first lim by (simp add: get_index_pos_def)
  next
    case 2
    then obtain r where r: "index_loop c idx 0 (int (length ?vs) - 1) = Some r" "0 \<le> r" "r + 1 < int (length ?vs)" "code21 (?vs ! nat r) \<le> c"
      using index_loop_ok [of 0 "int (length ?vs) - 1" idx c] n by (auto elim!: okE)
    have gr: "get_le24 idx (r * 3) = Some (?vs ! nat r)" using r by (intro get_le24_nth) auto
    have "entry_ok tbl ((r + 1) * 32 + drop_bit 21 (?vs ! nat r)) (code21 (?vs ! nat r))" using ent [of "nat r"] r by simp
    moreover from this have "0 \<le> (r + 1) * 32 + drop_bit 21 (?vs ! nat r)" by (auto simp: entry_ok_def)
    ultimately show ?thesis
      using 2 g0 gl r gr lim by (simp add: get_index_pos_def Let_def l3 UNICODE_INDEX_BLOCK_LEN_def)
  next
    case 3
    then show ?thesis using g0 gl first lim by (simp add: get_index_pos_def Let_def l3)
  qed
qed

end

section \<open>Property tables\<close>

fun prop_runs :: "int list \<Rightarrow> int list" where
  "prop_runs [] = []"
| "prop_runs (b # p) =
     (if b < 64 then (drop_bit 3 b + 1) # ((b AND 7) + 1) # prop_runs p
      else if b \<ge> 0x80 then (b - 0x80 + 1) # prop_runs p
      else if b < 0x60 then (case p of [] \<Rightarrow> [] | b0 # p' \<Rightarrow> ((push_bit 8 (b - 0x40) OR b0) + 1) # prop_runs p')
      else (case p of b0 # b1 # p' \<Rightarrow> ((push_bit 16 (b - 0x60) OR push_bit 8 b0 OR b1) + 1) # prop_runs p' | _ \<Rightarrow> []))"

fun prop_complete :: "int list \<Rightarrow> bool" where
  "prop_complete [] = True"
| "prop_complete (b # p) =
     (if b < 64 \<or> b \<ge> 0x80 then prop_complete p
      else if b < 0x60 then (case p of [] \<Rightarrow> False | b0 # p' \<Rightarrow> prop_complete p')
      else (case p of b0 # b1 # p' \<Rightarrow> prop_complete p' | _ \<Rightarrow> False))"

fun even_runs :: "'a list \<Rightarrow> bool" where
  "even_runs [] = True"
| "even_runs [x] = False"
| "even_runs (x # y # r) = even_runs r"

lemma even_runs_eq: "even_runs rs = even (length rs)"
  by (induction rs rule: even_runs.induct) auto

lemma prop_complete_induct [consumes 1, case_names Nil one two three]:
  assumes "prop_complete p" "P []"
    and "\<And>b p. b < 64 \<or> 0x80 \<le> b \<Longrightarrow> P p \<Longrightarrow> P (b # p)"
    and "\<And>b b0 p. 64 \<le> b \<Longrightarrow> b < 0x60 \<Longrightarrow> P p \<Longrightarrow> P (b # b0 # p)"
    and "\<And>b b0 b1 p. 0x60 \<le> b \<Longrightarrow> b < 0x80 \<Longrightarrow> P p \<Longrightarrow> P (b # b0 # b1 # p)"
  shows "P p"
  using assms(1)
proof (induction p rule: length_induct)
  case (1 p)
  show ?case
  proof (cases p)
    case (Cons b q)
    consider "b < 64 \<or> 0x80 \<le> b" | "64 \<le> b" "b < 0x60" | "0x60 \<le> b" "b < 0x80" by linarith
    then show ?thesis
    proof cases
      case 1
      then show ?thesis using assms(3) "1.IH" "1.prems" Cons by auto
    next
      case 2
      then obtain b0 q' where "q = b0 # q'" "prop_complete q'" using "1.prems" Cons by (cases q) auto
      then show ?thesis using 2 assms(4) "1.IH" Cons by auto
    next
      case 3
      then obtain b0 b1 q' where "q = b0 # b1 # q'" "prop_complete q'"
        using "1.prems" Cons by (cases q; cases "tl q") auto
      then show ?thesis using 3 assms(5) "1.IH" Cons by auto
    qed
  qed (simp add: assms(2))
qed

interpretation ptab: run_codec prop_runs prop_complete "\<lambda>r. r" even_runs
proof
  show "prop_runs (b @ p) = prop_runs b @ prop_runs p" if "prop_complete b" for b p
    using that by (induction b rule: prop_complete_induct) auto
  show "prop_complete (b @ p) = prop_complete p" if "prop_complete b" for b p
    using that by (induction b rule: prop_complete_induct) auto
qed (auto simp: even_runs_eq)

text \<open>Membership in the set that a sequence of runs denotes: the runs are alternately out and in.\<close>

fun in_runs :: "int \<Rightarrow> int \<Rightarrow> bool \<Rightarrow> int list \<Rightarrow> bool" where
  "in_runs c code inb [] = False"
| "in_runs c code inb (r # rs) = (if c < code + r then inb else in_runs c (code + r) (\<not> inb) rs)"

lemma prop_runs_pos: "\<forall>b \<in> set p. 0 \<le> b \<Longrightarrow> r \<in> set (prop_runs p) \<Longrightarrow> 0 < r"
proof (induction p rule: prop_runs.induct)
  case (2 b p)
  then show ?case by (auto split: if_splits list.splits simp: add_strict_increasing add_nonneg_pos)
qed simp

lemma span_nonneg: "\<forall>r \<in> set rs. 0 < r \<Longrightarrow> 0 \<le> span (\<lambda>r. r) rs"
  by (induction rs) auto

lemma in_runs_append:
  "\<forall>r \<in> set xs. 0 < r \<Longrightarrow> code + span (\<lambda>r. r) xs \<le> c \<Longrightarrow>
   in_runs c code inb (xs @ ys) = in_runs c (code + span (\<lambda>r. r) xs) (inb = even (length xs)) ys"
proof (induction xs arbitrary: code inb)
  case (Cons x xs)
  then have "\<not> c < code + x" using span_nonneg [of xs] by simp
  then show ?case using Cons by (cases inb) (simp_all add: add.assoc)
qed simp

lemma u32_id: "0 \<le> x \<Longrightarrow> x < 2 ^ 32 \<Longrightarrow> u32 x = x"
  by (simp add: u32_def)

lemma in_table_scan_ok:
  assumes "prop_complete p" "\<forall>b \<in> set p. 0 \<le> b" "0 \<le> code" "c < code + span (\<lambda>r. r) (prop_runs p)"
    "code + span (\<lambda>r. r) (prop_runs p) < 2 ^ 32" "code \<le> c"
  shows "in_table_scan c p code inb = Some (in_runs c code inb (prop_runs p))"
  using assms
proof (induction p arbitrary: code inb rule: prop_complete_induct)
  case (one b p)
  let ?s = "span (\<lambda>r. r) (prop_runs p)"
  have sp: "0 \<le> ?s" using one.prems(1) prop_runs_pos [of p] by (intro span_nonneg) auto
  have IH: "in_table_scan c p cd i = Some (in_runs c cd i (prop_runs p))" if "0 \<le> cd" "c < cd + ?s" "cd + ?s < 2 ^ 32" "cd \<le> c" for cd i
    using one.IH one.prems(1) that by simp
  show ?case
  proof (cases "b < 64")
    case True
    define r1 where "r1 = drop_bit 3 b + 1" define r2 where "r2 = (b AND 7) + 1"
    have r: "0 < r1" "0 < r2" using one.prems(1) by (auto simp: r1_def r2_def add_nonneg_pos)
    have t: "c < code + r1 + r2 + ?s" "code + r1 + r2 + ?s < 2 ^ 32"
      using one.prems(3,4) True by (simp_all add: r1_def r2_def add.assoc)
    have e: "code + drop_bit 3 b + 1 = code + r1" "code + r1 + (b AND 7) + 1 = code + r1 + r2"
      by (simp_all add: r1_def r2_def)
    have "u32 (code + drop_bit 3 b + 1) = code + r1" "u32 (code + r1 + (b AND 7) + 1) = code + r1 + r2"
      unfolding e using r sp t one.prems(2) by (auto intro!: u32_id)
    moreover have "prop_runs (b # p) = r1 # r2 # prop_runs p" using True by (simp add: r1_def r2_def)
    ultimately show ?thesis using True IH [of "code + r1 + r2" inb] r sp t one.prems(2) by (simp add: Let_def)
  next
    case False
    have t: "c < code + (b - 127) + ?s" "code + (b - 127) + ?s < 2 ^ 32" "0x80 \<le> b"
      using one.prems(3,4) one.hyps False by auto
    then have "u32 (code + b - 0x80 + 1) = code + (b - 127)" using sp one.prems(2) by (subst u32_id) auto
    then show ?thesis using False IH [of "code + (b - 127)" "\<not> inb"] t sp one.prems(2) by (simp add: Let_def)
  qed
next
  case (two b b0 p)
  define r where "r = (push_bit 8 (b - 0x40) OR b0) + 1"
  have sp: "0 \<le> span (\<lambda>r. r) (prop_runs p)" using two.prems(1) prop_runs_pos [of p] by (intro span_nonneg) auto
  have r: "0 < r" using two by (simp add: r_def add_nonneg_pos)
  have t: "c < code + r + span (\<lambda>r. r) (prop_runs p)" "code + r + span (\<lambda>r. r) (prop_runs p) < 2 ^ 32"
    using two.prems(3,4) two.hyps by (auto simp: r_def add.assoc)
  have e: "code + (push_bit 8 (b - 0x40) OR b0) + 1 = code + r" by (simp add: r_def)
  have "u32 (code + (push_bit 8 (b - 0x40) OR b0) + 1) = code + r" unfolding e using r sp t two.prems(2) by (intro u32_id) auto
  moreover have "prop_runs (b # b0 # p) = r # prop_runs p" using two.hyps by (simp add: r_def)
  ultimately show ?case using two.hyps two.IH [of "code + r" "\<not> inb"] two.prems(1,2) r t by (simp add: Let_def)
next
  case (three b b0 b1 p)
  define r where "r = (push_bit 16 (b - 0x60) OR push_bit 8 b0 OR b1) + 1"
  have sp: "0 \<le> span (\<lambda>r. r) (prop_runs p)" using three.prems(1) prop_runs_pos [of p] by (intro span_nonneg) auto
  have r: "0 < r" using three by (simp add: r_def add_nonneg_pos)
  have t: "c < code + r + span (\<lambda>r. r) (prop_runs p)" "code + r + span (\<lambda>r. r) (prop_runs p) < 2 ^ 32"
    using three.prems(3,4) three.hyps by (auto simp: r_def add.assoc)
  have e: "code + (push_bit 16 (b - 0x60) OR push_bit 8 b0 OR b1) + 1 = code + r" by (simp add: r_def)
  have "u32 (code + (push_bit 16 (b - 0x60) OR push_bit 8 b0 OR b1) + 1) = code + r" unfolding e using r sp t three.prems(2) by (intro u32_id) auto
  moreover have "prop_runs (b # b0 # b1 # p) = r # prop_runs p" using three.hyps by (simp add: r_def)
  ultimately show ?case using three.hyps three.IH [of "code + r" "\<not> inb"] three.prems(1,2) r t by (simp add: Let_def)
qed simp

definition prop_table_ok :: "int list \<Rightarrow> int list \<Rightarrow> bool" where
  "prop_table_ok tbl idx \<longleftrightarrow> blocks_ok prop_runs prop_complete (\<lambda>r. r) even_runs tbl 0 0 0 (le24s idx)
     \<and> list_all (\<lambda>b. 0 \<le> b) tbl \<and> tl (le24s idx) \<noteq> [] \<and> last (le24s idx) < 2 ^ 32"

lemma lre_is_in_table_ok:
  assumes ok: "prop_table_ok tbl idx" and c: "0 \<le> c"
  shows "lre_is_in_table c tbl idx (int (length idx) div 3) = Some (in_runs c 0 False (prop_runs tbl))"
proof -
  have bl: "blocks_ok prop_runs prop_complete (\<lambda>r. r) even_runs tbl 0 0 0 (le24s idx)" and nn: "\<forall>b \<in> set tbl. 0 \<le> b"
    using ok by (auto simp: prop_table_ok_def list_all_iff)
  have n: "2 \<le> length (le24s idx)" using ok by (cases "le24s idx"; cases "tl (le24s idx)") (auto simp: prop_table_ok_def)
  have cp: "prop_complete tbl" "span (\<lambda>r. r) (prop_runs tbl) < 2 ^ 32"
    using ptab.blocks_ok_complete [OF bl] ok by (auto simp: prop_table_ok_def)
  have pos: "\<forall>r \<in> set (prop_runs tbl). 0 < r" using prop_runs_pos [OF nn] by blast
  obtain p code where g: "get_index_pos c idx (int (length idx) div 3) = Some (p, code)"
    and e: "if c < span (\<lambda>r. r) (prop_runs tbl) then 0 \<le> p \<and> (\<exists>cd. code = Some cd \<and> cd \<le> c \<and> ptab.entry_ok tbl p cd) else p = -1"
    using ptab.get_index_pos_ok [OF bl n c] by (auto elim!: okE)
  show ?thesis
  proof (cases "c < span (\<lambda>r. r) (prop_runs tbl)")
    case True
    then obtain cd b q where b: "code = Some cd" "cd \<le> c" "tbl = b @ q" "int (length b) = p" "prop_complete b"
      "even_runs (prop_runs b)" "span (\<lambda>r. r) (prop_runs b) = cd"
      using e by (auto simp: ptab.entry_ok_def)
    have r: "prop_runs tbl = prop_runs b @ prop_runs q" using b ptab.decode_append by simp
    have "0 \<le> cd" using b(7) r pos by (auto intro!: span_nonneg)
    then have "in_table_scan c q cd False = Some (in_runs c cd False (prop_runs q))"
      using True cp r b nn ptab.complete_append [of b q] by (intro in_table_scan_ok) auto
    moreover have "in_runs c 0 False (prop_runs tbl) = in_runs c cd False (prop_runs q)"
    proof -
      have "\<forall>x \<in> set (prop_runs b). 0 < x" using pos r by simp
      then have "in_runs c 0 False (prop_runs b @ prop_runs q) = in_runs c cd False (prop_runs q)"
        using in_runs_append [of "prop_runs b" 0 c False "prop_runs q"] b(2,6,7) by (simp add: even_runs_eq)
      then show ?thesis using r by simp
    qed
    moreover have "drop (nat p) tbl = q" "\<not> p < 0" using b(3,4) by auto
    ultimately show ?thesis using g b(1) by (simp add: lre_is_in_table_def)
  next
    case False
    then have "\<not> in_runs c 0 False (prop_runs tbl)" using in_runs_append [of "prop_runs tbl" 0 c False "[]"] pos by simp
    then show ?thesis using g e False by (simp add: lre_is_in_table_def)
  qed
qed

section \<open>Combining classes\<close>

lemma cc_run_append: "cc_run b p = Some (r, q) \<Longrightarrow> cc_run b (p @ s) = Some (r, q @ s)"
  by (auto simp: cc_run_def Let_def split: bind_splits if_splits list.splits)

function (sequential) cc_runs :: "int list \<Rightarrow> (int \<times> int \<times> int) list" where
  "cc_runs [] = []"
| "cc_runs (b # p) = (case cc_run b p of None \<Rightarrow> [] | Some ((n, type, d), q) \<Rightarrow> (n + 1, type, d) # cc_runs q)"
  by pat_completeness auto
termination by (relation "measure length") (auto dest: cc_run_shorter)

function (sequential) cc_complete :: "int list \<Rightarrow> bool" where
  "cc_complete [] = True"
| "cc_complete (b # p) = (case cc_run b p of None \<Rightarrow> False | Some (r, q) \<Rightarrow> cc_complete q)"
  by pat_completeness auto
termination by (relation "measure length") (auto dest: cc_run_shorter)

interpretation cctab: run_codec cc_runs cc_complete fst "\<lambda>_. True"
proof
  show "cc_runs (b @ p) = cc_runs b @ cc_runs p" if "cc_complete b" for b p
    using that by (induction b rule: cc_complete.induct) (auto split: option.splits simp: cc_run_append)
  show "cc_complete (b @ p) = cc_complete p" if "cc_complete b" for b p
    using that by (induction b rule: cc_complete.induct) (auto split: option.splits simp: cc_run_append)
qed simp_all

text \<open>The combining class that a sequence of runs gives a code point; 0 after the last run.\<close>

fun cc_at :: "int \<Rightarrow> int \<Rightarrow> (int \<times> int \<times> int) list \<Rightarrow> int" where
  "cc_at c code [] = 0"
| "cc_at c code ((n, type, d) # rs) = (if c < code + n then cc_value type d c code else cc_at c (code + n) rs)"

lemma span_fst_nonneg: "\<forall>r \<in> set rs. 0 < fst r \<Longrightarrow> 0 \<le> span fst rs"
  by (induction rs) auto

lemma cc_at_append:
  "\<forall>r \<in> set xs. 0 < fst r \<Longrightarrow> code + span fst xs \<le> c \<Longrightarrow> cc_at c code (xs @ ys) = cc_at c (code + span fst xs) ys"
proof (induction xs arbitrary: code)
  case (Cons x xs)
  have "0 \<le> span fst xs" using Cons.prems(1) by (intro span_fst_nonneg) auto
  then show ?case using Cons by (cases x) (auto simp: add.assoc)
qed simp

lemma get_cc_scan_ok:
  assumes "cc_complete p" "\<forall>r \<in> set (cc_runs p). 0 < fst r" "0 \<le> code" "code \<le> c" "c < code + span fst (cc_runs p)"
    "code + span fst (cc_runs p) < 2 ^ 32"
  shows "get_cc_scan c p code = Some (cc_at c code (cc_runs p))"
  using assms
proof (induction p arbitrary: code rule: cc_complete.induct)
  case (2 b p)
  then obtain n type d q where r: "cc_run b p = Some ((n, type, d), q)" "cc_complete q" by (auto split: option.splits)
  have sp: "0 \<le> span fst (cc_runs q)" using 2(3) r by (intro span_fst_nonneg) auto
  have t: "c < code + (n + 1) + span fst (cc_runs q)" "code + (n + 1) + span fst (cc_runs q) < 2 ^ 32" "0 < n + 1"
    using 2(3-7) r by auto
  have e: "u32 (code + n + 1) = code + (n + 1)" using sp t 2(4) by (subst u32_id) auto
  have IH: "get_cc_scan c q (code + (n + 1)) = Some (cc_at c (code + (n + 1)) (cc_runs q))" if "\<not> c < code + (n + 1)"
    using 2(1) [OF r(1) refl r(2)] 2(3,4) r t that by auto
  show ?case using r e IH by (simp add: Let_def)
qed simp

definition cc_table_ok :: "int list \<Rightarrow> int list \<Rightarrow> bool" where
  "cc_table_ok tbl idx \<longleftrightarrow> blocks_ok cc_runs cc_complete fst (\<lambda>_. True) tbl 0 0 0 (le24s idx)
     \<and> list_all (\<lambda>(n, type, d). 0 < n \<and> 0 \<le> d \<and> (if type = 1 then d + n \<le> 256 else d < 256)) (cc_runs tbl)
     \<and> tl (le24s idx) \<noteq> [] \<and> last (le24s idx) < 2 ^ 32"

lemma cc_at_bounds:
  assumes "list_all (\<lambda>(n, type, d). 0 < n \<and> 0 \<le> d \<and> (if type = 1 then d + n \<le> 256 else d < 256)) rs" "code \<le> c"
  shows "0 \<le> cc_at c code rs \<and> cc_at c code rs < 256"
  using assms by (induction c code rs rule: cc_at.induct) (auto simp: cc_value_def u32_def split: if_splits)

lemma unicode_get_cc_eq:
  assumes ok: "cc_table_ok unicode_cc_table unicode_cc_index" and c: "0 \<le> c"
  shows "unicode_get_cc c = Some (cc_at c 0 (cc_runs unicode_cc_table))"
proof -
  let ?t = unicode_cc_table and ?i = unicode_cc_index
  have bl: "blocks_ok cc_runs cc_complete fst (\<lambda>_. True) ?t 0 0 0 (le24s ?i)" and pos: "\<forall>r \<in> set (cc_runs ?t). 0 < fst r"
    using ok by (auto simp: cc_table_ok_def list_all_iff)
  have n: "2 \<le> length (le24s ?i)" using ok by (cases "le24s ?i"; cases "tl (le24s ?i)") (auto simp: cc_table_ok_def)
  have cp: "cc_complete ?t" "span fst (cc_runs ?t) < 2 ^ 32"
    using cctab.blocks_ok_complete [OF bl] ok by (auto simp: cc_table_ok_def)
  obtain p code where g: "get_index_pos c ?i (int (length ?i) div 3) = Some (p, code)"
    and e: "if c < span fst (cc_runs ?t) then 0 \<le> p \<and> (\<exists>cd. code = Some cd \<and> cd \<le> c \<and> cctab.entry_ok ?t p cd) else p = -1"
    using cctab.get_index_pos_ok [OF bl n c] by (auto elim!: okE)
  show ?thesis
  proof (cases "c < span fst (cc_runs ?t)")
    case True
    then obtain cd b q where b: "code = Some cd" "cd \<le> c" "?t = b @ q" "int (length b) = p" "cc_complete b"
      "span fst (cc_runs b) = cd"
      using e by (auto simp: cctab.entry_ok_def)
    have r: "cc_runs ?t = cc_runs b @ cc_runs q" using cctab.decode_append [OF b(5), of q] b(3) by simp
    have pb: "\<forall>x \<in> set (cc_runs b). 0 < fst x" "\<forall>x \<in> set (cc_runs q). 0 < fst x" using pos r by auto
    have cq: "cc_complete q" using cp(1) cctab.complete_append [OF b(5), of q] b(3) by simp
    have "0 \<le> cd" using span_fst_nonneg [OF pb(1)] b(6) by simp
    moreover have "c < cd + span fst (cc_runs q)" "cd + span fst (cc_runs q) < 2 ^ 32" using True cp(2) r b(6) by simp_all
    ultimately have "get_cc_scan c q cd = Some (cc_at c cd (cc_runs q))" using get_cc_scan_ok [OF cq pb(2)] b(2) by blast
    moreover have "cc_at c 0 (cc_runs ?t) = cc_at c cd (cc_runs q)" using cc_at_append [OF pb(1), where code = 0 and c = c] b(2,6) r by simp
    moreover have "drop (nat p) ?t = q" "\<not> p < 0" using b(4) by (auto simp: b(3) append_eq_conv_conj)
    ultimately show ?thesis using g b(1) by (simp add: unicode_get_cc_def)
  next
    case False
    then have "cc_at c 0 (cc_runs ?t) = 0" using cc_at_append [OF pos, where code = 0 and c = c and ys = "[]"] by simp
    then show ?thesis using g e False by (simp add: unicode_get_cc_def)
  qed
qed

end
