(* ===== verification/CaseConv.thy ===== *)
theory CaseConv
  imports PropTable
begin

text \<open>
  Case conversion and case folding of \<open>src/native/quickjs/libunicode.c\<close>: \<open>lre_case_conv\<close>,
  \<open>lre_canonicalize\<close>, \<open>lre_is_cased\<close> and their helpers, over the tables of theory \<open>UniData\<close>.  Unsigned
  32 bit values are integers with the wrap-around written out; a read outside a table is \<^term>\<open>None\<close>.
\<close>

section \<open>Binary search in a table of runs\<close>

text \<open>The loop that finds the run which contains \<open>c\<close>: its index and entry, or nothing.  \<open>start\<close> and \<open>len\<close>
  read the first code point and the length of an entry.\<close>

function run_search :: "int list \<Rightarrow> (int \<Rightarrow> int) \<Rightarrow> (int \<Rightarrow> int) \<Rightarrow> int \<Rightarrow> int \<Rightarrow> int \<Rightarrow> (int \<times> int) option option" where
  "run_search tbl start len c idx_min idx_max =
     (if idx_min \<le> idx_max then
        (let idx = (idx_max + idx_min) div 2 in
         case rdi tbl idx of
           None \<Rightarrow> None
         | Some v \<Rightarrow>
             if c < start v then run_search tbl start len c idx_min (idx - 1)
             else if c \<ge> start v + len v then run_search tbl start len c (idx + 1) idx_max
             else Some (Some (idx, v)))
      else Some None)"
  by pat_completeness auto
termination by (relation "measure (\<lambda>(t, s, l, c, lo, hi). nat (hi - lo + 1))") auto

declare run_search.simps [simp del]

text \<open>Runs in increasing order without overlap.\<close>

fun runs_sorted :: "(int \<Rightarrow> int) \<Rightarrow> (int \<Rightarrow> int) \<Rightarrow> int \<Rightarrow> int list \<Rightarrow> bool" where
  "runs_sorted start len lo [] = True"
| "runs_sorted start len lo (v # vs) = (lo \<le> start v \<and> 0 < len v \<and> runs_sorted start len (start v + len v) vs)"

lemma runs_sorted_nth:
  "runs_sorted start len lo tbl \<Longrightarrow> i < length tbl \<Longrightarrow> lo \<le> start (tbl ! i) \<and> 0 < len (tbl ! i)"
proof (induction tbl arbitrary: lo i)
  case (Cons v vs)
  then show ?case by (cases i) fastforce+
qed simp

lemma runs_sorted_less:
  "runs_sorted start len lo tbl \<Longrightarrow> i < j \<Longrightarrow> j < length tbl \<Longrightarrow> start (tbl ! i) + len (tbl ! i) \<le> start (tbl ! j)"
proof (induction tbl arbitrary: lo i j)
  case (Cons v vs)
  then show ?case using runs_sorted_nth [of start len "start v + len v" vs] by (cases i; cases j) auto
qed simp

text \<open>The index of the run that contains \<open>c\<close> is unique, and the search finds it.\<close>

definition in_run :: "(int \<Rightarrow> int) \<Rightarrow> (int \<Rightarrow> int) \<Rightarrow> int \<Rightarrow> int \<Rightarrow> bool" where
  "in_run start len v c \<longleftrightarrow> start v \<le> c \<and> c < start v + len v"

lemma run_search_ok:
  assumes "runs_sorted start len 0 tbl" "0 \<le> lo" "hi < int (length tbl)"
    and "\<And>i. i < length tbl \<Longrightarrow> in_run start len (tbl ! i) c \<Longrightarrow> lo \<le> int i \<and> int i \<le> hi"
  shows "(\<exists>i < length tbl. in_run start len (tbl ! i) c \<and> run_search tbl start len c lo hi = Some (Some (int i, tbl ! i)))
    \<or> (\<forall>i < length tbl. \<not> in_run start len (tbl ! i) c) \<and> run_search tbl start len c lo hi = Some None"
  using assms
proof (induction tbl start len c lo hi rule: run_search.induct)
  case (1 tbl start len c lo hi)
  let ?m = "(hi + lo) div 2"
  show ?case
  proof (cases "lo \<le> hi")
    case True
    then have m: "lo \<le> ?m" "?m \<le> hi" "nat ?m < length tbl" "int (nat ?m) = ?m" using 1(4,5) by auto
    let ?v = "tbl ! nat ?m"
    have r: "rdi tbl ?m = Some ?v" using m 1(4) by (simp add: rdi_def rd_def)
    have below: "int i < ?m" if "i < length tbl" "in_run start len (tbl ! i) c" "c < start ?v" for i
    proof (rule ccontr)
      assume "\<not> int i < ?m"
      then consider "i = nat ?m" | "nat ?m < i" using m(4) by linarith
      then show False
        by cases (use that runs_sorted_less [OF 1(3), of "nat ?m" i] runs_sorted_nth [OF 1(3) m(3)] in \<open>auto simp: in_run_def\<close>)
    qed
    have above: "?m < int i" if "i < length tbl" "in_run start len (tbl ! i) c" "start ?v + len ?v \<le> c" for i
    proof (rule ccontr)
      assume "\<not> ?m < int i"
      then consider "i = nat ?m" | "i < nat ?m" using m(4) by linarith
      then show False
        by cases (use that m(3) runs_sorted_less [OF 1(3), of i "nat ?m"] runs_sorted_nth [OF 1(3) m(3)] in \<open>auto simp: in_run_def\<close>)
    qed
    consider "c < start ?v" | "start ?v \<le> c" "c \<ge> start ?v + len ?v" | "in_run start len ?v c"
      unfolding in_run_def by linarith
    then show ?thesis
    proof cases
      case less: 1
      have "run_search tbl start len c lo hi = run_search tbl start len c lo (?m - 1)"
        using True r less by (subst run_search.simps) (simp add: Let_def)
      moreover have "lo \<le> int i \<and> int i \<le> ?m - 1" if "i < length tbl" "in_run start len (tbl ! i) c" for i
        using 1(6) [OF that] below [OF that less] by simp
      ultimately show ?thesis using 1(1) [OF True refl r less 1(3,4)] m 1(5) by simp
    next
      case greater: 2
      then have "\<not> c < start ?v" by simp
      moreover from this have "run_search tbl start len c lo hi = run_search tbl start len c (?m + 1) hi"
        using True r greater by (subst run_search.simps) (simp add: Let_def)
      moreover have "?m + 1 \<le> int i \<and> int i \<le> hi" if "i < length tbl" "in_run start len (tbl ! i) c" for i
        using 1(6) [OF that] above [OF that greater(2)] by simp
      ultimately show ?thesis using 1(2) [OF True refl r _ greater(2) 1(3)] m 1(4,5) by simp
    next
      case 3
      then show ?thesis using m True r by (subst run_search.simps) (auto simp: Let_def in_run_def intro!: exI [of _ "nat ?m"])
    qed
  next
    case False
    then show ?thesis using 1(6) by (subst (1 2) run_search.simps) force
  qed
qed

section \<open>Case conversion\<close>

text \<open>The run types, numbered as in the source.\<close>

abbreviation (input) "RUN_TYPE_U \<equiv> 0 :: int"
abbreviation (input) "RUN_TYPE_L \<equiv> 1 :: int"
abbreviation (input) "RUN_TYPE_UF \<equiv> 2 :: int"
abbreviation (input) "RUN_TYPE_LF \<equiv> 3 :: int"
abbreviation (input) "RUN_TYPE_UL \<equiv> 4 :: int"
abbreviation (input) "RUN_TYPE_LSU \<equiv> 5 :: int"
abbreviation (input) "RUN_TYPE_U2L_399_EXT2 \<equiv> 6 :: int"
abbreviation (input) "RUN_TYPE_UF_D20 \<equiv> 7 :: int"
abbreviation (input) "RUN_TYPE_UF_D1_EXT \<equiv> 8 :: int"
abbreviation (input) "RUN_TYPE_U_EXT \<equiv> 9 :: int"
abbreviation (input) "RUN_TYPE_LF_EXT \<equiv> 10 :: int"
abbreviation (input) "RUN_TYPE_UF_EXT2 \<equiv> 11 :: int"
abbreviation (input) "RUN_TYPE_LF_EXT2 \<equiv> 12 :: int"
abbreviation (input) "RUN_TYPE_UF_EXT3 \<equiv> 13 :: int"

definition run_code :: "int \<Rightarrow> int" where
  "run_code v = drop_bit 15 v"

definition run_len :: "int \<Rightarrow> int" where
  "run_len v = drop_bit 8 v AND 0x7f"

definition run_type :: "int \<Rightarrow> int" where
  "run_type v = drop_bit 4 v AND 0xf"

definition run_data :: "int \<Rightarrow> int \<Rightarrow> int" where
  "run_data v t2 = push_bit 8 (v AND 0xf) OR t2"

abbreviation case_search :: "int \<Rightarrow> (int \<times> int) option option" where
  "case_search c \<equiv> run_search case_conv_table1 run_code run_len c 0 (int (length case_conv_table1) - 1)"

text \<open>The result is the array \<open>res\<close> up to the returned length.  \<open>conv1\<close> is \<open>lre_case_conv1\<close> with conversion
  to lower case.\<close>

definition case_conv_entry_with :: "(int \<Rightarrow> int option) \<Rightarrow> int \<Rightarrow> int \<Rightarrow> int \<Rightarrow> int \<Rightarrow> int list option" where
  "case_conv_entry_with conv1 c conv_type idx v = do {
     let is_lower = (if conv_type \<noteq> 0 then 1 else 0 :: int);
     let type = run_type v;
     t2 \<leftarrow> rdi case_conv_table2 idx;
     let data = run_data v t2;
     let code = run_code v;
     if type = RUN_TYPE_U \<or> type = RUN_TYPE_L \<or> type = RUN_TYPE_UF \<or> type = RUN_TYPE_LF then
       (if conv_type = type AND 1 \<or> (type \<ge> RUN_TYPE_UF \<and> conv_type = 2) then do {
          t \<leftarrow> rdi case_conv_table1 data;
          Some [u32 (c - code + run_code t)] }
        else Some [c])
     else if type = RUN_TYPE_UL then
       (let a = u32 (c - code) in
        if a AND 1 \<noteq> 1 - is_lower then Some [c] else Some [u32 ((a XOR 1) + code)])
     else if type = RUN_TYPE_LSU then
       (let a = u32 (c - code) in
        if a = 1 then Some [u32 (c + (2 * is_lower - 1))]
        else if a = (1 - is_lower) * 2 then Some [u32 (c + (2 * is_lower - 1) * 2)]
        else Some [c])
     else if type = RUN_TYPE_U2L_399_EXT2 then
       (if is_lower = 0 then do { e \<leftarrow> rdi case_conv_ext (drop_bit 6 data); Some [u32 (c - code + e), 0x399] }
        else do { e \<leftarrow> rdi case_conv_ext (data AND 0x3f); Some [u32 (c - code + e)] })
     else if type = RUN_TYPE_UF_D20 then
       (if conv_type = 1 then Some [c] else Some [u32 (data + (if conv_type = 2 then 0x20 else 0))])
     else if type = RUN_TYPE_UF_D1_EXT then
       (if conv_type = 1 then Some [c]
        else do { e \<leftarrow> rdi case_conv_ext data; Some [u32 (e + (if conv_type = 2 then 1 else 0))] })
     else if type = RUN_TYPE_U_EXT \<or> type = RUN_TYPE_LF_EXT then
       (if is_lower \<noteq> type - RUN_TYPE_U_EXT then Some [c]
        else do { e \<leftarrow> rdi case_conv_ext data; Some [e] })
     else if type = RUN_TYPE_LF_EXT2 then
       (if is_lower = 0 then Some [c]
        else do {
          e0 \<leftarrow> rdi case_conv_ext (drop_bit 6 data);
          e1 \<leftarrow> rdi case_conv_ext (data AND 0x3f);
          Some [u32 (c - code + e0), e1] })
     else if type = RUN_TYPE_UF_EXT2 then
       (if conv_type = 1 then Some [c]
        else do {
          e0 \<leftarrow> rdi case_conv_ext (drop_bit 6 data);
          e1 \<leftarrow> rdi case_conv_ext (data AND 0x3f);
          if conv_type = 2 then do { r0 \<leftarrow> conv1 (u32 (c - code + e0)); r1 \<leftarrow> conv1 e1; Some [r0, r1] }
          else Some [u32 (c - code + e0), e1] })
     else
       (if conv_type = 1 then Some [c]
        else do {
          e0 \<leftarrow> rdi case_conv_ext (drop_bit 8 data);
          e1 \<leftarrow> rdi case_conv_ext (drop_bit 4 data AND 0xf);
          e2 \<leftarrow> rdi case_conv_ext (data AND 0xf);
          if conv_type = 2 then do { r0 \<leftarrow> conv1 e0; r1 \<leftarrow> conv1 e1; r2 \<leftarrow> conv1 e2; Some [r0, r1, r2] }
          else Some [e0, e1, e2] }) }"

definition case_conv_with :: "(int \<Rightarrow> int option) \<Rightarrow> int \<Rightarrow> int \<Rightarrow> int list option" where
  "case_conv_with conv1 c conv_type =
     (if c < 128 then
        (if conv_type \<noteq> 0 then Some [if 0x41 \<le> c \<and> c \<le> 0x5a then c - 0x41 + 0x61 else c]
         else Some [if 0x61 \<le> c \<and> c \<le> 0x7a then c - 0x61 + 0x41 else c])
      else do {
        r \<leftarrow> case_search c;
        case r of None \<Rightarrow> Some [c] | Some (idx, v) \<Rightarrow> case_conv_entry_with conv1 c conv_type idx v })"

text \<open>Conversion to lower case does not call \<open>lre_case_conv1\<close>, so that the recursion ends after one
  level.\<close>

definition lre_case_conv1 :: "int \<Rightarrow> int option" where
  "lre_case_conv1 c = do {
     res \<leftarrow> case_conv_with (\<lambda>_. None) c 1;
     case res of [] \<Rightarrow> None | r # _ \<Rightarrow> Some r }"

definition lre_case_conv_entry :: "int \<Rightarrow> int \<Rightarrow> int \<Rightarrow> int \<Rightarrow> int list option" where
  "lre_case_conv_entry = case_conv_entry_with lre_case_conv1"

definition lre_case_conv :: "int \<Rightarrow> int \<Rightarrow> int list option" where
  "lre_case_conv = case_conv_with lre_case_conv1"

definition lre_case_folding_entry :: "int \<Rightarrow> int \<Rightarrow> int \<Rightarrow> bool \<Rightarrow> int option" where
  "lre_case_folding_entry c idx v is_unicode =
     (if is_unicode then do {
        res \<leftarrow> lre_case_conv_entry c 2 idx v;
        case res of
          [r] \<Rightarrow> Some r
        | _ \<Rightarrow> Some (if c = 0xfb06 then 0xfb05 else if c = 0x1fd3 then 0x390 else if c = 0x1fe3 then 0x3b0 else c) }
      else if c < 128 then Some (if 0x61 \<le> c \<and> c \<le> 0x7a then c - 0x61 + 0x41 else c)
      else do {
        res \<leftarrow> lre_case_conv_entry c 0 idx v;
        case res of [r] \<Rightarrow> Some (if r \<ge> 128 then r else c) | _ \<Rightarrow> Some c })"

definition lre_canonicalize :: "int \<Rightarrow> bool \<Rightarrow> int option" where
  "lre_canonicalize c is_unicode =
     (if c < 128 then
        (if is_unicode then Some (if 0x41 \<le> c \<and> c \<le> 0x5a then c - 0x41 + 0x61 else c)
         else Some (if 0x61 \<le> c \<and> c \<le> 0x7a then c - 0x61 + 0x41 else c))
      else do {
        r \<leftarrow> case_search c;
        case r of None \<Rightarrow> Some c | Some (idx, v) \<Rightarrow> lre_case_folding_entry c idx v is_unicode })"

definition lre_is_cased :: "int \<Rightarrow> bool option" where
  "lre_is_cased c = do {
     r \<leftarrow> case_search c;
     case r of
       Some _ \<Rightarrow> Some True
     | None \<Rightarrow> lre_is_in_table c unicode_prop_Cased1_table unicode_prop_Cased1_index
         (int (length unicode_prop_Cased1_index) div 3) }"

section \<open>Well-formedness of the case tables\<close>

text \<open>\<open>look xs i\<close> is \<^term>\<open>rdi xs i\<close>, by recursion on the list.\<close>

fun look :: "'a list \<Rightarrow> int \<Rightarrow> 'a option" where
  "look [] i = None"
| "look (x # xs) i = (if i = 0 then Some x else look xs (i - 1))"

lemma look_rdi: "look xs i = rdi xs i"
proof (induction xs i rule: look.induct)
  case (2 x xs i)
  then show ?case by (cases "i < 0"; cases "i = 0") (auto simp: rdi_def rd_def nth_Cons' nat_diff_distrib)
qed (simp add: rdi_def rd_def)

text \<open>What the table promises for the entry \<open>v\<close> with second part \<open>t2\<close>: every index it leads to lies inside the
  tables, and every conversion it describes changes the character.\<close>

definition outside :: "int \<Rightarrow> int \<Rightarrow> bool" where
  "outside v x \<longleftrightarrow> \<not> (run_code v \<le> x \<and> x < run_code v + run_len v)"

definition entry_wf :: "int \<Rightarrow> int \<Rightarrow> int \<Rightarrow> bool" where
  "entry_wf idx v t2 =
     (let type = run_type v; data = run_data v t2; code = run_code v in
      0 \<le> v \<and> 0 \<le> data \<and> data < 2 ^ 12 \<and> code + run_len v < 2 ^ 20 \<and> type \<le> 13 \<and>
      (if type \<le> 3 then data < 370 \<and> data \<noteq> idx
       else if type = RUN_TYPE_UL then run_len v AND 1 = 0
       else if type = RUN_TYPE_LSU then run_len v = 3
       else if type = RUN_TYPE_U2L_399_EXT2 then drop_bit 6 data < 58 \<and>
         (case look case_conv_ext (data AND 0x3f) of None \<Rightarrow> False | Some e \<Rightarrow> e \<noteq> code)
       else if type = RUN_TYPE_UF_D20 then outside v data \<and> outside v (data + 0x20)
       else if type = RUN_TYPE_UF_D1_EXT then
         (case look case_conv_ext data of None \<Rightarrow> False | Some e \<Rightarrow> outside v e \<and> outside v (e + 1))
       else if type = RUN_TYPE_U_EXT \<or> type = RUN_TYPE_LF_EXT then
         (case look case_conv_ext data of None \<Rightarrow> False | Some e \<Rightarrow> outside v e)
       else if type = RUN_TYPE_LF_EXT2 \<or> type = RUN_TYPE_UF_EXT2 then drop_bit 6 data < 58 \<and> data AND 0x3f < 58
       else drop_bit 8 data < 58))"

fun entries_wf :: "int \<Rightarrow> int list \<Rightarrow> int list \<Rightarrow> bool" where
  "entries_wf idx [] [] = True"
| "entries_wf idx (v # vs) (t # ts) = (entry_wf idx v t \<and> entries_wf (idx + 1) vs ts)"
| "entries_wf idx _ _ = False"

lemma entries_wf_nth:
  "entries_wf idx vs ts \<Longrightarrow> i < length vs \<Longrightarrow> entry_wf (idx + int i) (vs ! i) (ts ! i)"
proof (induction idx vs ts arbitrary: i rule: entries_wf.induct)
  case (2 idx v vs t ts)
  then show ?case by (cases i) (auto simp: add.assoc)
qed auto

lemma case_runs_sorted: "runs_sorted run_code run_len 0 case_conv_table1"
  by code_simp

lemma case_entries_wf: "entries_wf 0 case_conv_table1 case_conv_table2"
  by code_simp

lemma case_ext_small: "list_all (\<lambda>e. 0 \<le> e \<and> e < 2 ^ 16) case_conv_ext"
  by code_simp

lemma case_table_lengths: "length case_conv_table1 = 370" "length case_conv_table2 = 370" "length case_conv_ext = 58"
  by (simp_all add: case_conv_table1_def case_conv_table2_def case_conv_ext_def)

lemma case_entry_wf: "i < 370 \<Longrightarrow> entry_wf (int i) (case_conv_table1 ! i) (case_conv_table2 ! i)"
  using entries_wf_nth [OF case_entries_wf] case_table_lengths by simp

lemma ext_rd: "0 \<le> i \<Longrightarrow> i < 58 \<Longrightarrow> \<exists>e. rdi case_conv_ext i = Some e \<and> 0 \<le> e \<and> e < 2 ^ 16"
  using case_ext_small case_table_lengths(3) by (auto simp: rdi_def rd_def list_all_length)

lemma table1_rd: "0 \<le> i \<Longrightarrow> i < 370 \<Longrightarrow> rdi case_conv_table1 i = Some (case_conv_table1 ! nat i)"
  using case_table_lengths by (simp add: rdi_def rd_def)

end
