(* ===== verification/CaseConv_Props.thy ===== *)
theory CaseConv_Props
  imports CaseConv
begin

text \<open>
  Which characters a case conversion changes, that no conversion reads outside the tables, and the
  same for case folding.
\<close>

section \<open>Entries\<close>

text \<open>\<open>selected k v c\<close>: the character \<open>c\<close> of the run \<open>v\<close> is changed by the conversion \<open>k\<close> (0 upper, 1 lower, 2
  folding).\<close>

definition run_selects :: "int \<Rightarrow> int \<Rightarrow> bool" where
  "run_selects k type =
     (if k = 0 then type \<in> {0, 2, 4, 5, 6, 7, 8, 9, 11, 13}
      else if k = 1 then type \<in> {1, 3, 4, 5, 6, 10, 12}
      else type \<in> {2, 3, 4, 5, 6, 10, 12, 7, 8, 11, 13})"

definition selected :: "int \<Rightarrow> int \<Rightarrow> int \<Rightarrow> bool" where
  "selected k v c \<longleftrightarrow> run_selects k (run_type v)
     \<and> (run_type v = RUN_TYPE_UL \<longrightarrow> (odd (c - run_code v) \<longleftrightarrow> k = 0))
     \<and> (run_type v = RUN_TYPE_LSU \<longrightarrow> c - run_code v \<noteq> (if k = 0 then 0 else 2))"

definition entry_post :: "int \<Rightarrow> int \<Rightarrow> int \<Rightarrow> int list \<Rightarrow> bool" where
  "entry_post k v c res \<longleftrightarrow> res \<noteq> [] \<and> length res \<le> 3 \<and> (res = [c]) = (\<not> selected k v c) \<and> (\<forall>x \<in> set res. 0 \<le> x \<and> x < 2 ^ 21)"

lemma u32_range: "0 \<le> u32 x" "u32 x < 2 ^ 32"
  by (simp_all add: u32_def)

lemma and_bound: "0 \<le> (x :: int) \<Longrightarrow> 0 \<le> x AND m" "0 \<le> m \<Longrightarrow> x AND m \<le> m"
  by (auto simp: AND_upper2)

lemma xor_one: "0 \<le> (a :: int) \<Longrightarrow> a XOR 1 = (if even a then a + 1 else a - 1)"
  by (simp add: xor_one_eq)

lemma run_type_nonneg: "0 \<le> v \<Longrightarrow> 0 \<le> run_type v"
  by (simp add: run_type_def)

lemma run_code_nonneg: "0 \<le> v \<Longrightarrow> 0 \<le> run_code v"
  by (simp add: run_code_def)

lemma start_distinct:
  assumes "i < 370" "j < 370" "i \<noteq> j"
  shows "run_code (case_conv_table1 ! i) \<noteq> run_code (case_conv_table1 ! j)"
proof -
  have "run_code (case_conv_table1 ! a) < run_code (case_conv_table1 ! b)" if "a < b" "b < 370" for a b
    using runs_sorted_less [OF case_runs_sorted, of a b] runs_sorted_nth [OF case_runs_sorted, of a] that case_table_lengths by simp
  then show ?thesis using assms by (metis less_irrefl linorder_neqE_nat)
qed

definition entry_at :: "nat \<Rightarrow> int \<Rightarrow> int \<Rightarrow> bool" where
  "entry_at i v c \<longleftrightarrow> i < 370 \<and> v = case_conv_table1 ! i \<and> in_run run_code run_len v c"

lemma entry_facts:
  assumes "entry_at i v c"
  obtains t2 where "rdi case_conv_table2 (int i) = Some t2" "entry_wf (int i) v t2" "0 \<le> run_code v" "run_code v \<le> c"
    "c < run_code v + run_len v" "c < 2 ^ 20" "0 \<le> run_type v" "run_type v \<le> 13" "0 \<le> run_data v t2" "i < 370"
proof
  show "rdi case_conv_table2 (int i) = Some (case_conv_table2 ! i)"
    using assms case_table_lengths by (simp add: entry_at_def rdi_def rd_def)
  show wf: "entry_wf (int i) v (case_conv_table2 ! i)" using assms case_entry_wf by (simp add: entry_at_def)
  show "0 \<le> run_code v" "0 \<le> run_type v" "run_type v \<le> 13" "0 \<le> run_data v (case_conv_table2 ! i)"
    using wf by (auto simp: entry_wf_def Let_def run_code_nonneg run_type_nonneg)
  show "run_code v \<le> c" "c < run_code v + run_len v" "i < 370" using assms by (auto simp: entry_at_def in_run_def)
  then show "c < 2 ^ 20" using wf by (auto simp: entry_wf_def Let_def)
qed

lemma run_code_bound: "i < 370 \<Longrightarrow> 0 \<le> run_code (case_conv_table1 ! i) \<and> run_code (case_conv_table1 ! i) < 2 ^ 20"
  using case_entry_wf [of i] runs_sorted_nth [OF case_runs_sorted, of i] case_table_lengths by (auto simp: entry_wf_def Let_def)

lemma entry_table:
  assumes e: "entry_at i v c" and ty: "run_type v \<le> 3" and k: "k \<in> {0, 1, 2}"
  shows "ok (case_conv_entry_with conv1 c k (int i) v) (entry_post k v c)"
proof -
  obtain t2 where t2: "rdi case_conv_table2 (int i) = Some t2" and wf: "entry_wf (int i) v t2"
    and b: "0 \<le> run_code v" "run_code v \<le> c" "c < 2 ^ 20" "0 \<le> run_type v" "0 \<le> run_data v t2" "i < 370"
    using entry_facts [OF e] by metis
  define d where "d = run_data v t2"
  have d: "0 \<le> d" "d < 370" "d \<noteq> int i" using wf ty b by (auto simp: entry_wf_def Let_def d_def)
  define t where "t = case_conv_table1 ! nat d"
  have t: "rdi case_conv_table1 d = Some t" using table1_rd d by (simp add: t_def)
  have "run_code t \<noteq> run_code v" using start_distinct [of "nat d" i] d e by (auto simp: t_def entry_at_def)
  moreover have "0 \<le> run_code t" "run_code t < 2 ^ 20" using run_code_bound [of "nat d"] d by (auto simp: t_def)
  then have u: "u32 (c - run_code v + run_code t) = c - run_code v + run_code t" "0 \<le> c - run_code v + run_code t" "c - run_code v + run_code t < 2 ^ 21"
    using b by (auto intro!: u32_id)
  ultimately have ne: "u32 (c - run_code v + run_code t) \<noteq> c" "0 \<le> u32 (c - run_code v + run_code t)"
    "u32 (c - run_code v + run_code t) < 2 ^ 21" using b by auto
  have "run_type v \<in> {0, 1, 2, 3}" using ty b by auto
  then consider "run_type v = 0" | "run_type v = 1" | "run_type v = 2" | "run_type v = 3" by auto
  then show ?thesis
    using k ne t2 t b
    by cases (auto simp: case_conv_entry_with_def Let_def entry_post_def selected_def run_selects_def d_def [symmetric])
qed

lemma entry_alternating:
  assumes e: "entry_at i v c" and ty: "run_type v = RUN_TYPE_UL \<or> run_type v = RUN_TYPE_LSU" and k: "k \<in> {0, 1, 2}"
  shows "ok (case_conv_entry_with conv1 c k (int i) v) (entry_post k v c)"
proof -
  obtain t2 where t2: "rdi case_conv_table2 (int i) = Some t2" and wf: "entry_wf (int i) v t2"
    and b: "0 \<le> run_code v" "run_code v \<le> c" "c < run_code v + run_len v" "c < 2 ^ 20"
    using entry_facts [OF e] by metis
  have a: "u32 (c - run_code v) = c - run_code v" using b by (intro u32_id) auto
  show ?thesis
  proof (cases "run_type v = RUN_TYPE_UL")
    case True
    define x where "x = u32 (((c - run_code v) XOR 1) + run_code v)"
    have "x \<noteq> c \<and> 0 \<le> x \<and> x < 2 ^ 21"
    proof -
      have "((c - run_code v) XOR 1) + run_code v = (if even (c - run_code v) then c + 1 else c - 1)" using b by (simp add: xor_one)
      moreover have "1 \<le> c" if "odd (c - run_code v)" using that b by (cases "c = run_code v") auto
      ultimately show ?thesis using b by (auto simp: u32_id x_def)
    qed
    moreover have "(c - run_code v) AND 1 = of_bool (odd (c - run_code v))" by (simp add: and_one_eq mod_2_eq_odd)
    ultimately show ?thesis
      using True t2 a k b
      by (auto simp: case_conv_entry_with_def Let_def entry_post_def selected_def run_selects_def simp flip: x_def split: if_splits)
  next
    case False
    then have l: "run_type v = RUN_TYPE_LSU" "run_len v = 3" using ty wf by (auto simp: entry_wf_def Let_def)
    then have "c - run_code v \<in> {0, 1, 2}" using b by auto
    then consider "c = run_code v" | "c = run_code v + 1" | "c = run_code v + 2" by force
    then show ?thesis
      using l t2 a k b
      by cases (auto simp: case_conv_entry_with_def Let_def entry_post_def selected_def run_selects_def u32_id)
  qed
qed

lemma entry_ext:
  assumes e: "entry_at i v c" and ty: "6 \<le> run_type v" "run_type v \<le> 10" and k: "k \<in> {0, 1, 2}"
  shows "ok (case_conv_entry_with conv1 c k (int i) v) (entry_post k v c)"
proof -
  obtain t2 where t2: "rdi case_conv_table2 (int i) = Some t2" and wf: "entry_wf (int i) v t2"
    and b: "0 \<le> run_code v" "run_code v \<le> c" "c < run_code v + run_len v" "c < 2 ^ 20" "0 \<le> run_data v t2"
    using entry_facts [OF e] by metis
  define d where "d = run_data v t2"
  note wf' = wf [unfolded entry_wf_def Let_def look_rdi outside_def, folded d_def]
  have d: "0 \<le> d" using b by (simp add: d_def)
  have rd: "0 \<le> x \<and> x < 2 ^ 16" if "rdi case_conv_ext j = Some x" for j x
    using that ext_rd [of j] case_table_lengths by (auto simp: rdi_def rd_def split: if_splits)
  have u: "u32 (c - run_code v + x) = c - run_code v + x" "u32 x = x" "u32 (x + 1) = x + 1" if "rdi case_conv_ext j = Some x" for j x
    using rd [OF that] b by (auto intro!: u32_id)
  consider "run_type v = 6" | "run_type v = 7" | "run_type v = 8" | "run_type v = 9" | "run_type v = 10" using ty by linarith
  then show ?thesis
  proof cases
    case 1
    then obtain x where x: "rdi case_conv_ext (d AND 0x3f) = Some x" "x \<noteq> run_code v" "drop_bit 6 d < 58"
      using wf' by (auto split: option.splits)
    obtain y where y: "rdi case_conv_ext (drop_bit 6 d) = Some y" using ext_rd [of "drop_bit 6 d"] x d by auto
    show ?thesis using 1 k t2 x y u [OF x(1)] rd [OF x(1)] u(1) [OF y] rd [OF y] b
      by (auto simp: case_conv_entry_with_def Let_def entry_post_def selected_def run_selects_def d_def [symmetric])
  next
    case 2
    have "0 \<le> d" "d < 2 ^ 12" using wf' by auto
    then show ?thesis using 2 k t2 b wf'
      by (auto simp: case_conv_entry_with_def Let_def entry_post_def selected_def run_selects_def d_def [symmetric] u32_id)
  next
    case 3
    then obtain x where x: "rdi case_conv_ext d = Some x" "\<not> (run_code v \<le> x \<and> x < run_code v + run_len v)"
       "\<not> (run_code v \<le> x + 1 \<and> x + 1 < run_code v + run_len v)"
      using wf' by (auto split: option.splits)
    show ?thesis using 3 k t2 x u [OF x(1)] rd [OF x(1)] b
      by (auto simp: case_conv_entry_with_def Let_def entry_post_def selected_def run_selects_def d_def [symmetric])
  next
    case 4
    then obtain x where x: "rdi case_conv_ext d = Some x" "\<not> (run_code v \<le> x \<and> x < run_code v + run_len v)"
      using wf' by (auto split: option.splits)
    show ?thesis using 4 k t2 x rd [OF x(1)] b
      by (auto simp: case_conv_entry_with_def Let_def entry_post_def selected_def run_selects_def d_def [symmetric])
  next
    case 5
    then obtain x where x: "rdi case_conv_ext d = Some x" "\<not> (run_code v \<le> x \<and> x < run_code v + run_len v)"
      using wf' by (auto split: option.splits)
    show ?thesis using 5 k t2 x rd [OF x(1)] b
      by (auto simp: case_conv_entry_with_def Let_def entry_post_def selected_def run_selects_def d_def [symmetric])
  qed
qed

lemma entry_multi:
  assumes e: "entry_at i v c" and ty: "11 \<le> run_type v" and k: "k \<in> {0, 1, 2}"
    and c1: "\<And>x. 0 \<le> x \<Longrightarrow> x < 2 ^ 21 \<Longrightarrow> k = 2 \<Longrightarrow> ok (conv1 x) (\<lambda>y. 0 \<le> y \<and> y < 2 ^ 21)"
  shows "ok (case_conv_entry_with conv1 c k (int i) v) (entry_post k v c)"
proof -
  obtain t2 where t2: "rdi case_conv_table2 (int i) = Some t2" and wf: "entry_wf (int i) v t2"
    and b: "0 \<le> run_code v" "run_code v \<le> c" "c < 2 ^ 20" "run_type v \<le> 13"
    using entry_facts [OF e] by metis
  define d where "d = run_data v t2"
  note wf' = wf [unfolded entry_wf_def Let_def, folded d_def]
  have d: "0 \<le> d" using wf' by auto
  have and15: "d AND 0xf < 58" "drop_bit 4 d AND 0xf < 58"
    using AND_upper2 [of "0xf" d] AND_upper2 [of "0xf" "drop_bit 4 d"] by auto
  have rd: "\<exists>x. rdi case_conv_ext j = Some x \<and> 0 \<le> x \<and> x < 2 ^ 16" if "0 \<le> j" "j < 58" for j using ext_rd [OF that] by force
  have cx: "\<exists>y. conv1 x = Some y \<and> 0 \<le> y \<and> y < 2 ^ 21" if "k = 2" "0 \<le> x" "x < 2 ^ 21" for x
    using c1 [OF that(2,3,1)] by (auto elim!: okE)
  consider "run_type v = 11 \<or> run_type v = 12" | "run_type v = 13" using ty b(4) by linarith
  then show ?thesis
  proof cases
    case 1
    then obtain x y where x: "rdi case_conv_ext (drop_bit 6 d) = Some x" "0 \<le> x \<and> x < 2 ^ 16"
      and y: "rdi case_conv_ext (d AND 0x3f) = Some y" "0 \<le> y \<and> y < 2 ^ 16"
      using rd [of "drop_bit 6 d"] rd [of "d AND 0x3f"] wf' d by auto
    define z where "z = u32 (c - run_code v + x)"
    have z: "0 \<le> z" "z < 2 ^ 21" unfolding z_def using b x by (subst u32_id, auto)+
    have cb: "0 \<le> c" "c < 2 ^ 21" using b by auto
    from 1 show ?thesis using k t2 x y z cx [of z] cx [of y] cb
      by (elim disjE) (auto simp: case_conv_entry_with_def Let_def entry_post_def selected_def run_selects_def d_def [symmetric] z_def [symmetric])
  next
    case 2
    have "drop_bit 8 d < 58" using 2 wf' by auto
    then obtain x y z where x: "rdi case_conv_ext (drop_bit 8 d) = Some x" "0 \<le> x \<and> x < 2 ^ 16"
      and y: "rdi case_conv_ext (drop_bit 4 d AND 0xf) = Some y" "0 \<le> y \<and> y < 2 ^ 16"
      and z: "rdi case_conv_ext (d AND 0xf) = Some z" "0 \<le> z \<and> z < 2 ^ 16"
      using rd [of "drop_bit 8 d"] rd [of "drop_bit 4 d AND 0xf"] rd [of "d AND 0xf"] and15 d by auto
    have cb: "0 \<le> c" "c < 2 ^ 21" using b by auto
    show ?thesis using 2 k t2 x y z cx [of x] cx [of y] cx [of z] cb
      by (auto simp: case_conv_entry_with_def Let_def entry_post_def selected_def run_selects_def d_def [symmetric])
  qed
qed

lemma entry_ok_with:
  assumes e: "entry_at i v c" and k: "k \<in> {0, 1, 2}"
    and c1: "\<And>x. 0 \<le> x \<Longrightarrow> x < 2 ^ 21 \<Longrightarrow> k = 2 \<Longrightarrow> ok (conv1 x) (\<lambda>y. 0 \<le> y \<and> y < 2 ^ 21)"
  shows "ok (case_conv_entry_with conv1 c k (int i) v) (entry_post k v c)"
proof -
  consider "run_type v \<le> 3" | "run_type v = RUN_TYPE_UL \<or> run_type v = RUN_TYPE_LSU" | "6 \<le> run_type v" "run_type v \<le> 10" | "11 \<le> run_type v"
    by linarith
  then show ?thesis
  proof cases
    case 1
    then show ?thesis by (rule entry_table [OF e _ k])
  next
    case 2
    then show ?thesis by (rule entry_alternating [OF e _ k])
  next
    case 3
    then show ?thesis by (rule entry_ext [OF e _ _ k])
  next
    case 4
    then show ?thesis by (rule entry_multi [OF e _ k c1])
  qed
qed

section \<open>Conversions\<close>

text \<open>The runs as a set: \<open>case_changed k\<close> are the characters that the conversion \<open>k\<close> changes according to the table.\<close>

definition case_changed :: "int \<Rightarrow> int set" where
  "case_changed k = {c. \<exists>i v. entry_at i v c \<and> selected k v c}"

lemma case_search_cases:
  "(\<exists>i v. entry_at i v c \<and> case_search c = Some (Some (int i, v))) \<or> (\<forall>i v. \<not> entry_at i v c) \<and> case_search c = Some None"
  using run_search_ok [OF case_runs_sorted, of 0 "int (length case_conv_table1) - 1" c] case_table_lengths
  by (auto simp: entry_at_def)

lemma entry_at_unique:
  assumes "entry_at i v c" "entry_at j w c"
  shows "i = j \<and> v = w"
proof -
  have "\<not> a < b" if "entry_at a x c" "entry_at b y c" for a b x y
    using runs_sorted_less [OF case_runs_sorted, of a b] that case_table_lengths by (auto simp: entry_at_def in_run_def)
  then have "\<not> i < j" "\<not> j < i" using assms by blast+
  then show ?thesis using assms by (simp add: entry_at_def)
qed

lemma case_changed_iff: "entry_at i v c \<Longrightarrow> c \<in> case_changed k \<longleftrightarrow> selected k v c"
  using entry_at_unique unfolding case_changed_def by blast

lemma ascii_runs: "entry_at 0 (case_conv_table1 ! 0) c \<longleftrightarrow> 0x41 \<le> c \<and> c < 0x5b" "entry_at 1 (case_conv_table1 ! 1) c \<longleftrightarrow> 0x61 \<le> c \<and> c < 0x7b"
  "run_type (case_conv_table1 ! 0) = RUN_TYPE_LF" "run_type (case_conv_table1 ! 1) = RUN_TYPE_U" "128 \<le> run_code (case_conv_table1 ! 2)"
  by (auto simp: entry_at_def in_run_def case_conv_table1_def run_code_def run_len_def run_type_def)

lemma ascii_entry:
  assumes "entry_at i v c" "c < 128"
  shows "i = 0 \<and> 0x41 \<le> c \<and> c < 0x5b \<or> i = 1 \<and> 0x61 \<le> c \<and> c < 0x7b"
proof -
  have "128 \<le> run_code v" if "2 \<le> i"
  proof (cases "i = 2")
    case True
    then show ?thesis using assms(1) ascii_runs(5) by (simp add: entry_at_def)
  next
    case False
    then have "run_code (case_conv_table1 ! 2) + run_len (case_conv_table1 ! 2) \<le> run_code v"
      using runs_sorted_less [OF case_runs_sorted, of 2 i] that assms(1) case_table_lengths by (auto simp: entry_at_def)
    then show ?thesis using ascii_runs(5) runs_sorted_nth [OF case_runs_sorted, of 2] case_table_lengths by simp
  qed
  then have "i < 2" using assms by (force simp: entry_at_def in_run_def)
  then have "i = 0 \<or> i = 1" by linarith
  moreover have "v = case_conv_table1 ! i" using assms(1) by (simp add: entry_at_def)
  ultimately show ?thesis using assms(1) ascii_runs(1,2) by auto
qed

lemma ascii_changed:
  assumes "c < 128" "k \<in> {0, 1, 2}"
  shows "c \<in> case_changed k \<longleftrightarrow> (if k = 0 then 0x61 \<le> c \<and> c < 0x7b else 0x41 \<le> c \<and> c < 0x5b)"
proof -
  have sel: "selected k (case_conv_table1 ! 0) c \<longleftrightarrow> k \<noteq> 0" "selected k (case_conv_table1 ! 1) c \<longleftrightarrow> k = 0"
    using assms(2) ascii_runs(3,4) by (auto simp: selected_def run_selects_def)
  show ?thesis
  proof (cases "0x41 \<le> c \<and> c < 0x5b \<or> 0x61 \<le> c \<and> c < 0x7b")
    case True
    then show ?thesis using case_changed_iff [of 0 _ c k] case_changed_iff [of 1 _ c k] ascii_runs(1,2) sel by auto
  next
    case False
    then have "c \<notin> case_changed k" using ascii_entry [OF _ assms(1)] by (auto simp: case_changed_def)
    then show ?thesis using False by auto
  qed
qed

lemma case_conv_with_ok:
  assumes "0 \<le> c" "c < 2 ^ 32" "k \<in> {0, 1, 2}"
    and "\<And>x. 0 \<le> x \<Longrightarrow> x < 2 ^ 21 \<Longrightarrow> k = 2 \<Longrightarrow> ok (conv1 x) (\<lambda>y. 0 \<le> y \<and> y < 2 ^ 21)"
  shows "ok (case_conv_with conv1 c k) (\<lambda>res. res \<noteq> [] \<and> length res \<le> 3 \<and> (res = [c]) = (c \<notin> case_changed k)
    \<and> (\<forall>x \<in> set res. 0 \<le> x \<and> (x < 2 ^ 21 \<or> x = c)))"
proof (cases "c < 128")
  case True
  then show ?thesis using ascii_changed [OF True assms(3)] assms(1) by (auto simp: case_conv_with_def)
next
  case False
  from case_search_cases [of c] show ?thesis
  proof (elim disjE exE conjE)
    fix i v
    assume e: "entry_at i v c" "case_search c = Some (Some (int i, v))"
    have "ok (case_conv_entry_with conv1 c k (int i) v) (entry_post k v c)" by (rule entry_ok_with [OF e(1) assms(3,4)])
    then show ?thesis using False e(2) case_changed_iff [OF e(1), of k] by (auto simp: case_conv_with_def entry_post_def elim!: ok_mono)
  next
    assume "\<forall>i v. \<not> entry_at i v c" "case_search c = Some None"
    then show ?thesis using False assms by (auto simp: case_conv_with_def case_changed_def)
  qed
qed

lemma lre_case_conv1_ok: "0 \<le> c \<Longrightarrow> c < 2 ^ 21 \<Longrightarrow> ok (lre_case_conv1 c) (\<lambda>y. 0 \<le> y \<and> y < 2 ^ 21)"
proof -
  assume c: "0 \<le> c" "c < 2 ^ 21"
  then obtain res where "case_conv_with (\<lambda>_. None) c 1 = Some res" "res \<noteq> []" "\<forall>x \<in> set res. 0 \<le> x \<and> x < 2 ^ 21"
    using case_conv_with_ok [of c 1 "\<lambda>_. None"] by (auto elim!: okE)
  then show ?thesis by (cases res) (auto simp: lre_case_conv1_def)
qed

lemma lre_case_conv_ok:
  assumes "0 \<le> c" "c < 2 ^ 32" "k \<in> {0, 1, 2}"
  shows "ok (lre_case_conv c k) (\<lambda>res. res \<noteq> [] \<and> length res \<le> 3 \<and> (res = [c]) = (c \<notin> case_changed k)
    \<and> (\<forall>x \<in> set res. 0 \<le> x \<and> (x < 2 ^ 21 \<or> x = c)))"
  unfolding lre_case_conv_def by (rule case_conv_with_ok [OF assms lre_case_conv1_ok])

lemma lre_entry_ok:
  assumes "entry_at i v c" "k \<in> {0, 1, 2}"
  shows "ok (lre_case_conv_entry c k (int i) v) (entry_post k v c)"
  unfolding lre_case_conv_entry_def by (rule entry_ok_with [OF assms lre_case_conv1_ok])

section \<open>Folding\<close>

abbreviation fold_kind :: "bool \<Rightarrow> int" where
  "fold_kind u \<equiv> (if u then 2 else 0)"

lemma folding_entry_ok:
  assumes e: "entry_at i v c"
  shows "ok (lre_case_folding_entry c (int i) v u) (\<lambda>d. 0 \<le> d \<and> d < 2 ^ 21 \<and> (\<not> selected (fold_kind u) v c \<longrightarrow> 128 \<le> c \<longrightarrow> d = c))"
proof -
  have c: "0 \<le> c" "c < 2 ^ 21" using entry_facts [OF e] by (metis order_trans, fastforce)
  obtain res where r: "lre_case_conv_entry c (fold_kind u) (int i) v = Some res" "entry_post (fold_kind u) v c res"
    using lre_entry_ok [OF e, of "fold_kind u"] by (cases u) (auto elim!: okE)
  then show ?thesis using c
    by (cases u) (auto simp: lre_case_folding_entry_def entry_post_def split: list.splits)
qed

text \<open>Folding through the table agrees with the fast path for ASCII.\<close>

lemma folding_entry_ascii:
  assumes "entry_at i v c" "c < 128" "selected (fold_kind u) v c"
  shows "lre_case_folding_entry c (int i) v u = lre_canonicalize c u"
proof (cases u)
  case False
  then show ?thesis using assms(2) by (simp add: lre_case_folding_entry_def lre_canonicalize_def)
next
  case True
  have i: "i = 0" "0x41 \<le> c" "c < 0x5b"
    using ascii_entry [OF assms(1,2)] assms(3) assms(1) ascii_runs(4) True by (auto simp: selected_def run_selects_def entry_at_def)
  then have v: "v = case_conv_table1 ! 0" using assms(1) by (simp add: entry_at_def)
  have "case_conv_table2 ! 0 = 1" by (simp add: case_conv_table2_def)
  moreover have "case_conv_table1 ! 0 AND 0xf = 0" "run_code (case_conv_table1 ! 0) = 0x41" "run_code (case_conv_table1 ! 1) = 0x61"
    by (simp_all add: case_conv_table1_def run_code_def)
  ultimately have "lre_case_conv_entry c 2 (int i) v = Some [u32 (c - 0x41 + 0x61)]"
    using i v ascii_runs(3) table1_rd [of 1] case_table_lengths
    by (simp add: lre_case_conv_entry_def case_conv_entry_with_def Let_def rdi_def rd_def run_data_def)
  then show ?thesis using True assms(2) i by (simp add: lre_case_folding_entry_def lre_canonicalize_def u32_id)
qed

lemma canonicalize_entry:
  assumes "entry_at i v c" "selected (fold_kind u) v c"
  shows "lre_canonicalize c u = lre_case_folding_entry c (int i) v u"
proof (cases "c < 128")
  case True
  then show ?thesis using folding_entry_ascii assms by simp
next
  case False
  have "case_search c = Some (Some (int i, v))"
    using case_search_cases [of c] assms(1) entry_at_unique by blast
  then show ?thesis using False by (simp add: lre_canonicalize_def)
qed

lemma canonicalize_unchanged:
  assumes "0 \<le> c" "c \<notin> case_changed (fold_kind u)"
  shows "lre_canonicalize c u = Some c"
proof (cases "c < 128")
  case True
  then show ?thesis using ascii_changed [OF True, of "fold_kind u"] assms(2) by (auto simp: lre_canonicalize_def split: if_splits)
next
  case False
  from case_search_cases [of c] show ?thesis
  proof (elim disjE exE conjE)
    fix i v
    assume e: "entry_at i v c" "case_search c = Some (Some (int i, v))"
    then have "\<not> selected (fold_kind u) v c" using case_changed_iff assms(2) by blast
    then show ?thesis using folding_entry_ok [OF e(1), of u] e(2) False by (auto simp: lre_canonicalize_def elim!: okE)
  qed (use False in \<open>simp add: lre_canonicalize_def\<close>)
qed

lemma lre_canonicalize_ok:
  assumes "0 \<le> c" "c < 2 ^ 32"
  shows "ok (lre_canonicalize c u) (\<lambda>d. 0 \<le> d \<and> d < 2 ^ 32)"
proof (cases "c \<in> case_changed (fold_kind u)")
  case True
  then obtain i v where e: "entry_at i v c" "selected (fold_kind u) v c" by (auto simp: case_changed_def)
  then show ?thesis using folding_entry_ok [OF e(1), of u] canonicalize_entry [OF e] by (auto elim!: ok_mono)
qed (use canonicalize_unchanged assms in auto)

section \<open>Claims\<close>

text \<open>C31. Case conversion of any 32-bit value, to upper case, lower case or by folding, and canonicalization in both
  modes never read outside the tables and always return: a conversion gives one to three values, which
  fit the result array, a canonical form is one value, and all of them are 32-bit values.\<close>

theorem case_conversion_total:
  assumes "0 \<le> c" "c < 2 ^ 32" "k \<in> {0, 1, 2}"
  shows "(\<exists>res. lre_case_conv c k = Some res \<and> 1 \<le> length res \<and> length res \<le> 3 \<and> (\<forall>x \<in> set res. 0 \<le> x \<and> x < 2 ^ 32))
    \<and> (\<exists>d. lre_canonicalize c u = Some d \<and> 0 \<le> d \<and> d < 2 ^ 32)"
proof
  obtain res where r: "lre_case_conv c k = Some res" "res \<noteq> []" "length res \<le> 3" "\<forall>x \<in> set res. 0 \<le> x \<and> (x < 2 ^ 21 \<or> x = c)"
    using lre_case_conv_ok [OF assms] by (auto elim!: okE)
  then have "1 \<le> length res" by (cases res) auto
  then show "\<exists>res. lre_case_conv c k = Some res \<and> 1 \<le> length res \<and> length res \<le> 3 \<and> (\<forall>x \<in> set res. 0 \<le> x \<and> x < 2 ^ 32)"
    using r assms(2) by fastforce
  show "\<exists>d. lre_canonicalize c u = Some d \<and> 0 \<le> d \<and> d < 2 ^ 32"
    using lre_canonicalize_ok [OF assms(1,2), of u] by (auto elim!: okE)
qed

theorem case_conversion_total_witness:
  "\<exists>res. lre_case_conv 0xdf 0 = Some res \<and> 1 \<le> length res \<and> length res \<le> 3"
  using case_conversion_total [of "0xdf" 0 True] by auto

end
