(* ===== verification/CharBuild.thy ===== *)
theory CharBuild
  imports CharRange_Sets CaseConv_Props
begin

text \<open>
  Construction of character ranges from the Unicode tables in \<open>src/native/quickjs/libunicode.c\<close>:
  \<open>unicode_prop1\<close>, \<open>unicode_general_category1\<close> and \<open>unicode_case1\<close>.  Each walks through a table and
  appends intervals with \<open>cr_add_interval\<close>; the lemmas say which set of code points results, and that
  a failed allocation is reported.
\<close>

section \<open>Operations\<close>

type_synonym 'm cr_result = "('m \<times> CharRange \<times> int) option"

abbreviation w32 :: "int \<Rightarrow> u32" where
  "w32 \<equiv> word_of_int"

text \<open>\<open>if (bit) { if (cr_add_interval(cr, c0, c)) return -1; }\<close>, followed by the rest \<open>k\<close>.\<close>

definition add_then :: "'m cr_realloc_f \<Rightarrow> bool \<Rightarrow> 'm \<Rightarrow> CharRange \<Rightarrow> int \<Rightarrow> int \<Rightarrow> ('m \<Rightarrow> CharRange \<Rightarrow> 'm cr_result) \<Rightarrow> 'm cr_result" where
  "add_then ra inb m cr c0 c k =
     (if inb then do {
        (m', cr', r) \<leftarrow> cr_add_interval ra m cr (w32 c0) (w32 c);
        if r \<noteq> 0 then Some (m', cr', -1) else k m' cr' }
      else k m cr)"

text \<open>The loop of \<open>unicode_prop1\<close>, from the byte it has reached.\<close>

fun prop1_loop :: "'m cr_realloc_f \<Rightarrow> int list \<Rightarrow> int \<Rightarrow> bool \<Rightarrow> 'm \<Rightarrow> CharRange \<Rightarrow> 'm cr_result" where
  "prop1_loop ra [] c inb m cr = Some (m, cr, 0)"
| "prop1_loop ra (b # p) c inb m cr =
     (if b < 64 then
        (let c1 = u32 (c + drop_bit 3 b + 1); c2 = u32 (c1 + (b AND 7) + 1) in
         add_then ra inb m cr c c1 (\<lambda>m cr. add_then ra (\<not> inb) m cr c1 c2 (prop1_loop ra p c2 inb)))
      else if b \<ge> 0x80 then
        (let c1 = u32 (c + b - 0x80 + 1) in add_then ra inb m cr c c1 (prop1_loop ra p c1 (\<not> inb)))
      else if b < 0x60 then
        (case p of
           [] \<Rightarrow> None
         | b0 # p' \<Rightarrow> let c1 = u32 (c + (push_bit 8 (b - 0x40) OR b0) + 1) in
             add_then ra inb m cr c c1 (prop1_loop ra p' c1 (\<not> inb)))
      else
        (case p of
           b0 # b1 # p' \<Rightarrow> let c1 = u32 (c + (push_bit 16 (b - 0x60) OR push_bit 8 b0 OR b1) + 1) in
             add_then ra inb m cr c c1 (prop1_loop ra p' c1 (\<not> inb))
         | _ \<Rightarrow> None))"

text \<open>\<open>table\<close> stands for \<open>unicode_prop_table[prop_idx]\<close>.\<close>

definition unicode_prop1 :: "'m cr_realloc_f \<Rightarrow> int list \<Rightarrow> 'm \<Rightarrow> CharRange \<Rightarrow> 'm cr_result" where
  "unicode_prop1 ra table m cr = prop1_loop ra table 0 False m cr"

text \<open>The length of a run of the category table and the rest of the bytes.\<close>

fun gc_count :: "int \<Rightarrow> int list \<Rightarrow> (int \<times> int list) option" where
  "gc_count n p =
     (if n = 7 then
        (case p of
           [] \<Rightarrow> None
         | n # p1 \<Rightarrow>
             if n < 128 then Some (n + 7, p1)
             else if n < 128 + 64 then
               (case p1 of [] \<Rightarrow> None | b0 # p2 \<Rightarrow> Some ((push_bit 8 (n - 128) OR b0) + 7 + 128, p2))
             else
               (case p1 of
                  b0 # b1 # p2 \<Rightarrow> Some ((push_bit 16 (n - 128 - 64) OR push_bit 8 b0 OR b1) + 7 + 128 + 2 ^ 14, p2)
                | _ \<Rightarrow> None))
      else Some (n, p))"

lemma gc_count_shorter: "gc_count n p = Some (r, q) \<Longrightarrow> length q \<le> length p"
  by (auto split: if_splits list.splits)

declare gc_count.simps [simp del]

definition has_bit :: "int \<Rightarrow> int \<Rightarrow> bool" where
  "has_bit x n \<longleftrightarrow> drop_bit (nat n) x AND 1 \<noteq> 0"

abbreviation (input) "UNICODE_GC_Lu \<equiv> 1 :: int"
abbreviation (input) "UNICODE_GC_Ll \<equiv> 2 :: int"

text \<open>\<open>for(; c0 < c; c0 += 2) if (cr_add_interval(cr, c0, c0 + 1)) return -1;\<close>\<close>

function add_alternate :: "'m cr_realloc_f \<Rightarrow> int \<Rightarrow> int \<Rightarrow> 'm \<Rightarrow> CharRange \<Rightarrow> ('m \<Rightarrow> CharRange \<Rightarrow> 'm cr_result) \<Rightarrow> 'm cr_result" where
  "add_alternate ra c0 c m cr k =
     (if c0 < c then
        (case cr_add_interval ra m cr (w32 c0) (w32 (c0 + 1)) of
           None \<Rightarrow> None
         | Some (m', cr', r) \<Rightarrow> if r \<noteq> 0 then Some (m', cr', -1) else add_alternate ra (c0 + 2) c m' cr' k)
      else k m cr)"
  by pat_completeness auto
termination by (relation "measure (\<lambda>(ra, c0, c, _). nat (c - c0))") auto

declare add_alternate.simps [simp del]

function (sequential) gc1_loop :: "'m cr_realloc_f \<Rightarrow> int \<Rightarrow> int list \<Rightarrow> int \<Rightarrow> 'm \<Rightarrow> CharRange \<Rightarrow> 'm cr_result" where
  "gc1_loop ra gc_mask [] c m cr = Some (m, cr, 0)"
| "gc1_loop ra gc_mask (b # p) c m cr = (case gc_count (drop_bit 5 b) p of
       None \<Rightarrow> None
     | Some (n, q) \<Rightarrow>
         let v = b AND 0x1f; c0 = c; c = u32 (c + n + 1); lu = has_bit gc_mask UNICODE_GC_Lu; ll = has_bit gc_mask UNICODE_GC_Ll in
         if v = 31 then
           (if lu \<or> ll then
              (if lu \<and> ll then add_then ra True m cr c0 c (gc1_loop ra gc_mask q c)
               else add_alternate ra (c0 + (if ll then 1 else 0)) c m cr (gc1_loop ra gc_mask q c))
            else gc1_loop ra gc_mask q c m cr)
         else add_then ra (has_bit gc_mask v) m cr c0 c (gc1_loop ra gc_mask q c))"
  by pat_completeness auto
termination by (relation "measure (\<lambda>(ra, g, p, _). length p)") (auto dest: gc_count_shorter)

definition unicode_general_category1 :: "'m cr_realloc_f \<Rightarrow> int list \<Rightarrow> int \<Rightarrow> 'm \<Rightarrow> CharRange \<Rightarrow> 'm cr_result" where
  "unicode_general_category1 ra table gc_mask m cr = gc1_loop ra gc_mask table 0 m cr"

abbreviation (input) "CASE_U \<equiv> 1 :: int"
abbreviation (input) "CASE_L \<equiv> 2 :: int"
abbreviation (input) "CASE_F \<equiv> 4 :: int"

abbreviation MR :: "int \<Rightarrow> int" where
  "MR t \<equiv> push_bit (nat t) 1"

definition tab_run_mask :: "int list" where
  "tab_run_mask = [
     MR RUN_TYPE_U OR MR RUN_TYPE_UF OR MR RUN_TYPE_UL OR MR RUN_TYPE_LSU OR MR RUN_TYPE_U2L_399_EXT2 OR MR RUN_TYPE_UF_D20 OR
     MR RUN_TYPE_UF_D1_EXT OR MR RUN_TYPE_U_EXT OR MR RUN_TYPE_UF_EXT2 OR MR RUN_TYPE_UF_EXT3,
     MR RUN_TYPE_L OR MR RUN_TYPE_LF OR MR RUN_TYPE_UL OR MR RUN_TYPE_LSU OR MR RUN_TYPE_U2L_399_EXT2 OR MR RUN_TYPE_LF_EXT OR
     MR RUN_TYPE_LF_EXT2,
     MR RUN_TYPE_UF OR MR RUN_TYPE_LF OR MR RUN_TYPE_UL OR MR RUN_TYPE_LSU OR MR RUN_TYPE_U2L_399_EXT2 OR MR RUN_TYPE_LF_EXT OR
     MR RUN_TYPE_LF_EXT2 OR MR RUN_TYPE_UF_D20 OR MR RUN_TYPE_UF_D1_EXT OR MR RUN_TYPE_LF_EXT OR MR RUN_TYPE_UF_EXT2 OR
     MR RUN_TYPE_UF_EXT3]"

definition case_run_mask :: "int \<Rightarrow> int" where
  "case_run_mask case_mask =
     (if has_bit case_mask 0 then tab_run_mask ! 0 else 0) OR (if has_bit case_mask 1 then tab_run_mask ! 1 else 0)
     OR (if has_bit case_mask 2 then tab_run_mask ! 2 else 0)"

fun case1_loop :: "'m cr_realloc_f \<Rightarrow> int \<Rightarrow> int \<Rightarrow> int list \<Rightarrow> 'm \<Rightarrow> CharRange \<Rightarrow> 'm cr_result" where
  "case1_loop ra case_mask run_mask [] m cr = Some (m, cr, 0)"
| "case1_loop ra case_mask run_mask (v # vs) m cr =
     (let type = run_type v; code = run_code v; len = run_len v; rest = case1_loop ra case_mask run_mask vs;
          cu = case_mask AND CASE_U \<noteq> 0; both = (cu \<and> case_mask AND (CASE_L OR CASE_F) \<noteq> 0) in
      if has_bit run_mask type then
        (if type = RUN_TYPE_UL \<and> \<not> both then
           (let code = code + (if cu then 1 else 0) in add_alternate ra code (code + len) m cr rest)
         else if type = RUN_TYPE_LSU \<and> \<not> both then
           add_then ra (\<not> cu) m cr code (code + 1) (\<lambda>m cr.
             add_then ra True m cr (code + 1) (code + 2) (\<lambda>m cr. add_then ra cu m cr (code + 2) (code + 3) rest))
         else add_then ra True m cr code (code + len) rest)
      else rest m cr)"

definition unicode_case1 :: "'m cr_realloc_f \<Rightarrow> int \<Rightarrow> 'm \<Rightarrow> CharRange \<Rightarrow> 'm cr_result" where
  "unicode_case1 ra case_mask m cr =
     (if case_mask = 0 then Some (m, cr, 0)
      else case1_loop ra case_mask (case_run_mask case_mask) case_conv_table1 m cr)"

section \<open>Sequences of intervals\<close>

text \<open>Appending a list of intervals, one call of \<open>cr_add_interval\<close> each, up to the first failure.\<close>

fun add_all :: "'m cr_realloc_f \<Rightarrow> (int \<times> int) list \<Rightarrow> 'm \<Rightarrow> CharRange \<Rightarrow> ('m \<Rightarrow> CharRange \<Rightarrow> 'm cr_result) \<Rightarrow> 'm cr_result" where
  "add_all ra [] m cr k = k m cr"
| "add_all ra ((a, b) # ivs) m cr k = add_then ra True m cr a b (\<lambda>m cr. add_all ra ivs m cr k)"

lemma add_all_append: "add_all ra (xs @ ys) m cr k = add_all ra xs m cr (\<lambda>m cr. add_all ra ys m cr k)"
  by (induction xs arbitrary: m cr) (auto simp: add_then_def)

lemma add_all_cond:
  "add_all ra ((if inb then [(a, b)] else []) @ ys) m cr k = add_then ra inb m cr a b (\<lambda>m cr. add_all ra ys m cr k)"
  by (simp add: add_then_def)

function alternate :: "int \<Rightarrow> int \<Rightarrow> (int \<times> int) list" where
  "alternate c0 c = (if c0 < c then (c0, c0 + 1) # alternate (c0 + 2) c else [])"
  by pat_completeness auto
termination by (relation "measure (\<lambda>(c0, c). nat (c - c0))") auto

declare alternate.simps [simp del]

lemma add_alternate_all: "add_alternate ra c0 c m cr k = add_all ra (alternate c0 c) m cr k"
proof (induction ra c0 c m cr k rule: add_alternate.induct)
  case (1 ra c0 c m cr k)
  show ?case
    by (subst add_alternate.simps, subst alternate.simps)
      (auto simp: add_then_def 1 split: option.split bind_splits)
qed

text \<open>The code points of a list of intervals in increasing order.\<close>

definition ivs_set :: "(int \<times> int) list \<Rightarrow> int set" where
  "ivs_set ivs = {c. \<exists>(a, b) \<in> set ivs. a \<le> c \<and> c < b}"

fun ivs_sorted :: "int \<Rightarrow> (int \<times> int) list \<Rightarrow> int \<Rightarrow> bool" where
  "ivs_sorted lo [] hi = (lo \<le> hi)"
| "ivs_sorted lo ((a, b) # ivs) hi = (lo \<le> a \<and> a < b \<and> ivs_sorted b ivs hi)"

lemma ivs_set_simps [simp]: "ivs_set [] = {}" "ivs_set ((a, b) # ivs) = {a..<b} \<union> ivs_set ivs"
  "ivs_set (xs @ ys) = ivs_set xs \<union> ivs_set ys"
  by (auto simp: ivs_set_def)

lemma ivs_sorted_le: "ivs_sorted lo ivs hi \<Longrightarrow> lo \<le> hi"
  by (induction lo ivs hi rule: ivs_sorted.induct) auto

lemma ivs_sorted_append: "ivs_sorted lo xs mid \<Longrightarrow> ivs_sorted mid ys hi \<Longrightarrow> ivs_sorted lo (xs @ ys) hi"
proof (induction lo xs mid rule: ivs_sorted.induct)
  case (1 lo mid)
  then show ?case by (cases ys) auto
qed auto

lemma ivs_sorted_bounds: "ivs_sorted lo ivs hi \<Longrightarrow> c \<in> ivs_set ivs \<Longrightarrow> lo \<le> c \<and> c < hi"
proof (induction lo ivs hi rule: ivs_sorted.induct)
  case (2 lo a b ivs hi)
  then show ?case using ivs_sorted_le [of b ivs hi] by auto
qed simp

lemma ivs_sorted_weaken: "ivs_sorted lo ivs hi \<Longrightarrow> lo' \<le> lo \<Longrightarrow> hi \<le> hi' \<Longrightarrow> ivs_sorted lo' ivs hi'"
  by (induction lo ivs hi arbitrary: lo' rule: ivs_sorted.induct) auto

definition w_ivs :: "(int \<times> int) list \<Rightarrow> u32 list" where
  "w_ivs ivs = flatten (map (\<lambda>(a, b). (w32 a, w32 b)) ivs)"

lemma w_ivs_simps [simp]: "w_ivs [] = []" "w_ivs ((a, b) # ivs) = w32 a # w32 b # w_ivs ivs" "w_ivs (xs @ ys) = w_ivs xs @ w_ivs ys"
  by (simp_all add: w_ivs_def flatten_def)

lemma length_w_ivs: "length (w_ivs ivs) = 2 * length ivs"
  by (induction ivs) auto

lemma uint_w32: "0 \<le> a \<Longrightarrow> a < 2 ^ 32 \<Longrightarrow> uint (w32 a) = a"
  by (simp add: uint_word_of_int_eq take_bit_int_eq_self)

lemma w_ivs_lower: "ivs_sorted lo ivs hi \<Longrightarrow> 0 \<le> lo \<Longrightarrow> hi < 2 ^ 32 \<Longrightarrow> x \<in> set (w_ivs ivs) \<Longrightarrow> lo \<le> uint x"
proof (induction lo ivs hi rule: ivs_sorted.induct)
  case (2 lo a b ivs hi)
  then have "uint (w32 a) = a" "uint (w32 b) = b" using ivs_sorted_le [of b ivs hi] by (auto intro!: uint_w32)
  then show ?case using 2 by auto
qed simp

lemma w_ivs_sorted: "ivs_sorted lo ivs hi \<Longrightarrow> 0 \<le> lo \<Longrightarrow> hi < 2 ^ 32 \<Longrightarrow> sorted (w_ivs ivs)"
proof (induction lo ivs hi rule: ivs_sorted.induct)
  case (2 lo a b ivs hi)
  then have "uint (w32 a) = a" "uint (w32 b) = b" using ivs_sorted_le [of b ivs hi] by (auto intro!: uint_w32)
  moreover have "w32 b \<le> x" if "x \<in> set (w_ivs ivs)" for x
    using w_ivs_lower [of b ivs hi x] that calculation 2 by (simp add: word_le_def)
  ultimately show ?case using 2 by (force simp: word_le_def)
qed simp

lemma w_ivs_set:
  "ivs_sorted lo ivs hi \<Longrightarrow> 0 \<le> lo \<Longrightarrow> hi < 2 ^ 32 \<Longrightarrow> c \<in> cr_set (w_ivs ivs) \<longleftrightarrow> uint c \<in> ivs_set ivs"
proof (induction lo ivs hi rule: ivs_sorted.induct)
  case (2 lo a b ivs hi)
  then have u: "uint (w32 a) = a" "uint (w32 b) = b" using ivs_sorted_le [of b ivs hi] by (auto intro!: uint_w32)
  have "cnt c (w_ivs ivs) = 0" if "uint c < b"
    using that w_ivs_lower [of b ivs hi] 2 by (fastforce simp: cnt_def filter_empty_conv word_le_def)
  moreover have "uint c \<notin> ivs_set ivs" if "uint c < b"
    using that 2(2) ivs_sorted_bounds [of b ivs hi "uint c"] by auto
  ultimately show ?case using 2 u by (auto simp: cr_set_def word_le_def)
qed (simp add: cr_set_def)

context cr_alloc
begin

lemma add_all_ok:
  assumes "cr_wf cr" "cr_len cr + 2 * length ivs \<le> 2 ^ 28"
  shows "ok (add_all ra ivs m cr (\<lambda>m cr. Some (m, cr, 0))) (\<lambda>(m', cr', r). cr_wf cr' \<and>
    (r = 0 \<and> cr_pts cr' = cr_pts cr @ w_ivs ivs \<or> r = -1))"
  using assms
proof (induction ivs arbitrary: m cr)
  case (Cons iv ivs)
  obtain a b where iv: "iv = (a, b)" by (cases iv)
  obtain m1 cr1 r where g: "cr_add_interval ra m cr (w32 a) (w32 b) = Some (m1, cr1, r)"
    and p: "cr_post cr (cr_pts cr @ [w32 a, w32 b]) (m1, cr1, r)"
    using cr_add_interval_ok [OF Cons.prems(1), of m "w32 a" "w32 b"] Cons.prems(2) by (auto elim!: okE)
  show ?case
  proof (cases "r = 0")
    case True
    then have c1: "cr_wf cr1" "cr_pts cr1 = cr_pts cr @ [w32 a, w32 b]" using p by (auto simp: cr_post_def)
    then have "cr_len cr1 = cr_len cr + 2" using length_cr_pts [OF c1(1)] length_cr_pts [OF Cons.prems(1)] by simp
    then show ?thesis using Cons.IH [OF c1(1), of m1] Cons.prems(2) g True c1(2) iv by (simp add: add_then_def)
  next
    case False
    then show ?thesis using g p iv by (auto simp: add_then_def cr_post_def)
  qed
qed simp

end

lemma add_all_granted:
  "never_refuses ra \<Longrightarrow> add_all ra ivs m cr (\<lambda>m cr. Some (m, cr, 0)) = Some (m', cr', r) \<Longrightarrow> r = 0"
proof (induction ivs arbitrary: m cr)
  case (Cons iv ivs)
  obtain a b where iv: "iv = (a, b)" by (cases iv)
  then show ?case using Cons cr_add_interval_granted [OF Cons.prems(1), of m cr "w32 a" "w32 b"]
    by (auto simp: add_then_def split: bind_splits if_splits)
qed simp

section \<open>Property tables\<close>

fun runs_ivs :: "int \<Rightarrow> bool \<Rightarrow> int list \<Rightarrow> (int \<times> int) list" where
  "runs_ivs code inb [] = []"
| "runs_ivs code inb (r # rs) = (if inb then [(code, code + r)] else []) @ runs_ivs (code + r) (\<not> inb) rs"

lemma runs_ivs_length: "length (runs_ivs code inb rs) \<le> length rs"
  by (induction code inb rs rule: runs_ivs.induct) auto

lemma runs_ivs_sorted: "\<forall>r \<in> set rs. 0 < r \<Longrightarrow> ivs_sorted code (runs_ivs code inb rs) (code + span (\<lambda>r. r) rs)"
proof (induction code inb rs rule: runs_ivs.induct)
  case (2 code inb r rs)
  then have "ivs_sorted (code + r) (runs_ivs (code + r) (\<not> inb) rs) (code + span (\<lambda>r. r) (r # rs))" by (simp add: add.assoc)
  then show ?case using 2(2) ivs_sorted_weaken [of "code + r" _ _ code] by auto
qed simp

lemma runs_ivs_set: "\<forall>r \<in> set rs. 0 < r \<Longrightarrow> code \<le> c \<Longrightarrow> c \<in> ivs_set (runs_ivs code inb rs) \<longleftrightarrow> in_runs c code inb rs"
proof (induction code inb rs rule: runs_ivs.induct)
  case (2 code inb r rs)
  have "c \<notin> ivs_set (runs_ivs (code + r) (\<not> inb) rs)" if "c < code + r"
  proof -
    have "ivs_sorted (code + r) (runs_ivs (code + r) (\<not> inb) rs) (code + r + span (\<lambda>r. r) rs)"
      using 2(2) by (intro runs_ivs_sorted) auto
    then show ?thesis using that ivs_sorted_bounds [of "code + r" _ _ c] by auto
  qed
  then show ?case using 2 by (cases inb) auto
qed simp

lemma prop1_loop_all:
  assumes "prop_complete p" "\<forall>b \<in> set p. 0 \<le> b" "0 \<le> code" "code + span (\<lambda>r. r) (prop_runs p) < 2 ^ 32"
  shows "prop1_loop ra p code inb m cr = add_all ra (runs_ivs code inb (prop_runs p)) m cr (\<lambda>m cr. Some (m, cr, 0))"
  using assms
proof (induction p arbitrary: code inb m cr rule: prop_complete_induct)
  case (one b p)
  let ?s = "span (\<lambda>r. r) (prop_runs p)"
  have sp: "0 \<le> ?s" using one.prems(1) prop_runs_pos [of p] by (intro span_nonneg) auto
  have IH: "prop1_loop ra p cd i = (\<lambda>m cr. add_all ra (runs_ivs cd i (prop_runs p)) m cr (\<lambda>m cr. Some (m, cr, 0)))"
    if "0 \<le> cd" "cd + ?s < 2 ^ 32" for cd i
    using one.IH one.prems(1) that by (intro ext) simp
  show ?case
  proof (cases "b < 64")
    case True
    define r1 where "r1 = drop_bit 3 b + 1" define r2 where "r2 = (b AND 7) + 1"
    have r: "0 < r1" "0 < r2" using one.prems(1) by (auto simp: r1_def r2_def add_nonneg_pos)
    have t: "code + r1 + r2 + ?s < 2 ^ 32" using one.prems(3) True by (simp add: r1_def r2_def add.assoc)
    have e: "code + drop_bit 3 b + 1 = code + r1" "code + r1 + (b AND 7) + 1 = code + r1 + r2"
      by (simp_all add: r1_def r2_def)
    have "u32 (code + drop_bit 3 b + 1) = code + r1" "u32 (code + r1 + (b AND 7) + 1) = code + r1 + r2"
      unfolding e using r sp t one.prems(2) by (auto intro!: u32_id)
    moreover have "prop_runs (b # p) = r1 # r2 # prop_runs p" using True by (simp add: r1_def r2_def)
    ultimately show ?thesis using True IH [of "code + r1 + r2" inb] r t one.prems(2)
      by (simp add: Let_def add_all_cond)
  next
    case False
    have t: "code + (b - 127) + ?s < 2 ^ 32" "0x80 \<le> b" using one.prems(3) one.hyps False by auto
    then have "u32 (code + b - 0x80 + 1) = code + (b - 127)" using sp one.prems(2) by (subst u32_id) auto
    then show ?thesis using False IH [of "code + (b - 127)" "\<not> inb"] t one.prems(2)
      by (simp add: Let_def add_all_cond)
  qed
next
  case (two b b0 p)
  define r where "r = (push_bit 8 (b - 0x40) OR b0) + 1"
  have sp: "0 \<le> span (\<lambda>r. r) (prop_runs p)" using two.prems(1) prop_runs_pos [of p] by (intro span_nonneg) auto
  have r: "0 < r" using two by (simp add: r_def add_nonneg_pos)
  have t: "code + r + span (\<lambda>r. r) (prop_runs p) < 2 ^ 32" using two.prems(3) two.hyps by (auto simp: r_def add.assoc)
  have e: "code + (push_bit 8 (b - 0x40) OR b0) + 1 = code + r" by (simp add: r_def)
  have "u32 (code + (push_bit 8 (b - 0x40) OR b0) + 1) = code + r" unfolding e using r sp t two.prems(2) by (intro u32_id) auto
  moreover have "prop_runs (b # b0 # p) = r # prop_runs p" using two.hyps by (simp add: r_def)
  moreover have "prop1_loop ra p (code + r) (\<not> inb) = (\<lambda>m cr. add_all ra (runs_ivs (code + r) (\<not> inb) (prop_runs p)) m cr (\<lambda>m cr. Some (m, cr, 0)))"
    using two.IH [of "code + r"] two.prems(1,2) r t by (intro ext) simp
  ultimately show ?case using two.hyps by (simp add: Let_def add_all_cond)
next
  case (three b b0 b1 p)
  define r where "r = (push_bit 16 (b - 0x60) OR push_bit 8 b0 OR b1) + 1"
  have sp: "0 \<le> span (\<lambda>r. r) (prop_runs p)" using three.prems(1) prop_runs_pos [of p] by (intro span_nonneg) auto
  have r: "0 < r" using three by (simp add: r_def add_nonneg_pos)
  have t: "code + r + span (\<lambda>r. r) (prop_runs p) < 2 ^ 32" using three.prems(3) three.hyps by (auto simp: r_def add.assoc)
  have e: "code + (push_bit 16 (b - 0x60) OR push_bit 8 b0 OR b1) + 1 = code + r" by (simp add: r_def)
  have "u32 (code + (push_bit 16 (b - 0x60) OR push_bit 8 b0 OR b1) + 1) = code + r"
    unfolding e using r sp t three.prems(2) by (intro u32_id) auto
  moreover have "prop_runs (b # b0 # b1 # p) = r # prop_runs p" using three.hyps by (simp add: r_def)
  moreover have "prop1_loop ra p (code + r) (\<not> inb) = (\<lambda>m cr. add_all ra (runs_ivs (code + r) (\<not> inb) (prop_runs p)) m cr (\<lambda>m cr. Some (m, cr, 0)))"
    using three.IH [of "code + r"] three.prems(1,2) r t by (intro ext) simp
  ultimately show ?case using three.hyps by (simp add: Let_def add_all_cond)
qed simp

section \<open>General categories\<close>

function (sequential) gc_runs :: "int list \<Rightarrow> (int \<times> int) list" where
  "gc_runs [] = []"
| "gc_runs (b # p) = (case gc_count (drop_bit 5 b) p of None \<Rightarrow> [] | Some (n, q) \<Rightarrow> (n + 1, b AND 0x1f) # gc_runs q)"
  by pat_completeness auto
termination by (relation "measure length") (auto dest: gc_count_shorter)

function (sequential) gc_complete :: "int list \<Rightarrow> bool" where
  "gc_complete [] = True"
| "gc_complete (b # p) = (case gc_count (drop_bit 5 b) p of None \<Rightarrow> False | Some (n, q) \<Rightarrow> gc_complete q)"
  by pat_completeness auto
termination by (relation "measure length") (auto dest: gc_count_shorter)

text \<open>The category of a code point; a run of type 31 alternates upper and lower case letters.\<close>

fun gc_at :: "int \<Rightarrow> int \<Rightarrow> (int \<times> int) list \<Rightarrow> int option" where
  "gc_at c code [] = None"
| "gc_at c code ((n, v) # rs) =
     (if c < code + n then Some (if v = 31 then (if even (c - code) then UNICODE_GC_Lu else UNICODE_GC_Ll) else v)
      else gc_at c (code + n) rs)"

definition gc_run_ivs :: "int \<Rightarrow> int \<Rightarrow> int \<Rightarrow> int \<Rightarrow> (int \<times> int) list" where
  "gc_run_ivs gc_mask code n v =
     (if v = 31 then
        (if has_bit gc_mask UNICODE_GC_Lu \<and> has_bit gc_mask UNICODE_GC_Ll then [(code, code + n)]
         else if has_bit gc_mask UNICODE_GC_Lu then alternate code (code + n)
         else if has_bit gc_mask UNICODE_GC_Ll then alternate (code + 1) (code + n)
         else [])
      else if has_bit gc_mask v then [(code, code + n)] else [])"

fun gc_ivs :: "int \<Rightarrow> int \<Rightarrow> (int \<times> int) list \<Rightarrow> (int \<times> int) list" where
  "gc_ivs gc_mask code [] = []"
| "gc_ivs gc_mask code ((n, v) # rs) = gc_run_ivs gc_mask code n v @ gc_ivs gc_mask (code + n) rs"

lemma alternate_sorted: "lo \<le> c0 \<Longrightarrow> lo \<le> c \<Longrightarrow> ivs_sorted lo (alternate c0 c) c"
proof (induction c0 c arbitrary: lo rule: alternate.induct)
  case (1 c0 c)
  then show ?case by (subst alternate.simps) auto
qed

lemma alternate_set: "x \<in> ivs_set (alternate c0 c) \<longleftrightarrow> c0 \<le> x \<and> x < c \<and> even (x - c0)"
proof (induction c0 c rule: alternate.induct)
  case (1 c0 c)
  show ?case
  proof (cases "c0 < c")
    case True
    have "x = c0 \<or> c0 + 2 \<le> x" if "c0 \<le> x" "even (x - c0)" using that by (cases "x = c0 + 1") auto
    then show ?thesis using 1 True by (subst alternate.simps) auto
  next
    case False
    then show ?thesis by (subst alternate.simps) auto
  qed
qed

lemma alternate_length: "int (length (alternate c0 c)) \<le> max 0 (c - c0)"
proof (induction c0 c rule: alternate.induct)
  case (1 c0 c)
  then show ?case by (subst alternate.simps) auto
qed

lemma gc_run_ivs_ok:
  assumes "0 < n"
  shows "ivs_sorted code (gc_run_ivs gc_mask code n v) (code + n)"
    and "x \<in> ivs_set (gc_run_ivs gc_mask code n v) \<longleftrightarrow> code \<le> x \<and> x < code + n
      \<and> has_bit gc_mask (if v = 31 then (if even (x - code) then UNICODE_GC_Lu else UNICODE_GC_Ll) else v)"
    and "int (length (gc_run_ivs gc_mask code n v)) \<le> n"
proof -
  show "ivs_sorted code (gc_run_ivs gc_mask code n v) (code + n)"
    using assms by (auto simp: gc_run_ivs_def intro!: alternate_sorted)
  have "code + 1 \<le> x \<and> even (x - (code + 1)) \<longleftrightarrow> code \<le> x \<and> odd (x - code)" by (cases "x = code") auto
  then show "x \<in> ivs_set (gc_run_ivs gc_mask code n v) \<longleftrightarrow> code \<le> x \<and> x < code + n
      \<and> has_bit gc_mask (if v = 31 then (if even (x - code) then UNICODE_GC_Lu else UNICODE_GC_Ll) else v)"
    by (auto simp: gc_run_ivs_def alternate_set)
  show "int (length (gc_run_ivs gc_mask code n v)) \<le> n"
    using assms alternate_length [of code "code + n"] alternate_length [of "code + 1" "code + n"] by (auto simp: gc_run_ivs_def)
qed

lemma gc_ivs_sorted: "\<forall>r \<in> set rs. 0 < fst r \<Longrightarrow> ivs_sorted code (gc_ivs gc_mask code rs) (code + span fst rs)"
proof (induction gc_mask code rs rule: gc_ivs.induct)
  case (2 gc_mask code n v rs)
  then show ?case using gc_run_ivs_ok(1) [of n code gc_mask v] by (auto intro!: ivs_sorted_append simp: add.assoc)
qed simp

lemma gc_ivs_length: "\<forall>r \<in> set rs. 0 < fst r \<Longrightarrow> int (length (gc_ivs gc_mask code rs)) \<le> span fst rs"
proof (induction gc_mask code rs rule: gc_ivs.induct)
  case (2 gc_mask code n v rs)
  then show ?case using gc_run_ivs_ok(3) [of n gc_mask code v] by auto
qed simp

lemma gc_ivs_set:
  "\<forall>r \<in> set rs. 0 < fst r \<Longrightarrow> code \<le> x \<Longrightarrow>
   x \<in> ivs_set (gc_ivs gc_mask code rs) \<longleftrightarrow> (case gc_at x code rs of None \<Rightarrow> False | Some g \<Rightarrow> has_bit gc_mask g)"
proof (induction gc_mask code rs rule: gc_ivs.induct)
  case (2 gc_mask code n v rs)
  have "x \<notin> ivs_set (gc_ivs gc_mask (code + n) rs)" if "x < code + n"
    using ivs_sorted_bounds [OF gc_ivs_sorted [of rs "code + n" gc_mask], of x] 2(2) that by auto
  then show ?case using 2 gc_run_ivs_ok(2) [of n x gc_mask code v] by auto
qed simp

lemma gc1_loop_all:
  assumes "gc_complete p" "\<forall>r \<in> set (gc_runs p). 0 < fst r" "0 \<le> code" "code + span fst (gc_runs p) < 2 ^ 32"
  shows "gc1_loop ra gc_mask p code m cr = add_all ra (gc_ivs gc_mask code (gc_runs p)) m cr (\<lambda>m cr. Some (m, cr, 0))"
  using assms
proof (induction p arbitrary: code m cr rule: gc_complete.induct)
  case (2 b p)
  then obtain n q where g: "gc_count (drop_bit 5 b) p = Some (n, q)" "gc_complete q" by (auto split: option.splits)
  have sp: "0 \<le> span fst (gc_runs q)" using 2(3) g by (intro span_fst_nonneg) auto
  have t: "code + (n + 1) + span fst (gc_runs q) < 2 ^ 32" "0 < n + 1" using 2(3,5) g by auto
  have e: "u32 (code + n + 1) = code + (n + 1)" using sp t 2(4) by (subst u32_id) auto
  have IH: "gc1_loop ra gc_mask q (code + (n + 1)) =
      (\<lambda>m cr. add_all ra (gc_ivs gc_mask (code + (n + 1)) (gc_runs q)) m cr (\<lambda>m cr. Some (m, cr, 0)))"
    using 2(1) [OF g(1) refl g(2)] 2(3,4) g t by (intro ext) auto
  show ?case using g IH e
    by (auto simp: Let_def gc_run_ivs_def add_alternate_all add_all_append add_then_def)
qed simp

section \<open>Case tables\<close>

definition case_run_ivs :: "int \<Rightarrow> int \<Rightarrow> (int \<times> int) list" where
  "case_run_ivs case_mask v =
     (let code = run_code v; len = run_len v; cu = case_mask AND CASE_U \<noteq> 0; both = (cu \<and> case_mask AND (CASE_L OR CASE_F) \<noteq> 0) in
      if has_bit (case_run_mask case_mask) (run_type v) then
        (if run_type v = RUN_TYPE_UL \<and> \<not> both then
           (let code = code + (if cu then 1 else 0) in alternate code (code + len))
         else if run_type v = RUN_TYPE_LSU \<and> \<not> both then
           (if cu then [(code + 1, code + 2), (code + 2, code + 3)] else [(code, code + 1), (code + 1, code + 2)])
         else [(code, code + len)])
      else [])"

lemma add_then_False [simp]: "add_then ra False m cr a b k = k m cr"
  by (simp add: add_then_def)

lemma case1_loop_step:
  "case1_loop ra case_mask (case_run_mask case_mask) (v # vs) m cr =
   add_all ra (case_run_ivs case_mask v) m cr (case1_loop ra case_mask (case_run_mask case_mask) vs)"
proof -
  define rest where "rest = case1_loop ra case_mask (case_run_mask case_mask) vs"
  show ?thesis
    by (cases "case_mask AND CASE_U \<noteq> 0"; cases "case_mask AND (CASE_L OR CASE_F) \<noteq> 0")
      (simp_all add: Let_def case_run_ivs_def add_alternate_all flip: rest_def)
qed

lemma case1_loop_all:
  "case1_loop ra case_mask (case_run_mask case_mask) vs m cr =
   add_all ra (concat (map (case_run_ivs case_mask) vs)) m cr (\<lambda>m cr. Some (m, cr, 0))"
proof (induction vs arbitrary: m cr)
  case (Cons v vs)
  then have "case1_loop ra case_mask (case_run_mask case_mask) vs =
      (\<lambda>m cr. add_all ra (concat (map (case_run_ivs case_mask) vs)) m cr (\<lambda>m cr. Some (m, cr, 0)))" by (intro ext) simp
  then show ?case by (simp add: add_all_append case1_loop_step del: case1_loop.simps(2))
qed simp

text \<open>The conversions that a mask asks for.\<close>

definition case_kinds :: "int \<Rightarrow> int set" where
  "case_kinds case_mask = {k \<in> {0, 1, 2}. has_bit case_mask k}"

lemma kinds_ex:
  "(\<exists>k \<in> case_kinds m. P k) \<longleftrightarrow> 0 \<in> case_kinds m \<and> P 0 \<or> 1 \<in> case_kinds m \<and> P 1 \<or> 2 \<in> case_kinds m \<and> P 2"
  by (auto simp: case_kinds_def)

lemma has_bit_bit: "has_bit x n \<longleftrightarrow> bit x (nat n)"
  by (simp add: has_bit_def and_one_eq bit_iff_odd_drop_bit odd_iff_mod_2_eq_one)

lemma has_bit_or: "has_bit (x OR y) n \<longleftrightarrow> has_bit x n \<or> has_bit y n"
  by (simp add: has_bit_bit bit_or_iff)

lemma tab_run_mask_selects:
  assumes "t \<in> {0, 1, 2, 3, 4, 5, 6, 7, 8, 9, 10, 11, 12, 13}" "k \<in> {0, 1, 2}"
  shows "has_bit (tab_run_mask ! nat k) t \<longleftrightarrow> run_selects k t"
  using assms by (auto simp: has_bit_def run_selects_def tab_run_mask_def)

lemma case_run_mask_selects:
  assumes "0 \<le> t" "t \<le> 13"
  shows "has_bit (case_run_mask case_mask) t \<longleftrightarrow> (\<exists>k \<in> case_kinds case_mask. run_selects k t)"
proof -
  have t: "t \<in> {0, 1, 2, 3, 4, 5, 6, 7, 8, 9, 10, 11, 12, 13}" using assms by simp arith
  have "\<not> has_bit 0 t" by (simp add: has_bit_def)
  then show ?thesis using tab_run_mask_selects [OF t, of 0] tab_run_mask_selects [OF t, of 1] tab_run_mask_selects [OF t, of 2]
    by (simp add: case_run_mask_def has_bit_or case_kinds_def conj_disj_distribR ex_disj_distrib) 
qed

lemma case_mask_bits:
  assumes "0 \<le> case_mask" "case_mask < 8"
  shows "case_mask AND CASE_U \<noteq> 0 \<longleftrightarrow> 0 \<in> case_kinds case_mask"
    "case_mask AND 6 \<noteq> 0 \<longleftrightarrow> 1 \<in> case_kinds case_mask \<or> 2 \<in> case_kinds case_mask"
proof -
  have "case_mask \<in> {0, 1, 2, 3, 4, 5, 6, 7}" using assms by simp arith
  then show "case_mask AND CASE_U \<noteq> 0 \<longleftrightarrow> 0 \<in> case_kinds case_mask"
    "case_mask AND 6 \<noteq> 0 \<longleftrightarrow> 1 \<in> case_kinds case_mask \<or> 2 \<in> case_kinds case_mask"
    by (auto simp: case_kinds_def has_bit_def)
qed

text \<open>The intervals of a run are the characters of the run that some wanted conversion changes.\<close>

lemma alternate_sorted_even:
  "lo \<le> c0 \<Longrightarrow> c0 < c \<Longrightarrow> even (c - c0) \<Longrightarrow> ivs_sorted lo (alternate c0 c) (c - 1)"
proof (induction c0 c arbitrary: lo rule: alternate.induct)
  case (1 c0 c)
  have "c0 + 1 \<noteq> c" using 1(4) by auto
  then have "c0 + 2 \<le> c" using 1(3) by simp
  then consider "c0 + 2 = c" | "c0 + 2 < c" by linarith
  then show ?case
  proof cases
    case 1
    then show ?thesis using \<open>lo \<le> c0\<close> by (simp add: alternate.simps)
  next
    case 2
    then have "ivs_sorted (c0 + 1) (alternate (c0 + 2) c) (c - 1)" using 1 by auto
    then show ?thesis using 1(2,3) by (subst alternate.simps) simp
  qed
qed

lemma run_len_bound: "0 \<le> v \<Longrightarrow> run_len v < 128"
  using AND_upper2 [of "0x7f" "drop_bit 8 v"] by (simp add: run_len_def)

lemma case_run_ivs_UL:
  assumes ty: "run_type v = RUN_TYPE_UL" and m: "0 \<le> case_mask" "case_mask < 8" and l: "0 < run_len v" "even (run_len v)"
  shows "ivs_sorted (run_code v) (case_run_ivs case_mask v) (run_code v + run_len v)"
    and "x \<in> ivs_set (case_run_ivs case_mask v) \<longleftrightarrow> in_run run_code run_len v x \<and> (\<exists>k \<in> case_kinds case_mask. selected k v x)"
    and "int (length (case_run_ivs case_mask v)) \<le> run_len v"
proof -
  let ?c = "run_code v" and ?l = "run_len v" and ?K = "case_kinds case_mask"
  have K: "has_bit (case_run_mask case_mask) 4 \<longleftrightarrow> ?K \<noteq> {}"
    using case_run_mask_selects [of 4 case_mask] by (auto simp: run_selects_def)
  have K3: "?K \<subseteq> {0, 1, 2}" by (auto simp: case_kinds_def)
  note d = case_run_ivs_def Let_def ty case_mask_bits [OF m] K
  show "ivs_sorted ?c (case_run_ivs case_mask v) (?c + ?l)"
    using alternate_sorted [of ?c ?c "?c + ?l"] alternate_sorted_even [of ?c "?c + 1" "?c + 1 + ?l"] l by (auto simp: d)
  have sel: "(\<exists>k \<in> ?K. selected k v x) \<longleftrightarrow> (if odd (x - ?c) then 0 \<in> ?K else 1 \<in> ?K \<or> 2 \<in> ?K)"
    unfolding kinds_ex by (auto simp: selected_def run_selects_def ty)
  have "?c + 1 \<le> x \<and> x < ?c + 1 + ?l \<and> even (x - (?c + 1)) \<longleftrightarrow> ?c \<le> x \<and> x < ?c + ?l \<and> odd (x - ?c)"
    using l by (cases "x = ?c"; cases "x = ?c + ?l") auto
  moreover have "?K = {} \<longleftrightarrow> 0 \<notin> ?K \<and> 1 \<notin> ?K \<and> 2 \<notin> ?K" using K3 by auto
  ultimately show "x \<in> ivs_set (case_run_ivs case_mask v) \<longleftrightarrow> in_run run_code run_len v x \<and> (\<exists>k \<in> ?K. selected k v x)"
    unfolding sel by (auto simp: d alternate_set in_run_def)
  show "int (length (case_run_ivs case_mask v)) \<le> ?l"
    using l alternate_length [of ?c "?c + ?l"] alternate_length [of "?c + 1" "?c + 1 + ?l"] by (auto simp: d)
qed

lemma case_run_ivs_LSU:
  assumes ty: "run_type v = RUN_TYPE_LSU" and m: "0 \<le> case_mask" "case_mask < 8" and l: "run_len v = 3"
  shows "ivs_sorted (run_code v) (case_run_ivs case_mask v) (run_code v + run_len v)"
    and "x \<in> ivs_set (case_run_ivs case_mask v) \<longleftrightarrow> in_run run_code run_len v x \<and> (\<exists>k \<in> case_kinds case_mask. selected k v x)"
    and "int (length (case_run_ivs case_mask v)) \<le> run_len v"
proof -
  let ?c = "run_code v" and ?K = "case_kinds case_mask"
  have K: "has_bit (case_run_mask case_mask) 5 \<longleftrightarrow> ?K \<noteq> {}"
    using case_run_mask_selects [of 5 case_mask] by (auto simp: run_selects_def)
  have K3: "?K \<subseteq> {0, 1, 2}" by (auto simp: case_kinds_def)
  note d = case_run_ivs_def Let_def ty l case_mask_bits [OF m] K
  show "ivs_sorted ?c (case_run_ivs case_mask v) (?c + run_len v)" by (auto simp: d)
  have sel: "(\<exists>k \<in> ?K. selected k v x) \<longleftrightarrow> 0 \<in> ?K \<and> x \<noteq> ?c \<or> (1 \<in> ?K \<or> 2 \<in> ?K) \<and> x \<noteq> ?c + 2"
    unfolding kinds_ex by (auto simp: selected_def run_selects_def ty)
  have "?K = {} \<longleftrightarrow> 0 \<notin> ?K \<and> 1 \<notin> ?K \<and> 2 \<notin> ?K" using K3 by auto
  then show "x \<in> ivs_set (case_run_ivs case_mask v) \<longleftrightarrow> in_run run_code run_len v x \<and> (\<exists>k \<in> ?K. selected k v x)"
    unfolding sel by (auto simp: d in_run_def)
  show "int (length (case_run_ivs case_mask v)) \<le> run_len v" by (auto simp: d)
qed

lemma case_run_ivs_ok:
  assumes i: "i < 370" and v: "v = case_conv_table1 ! i" and m: "0 \<le> case_mask" "case_mask < 8"
  shows "ivs_sorted (run_code v) (case_run_ivs case_mask v) (run_code v + run_len v)
    \<and> (x \<in> ivs_set (case_run_ivs case_mask v) \<longleftrightarrow> in_run run_code run_len v x \<and> (\<exists>k \<in> case_kinds case_mask. selected k v x))
    \<and> length (case_run_ivs case_mask v) \<le> 128"
proof -
  note wf = case_entry_wf [OF i, folded v, unfolded entry_wf_def Let_def]
  have len: "0 < run_len v" using runs_sorted_nth [OF case_runs_sorted, of i] i case_table_lengths v by simp
  have ty: "0 \<le> v" "0 \<le> run_type v" "run_type v \<le> 13" using wf by (auto intro!: run_type_nonneg)
  have "int (length (case_run_ivs case_mask v)) \<le> 128" if "int (length (case_run_ivs case_mask v)) \<le> run_len v"
    using that run_len_bound [OF ty(1)] by simp
  note len128 = this
  consider "run_type v = RUN_TYPE_UL" | "run_type v = RUN_TYPE_LSU" | "run_type v \<noteq> RUN_TYPE_UL" "run_type v \<noteq> RUN_TYPE_LSU" by blast
  then show ?thesis
  proof cases
    case 1
    then have "even (run_len v)" using wf by (auto simp: and_one_eq odd_iff_mod_2_eq_one)
    then show ?thesis using case_run_ivs_UL [OF 1 m len] len128 by auto
  next
    case 2
    then have "run_len v = 3" using wf by auto
    then show ?thesis using case_run_ivs_LSU [OF 2 m] len128 by auto
  next
    case 3
    then have "case_run_ivs case_mask v = (if \<exists>k \<in> case_kinds case_mask. run_selects k (run_type v) then [(run_code v, run_code v + run_len v)] else [])"
      using case_run_mask_selects [OF ty(2,3), of case_mask] by (simp add: case_run_ivs_def Let_def)
    then show ?thesis using len 3 by (auto simp: in_run_def selected_def)
  qed
qed

lemma concat_ivs_sorted:
  "runs_sorted start len lo vs \<Longrightarrow> lo \<le> hi \<Longrightarrow> \<forall>v \<in> set vs. ivs_sorted (start v) (f v) (start v + len v) \<and> start v + len v \<le> hi \<Longrightarrow>
   ivs_sorted lo (concat (map f vs)) hi"
proof (induction vs arbitrary: lo)
  case (Cons v vs)
  then have "ivs_sorted (start v + len v) (concat (map f vs)) hi" by auto
  moreover have "ivs_sorted lo (f v) (start v + len v)" using Cons.prems by (auto elim!: ivs_sorted_weaken)
  ultimately show ?case by (auto intro: ivs_sorted_append)
qed simp

lemma concat_ivs_set: "x \<in> ivs_set (concat (map f vs)) \<longleftrightarrow> (\<exists>v \<in> set vs. x \<in> ivs_set (f v))"
  by (induction vs) auto

lemma concat_ivs_length: "\<forall>v \<in> set vs. length (f v) \<le> n \<Longrightarrow> length (concat (map f vs)) \<le> length vs * n"
  by (induction vs) auto

abbreviation case_ivs :: "int \<Rightarrow> (int \<times> int) list" where
  "case_ivs case_mask \<equiv> concat (map (case_run_ivs case_mask) case_conv_table1)"

lemma table1_mem: "v \<in> set case_conv_table1 \<longleftrightarrow> (\<exists>i < 370. v = case_conv_table1 ! i)"
  using case_table_lengths(1) by (metis in_set_conv_nth)

lemma case_ivs_ok:
  assumes m: "0 \<le> case_mask" "case_mask < 8"
  shows "ivs_sorted 0 (case_ivs case_mask) (2 ^ 20)" "length (case_ivs case_mask) \<le> 47360"
    and "x \<in> ivs_set (case_ivs case_mask) \<longleftrightarrow> (\<exists>k \<in> case_kinds case_mask. x \<in> case_changed k)"
proof -
  have end20: "run_code v + run_len v \<le> 2 ^ 20" if "i < 370" "v = case_conv_table1 ! i" for i v
    using case_entry_wf [OF that(1)] that(2) by (auto simp: entry_wf_def Let_def)
  show "ivs_sorted 0 (case_ivs case_mask) (2 ^ 20)"
    using case_run_ivs_ok [OF _ _ m] end20 by (intro concat_ivs_sorted [OF case_runs_sorted]) (auto simp: table1_mem)
  show "length (case_ivs case_mask) \<le> 47360"
  proof -
    have "\<forall>v \<in> set case_conv_table1. length (case_run_ivs case_mask v) \<le> 128"
      using case_run_ivs_ok [OF _ _ m] by (auto simp: table1_mem)
    then show ?thesis using concat_ivs_length [of case_conv_table1 "case_run_ivs case_mask" 128] case_table_lengths(1) by simp
  qed
  show "x \<in> ivs_set (case_ivs case_mask) \<longleftrightarrow> (\<exists>k \<in> case_kinds case_mask. x \<in> case_changed k)"
  proof -
    have "x \<in> ivs_set (case_run_ivs case_mask v) \<longleftrightarrow> in_run run_code run_len v x \<and> (\<exists>k \<in> case_kinds case_mask. selected k v x)"
      if "v \<in> set case_conv_table1" for v
      using case_run_ivs_ok [OF _ _ m, of _ v x] that by (auto simp: table1_mem)
    then have "x \<in> ivs_set (case_ivs case_mask) \<longleftrightarrow>
        (\<exists>v \<in> set case_conv_table1. in_run run_code run_len v x \<and> (\<exists>k \<in> case_kinds case_mask. selected k v x))"
      unfolding concat_ivs_set by (rule bex_cong [OF refl])
    moreover have "x \<in> case_changed k \<longleftrightarrow> (\<exists>v \<in> set case_conv_table1. in_run run_code run_len v x \<and> selected k v x)" for k
      unfolding case_changed_def entry_at_def Bex_def table1_mem by blast
    ultimately show ?thesis by blast
  qed
qed

section \<open>Ranges built from the tables\<close>

text \<open>What a construction from an empty range promises: the range holds the code points of \<open>S\<close>, in order, or the
  failure of an allocation is reported.\<close>

definition built :: "'m cr_realloc_f \<Rightarrow> int set \<Rightarrow> 'm \<times> CharRange \<times> int \<Rightarrow> bool" where
  "built ra S = (\<lambda>(m', cr', r). cr_wf cr' \<and> (never_refuses ra \<longrightarrow> r = 0)
     \<and> (r = 0 \<and> sorted (cr_pts cr') \<and> even (cr_len cr') \<and> cr_len cr' \<le> 2 ^ 22 \<and> (\<forall>c. c \<in> cr_set (cr_pts cr') \<longleftrightarrow> uint c \<in> S) \<or> r = -1))"

context cr_alloc
begin

lemma add_all_built:
  assumes "cr_wf cr" "cr_pts cr = []" "ivs_sorted 0 ivs hi" "hi < 2 ^ 32" "length ivs \<le> 2 ^ 21"
  shows "ok (add_all ra ivs m cr (\<lambda>m cr. Some (m, cr, 0))) (built ra (ivs_set ivs))"
proof -
  have "cr_len cr = 0" using assms(1,2) length_cr_pts by fastforce
  then obtain m' cr' r where g: "add_all ra ivs m cr (\<lambda>m cr. Some (m, cr, 0)) = Some (m', cr', r)" "cr_wf cr'"
    "r = 0 \<and> cr_pts cr' = w_ivs ivs \<or> r = -1"
    using add_all_ok [OF assms(1), of ivs m] assms(2,5) by (auto elim!: okE)
  have "even (cr_len cr') \<and> cr_len cr' \<le> 2 ^ 22" if "r = 0"
  proof -
    have "cr_len cr' = 2 * length ivs" using g(2,3) that length_cr_pts [OF g(2)] length_w_ivs [of ivs] by simp
    then show ?thesis using assms(5) by simp
  qed
  with g show ?thesis
    using add_all_granted [of ra ivs m cr] w_ivs_sorted [OF assms(3) _ assms(4)] w_ivs_set [OF assms(3) _ assms(4)]
    by (auto simp: built_def)
qed

lemma unicode_case1_built:
  assumes "cr_wf cr" "cr_pts cr = []" "0 \<le> case_mask" "case_mask < 8"
  shows "ok (unicode_case1 ra case_mask m cr) (built ra {c. \<exists>k \<in> case_kinds case_mask. c \<in> case_changed k})"
proof (cases "case_mask = 0")
  case True
  then show ?thesis using assms(1,2) length_cr_pts [OF assms(1)] by (simp add: unicode_case1_def built_def case_kinds_def has_bit_def cr_set_def)
next
  case False
  note c = case_ivs_ok [OF assms(3,4)]
  have "ok (add_all ra (case_ivs case_mask) m cr (\<lambda>m cr. Some (m, cr, 0))) (built ra (ivs_set (case_ivs case_mask)))"
    using c(1,2) by (intro add_all_built [OF assms(1,2)]) auto
  moreover have "ivs_set (case_ivs case_mask) = {c. \<exists>k \<in> case_kinds case_mask. c \<in> case_changed k}" using c(3) by blast
  ultimately show ?thesis using False by (simp add: unicode_case1_def case1_loop_all)
qed

lemma unicode_prop1_built:
  assumes "cr_wf cr" "cr_pts cr = []" "prop_complete table" "\<forall>b \<in> set table. 0 \<le> b" "span (\<lambda>r. r) (prop_runs table) < 2 ^ 32"
    "length (prop_runs table) \<le> 2 ^ 21"
  shows "ok (unicode_prop1 ra table m cr) (built ra {c. 0 \<le> c \<and> in_runs c 0 False (prop_runs table)})"
proof -
  let ?ivs = "runs_ivs 0 False (prop_runs table)"
  have pos: "\<forall>r \<in> set (prop_runs table). 0 < r" using prop_runs_pos assms(4) by blast
  have so: "ivs_sorted 0 ?ivs (span (\<lambda>r. r) (prop_runs table))" using runs_ivs_sorted [OF pos, of 0 False] by simp
  have "ivs_set ?ivs = {c. 0 \<le> c \<and> in_runs c 0 False (prop_runs table)}"
    using runs_ivs_set [OF pos, of 0 _ False] ivs_sorted_bounds [OF so] by auto
  moreover have "ok (add_all ra ?ivs m cr (\<lambda>m cr. Some (m, cr, 0))) (built ra (ivs_set ?ivs))"
    using runs_ivs_length [of 0 False "prop_runs table"] assms(5,6) by (intro add_all_built [OF assms(1,2) so]) auto
  ultimately show ?thesis using prop1_loop_all [OF assms(3,4), of 0 ra False m cr] assms(5) by (simp add: unicode_prop1_def)
qed

lemma unicode_general_category1_built:
  assumes "cr_wf cr" "cr_pts cr = []" "gc_complete table" "\<forall>r \<in> set (gc_runs table). 0 < fst r" "span fst (gc_runs table) \<le> 2 ^ 21"
  shows "ok (unicode_general_category1 ra table gc_mask m cr)
    (built ra {c. 0 \<le> c \<and> (\<exists>g. gc_at c 0 (gc_runs table) = Some g \<and> has_bit gc_mask g)})"
proof -
  let ?ivs = "gc_ivs gc_mask 0 (gc_runs table)"
  have so: "ivs_sorted 0 ?ivs (span fst (gc_runs table))" using gc_ivs_sorted [OF assms(4), of 0 gc_mask] by simp
  have "ivs_set ?ivs = {c. 0 \<le> c \<and> (\<exists>g. gc_at c 0 (gc_runs table) = Some g \<and> has_bit gc_mask g)}"
  proof (intro set_eqI)
    fix c
    show "c \<in> ivs_set ?ivs \<longleftrightarrow> c \<in> {c. 0 \<le> c \<and> (\<exists>g. gc_at c 0 (gc_runs table) = Some g \<and> has_bit gc_mask g)}"
      using gc_ivs_set [OF assms(4), of 0 c gc_mask] ivs_sorted_bounds [OF so, of c] by (auto split: option.splits)
  qed
  moreover have "ok (add_all ra ?ivs m cr (\<lambda>m cr. Some (m, cr, 0))) (built ra (ivs_set ?ivs))"
    using gc_ivs_length [OF assms(4), of gc_mask 0] assms(5) by (intro add_all_built [OF assms(1,2) so]) auto
  ultimately show ?thesis using gc1_loop_all [OF assms(3,4), of 0 ra gc_mask m cr] assms(5) by (simp add: unicode_general_category1_def)
qed

end

section \<open>Claims\<close>

lemma case_kinds_changed:
  assumes "0 \<le> c" "c < 2 ^ 32"
  shows "(\<exists>k \<in> case_kinds case_mask. c \<in> case_changed k) \<longleftrightarrow> (\<exists>k \<in> {0, 1, 2}. has_bit case_mask k \<and> lre_case_conv c k \<noteq> Some [c])"
proof -
  have "c \<in> case_changed k \<longleftrightarrow> lre_case_conv c k \<noteq> Some [c]" if "k \<in> {0, 1, 2}" for k
    using lre_case_conv_ok [OF assms that] by (auto elim!: okE)
  then show ?thesis unfolding case_kinds_def by blast
qed

text \<open>C27. \<open>unicode_case1\<close> agrees with the case conversion: for every mask, starting from an empty range, it either
  returns 0 with the sorted range of exactly those code points that one of the conversions in the mask (1 upper,
  2 lower, 4 folding) changes, or returns -1, which happens only when an allocation is refused.\<close>

theorem unicode_case1_correct:
  assumes "cr_alloc ra" "cr_wf cr" "cr_pts cr = []" "0 \<le> case_mask" "case_mask < 8"
  shows "\<exists>m' cr' r. unicode_case1 ra case_mask m cr = Some (m', cr', r) \<and>
    (r = 0 \<and> sorted (cr_pts cr') \<and> (\<forall>c. c \<in> cr_set (cr_pts cr') \<longleftrightarrow>
        (\<exists>k \<in> {0, 1, 2}. has_bit case_mask k \<and> lre_case_conv (uint c) k \<noteq> Some [uint c]))
     \<or> r = -1 \<and> \<not> never_refuses ra)"
proof -
  obtain m' cr' r where g: "unicode_case1 ra case_mask m cr = Some (m', cr', r)"
    "built ra {c. \<exists>k \<in> case_kinds case_mask. c \<in> case_changed k} (m', cr', r)"
    using cr_alloc.unicode_case1_built [OF assms, of m] by (auto elim!: okE)
  have "(\<exists>k \<in> case_kinds case_mask. uint c \<in> case_changed k) \<longleftrightarrow>
      (\<exists>k \<in> {0, 1, 2}. has_bit case_mask k \<and> lre_case_conv (uint c) k \<noteq> Some [uint c])" for c :: u32
    using case_kinds_changed [of "uint c"] uint_lt2p [of c] by simp
  then show ?thesis using g unfolding built_def by fastforce
qed

theorem unicode_case1_correct_witness:
  "\<exists>m' cr'. unicode_case1 granting_realloc 1 0 cr_init = Some (m', cr', 0) \<and> sorted (cr_pts cr') \<and>
    (0x61 \<in> cr_set (cr_pts cr') \<longleftrightarrow> lre_case_conv 0x61 0 \<noteq> Some [0x61])"
proof -
  have "has_bit 1 0" "\<not> has_bit 1 1" "\<not> has_bit 1 2" by (simp_all add: has_bit_def)
  then show ?thesis
    using unicode_case1_correct [OF granting_cr.cr_alloc_axioms, of cr_init 1 0] granting_never_refuses by force
qed

end
