(* ===== verification/RegexpCanon.thy ===== *)
theory RegexpCanon
  imports CharBuild
begin

text \<open>
  \<open>cr_regexp_canonicalize\<close> of \<open>src/native/quickjs/libunicode.c\<close>: the set of the canonical forms of the
  characters of a set.  The range of the characters that the conversion changes and its complement
  are intersected with the set; the first part is converted through the table of runs, which one index
  walks through once, and the second part is added unchanged.
\<close>

section \<open>Operation\<close>

text \<open>The inner loop \<open>for(;;)\<close>: the run of \<open>c\<close>, at or after \<open>idx\<close>.  A failed assertion is \<^term>\<open>None\<close>.\<close>

function canon_find :: "int \<Rightarrow> int \<Rightarrow> (int \<times> int) option" where
  "canon_find c idx = (case rdi case_conv_table1 idx of
       None \<Rightarrow> None
     | Some v \<Rightarrow>
         if run_code v \<le> c \<and> c < run_code v + run_len v then Some (idx, v)
         else if idx + 1 < int (length case_conv_table1) then canon_find c (idx + 1) else None)"
  by pat_completeness auto
termination by (relation "measure (\<lambda>(c, idx). nat (int (length case_conv_table1) - idx))") auto

declare canon_find.simps [simp del]

text \<open>Extending the current interval by \<open>d\<close>, or starting a new one; the result of \<open>cr_add_interval\<close> is ignored.\<close>

definition canon_merge ::
  "'m cr_realloc_f \<Rightarrow> 'm \<Rightarrow> CharRange \<Rightarrow> int \<Rightarrow> int \<Rightarrow> int \<Rightarrow> ('m \<times> CharRange \<times> int \<times> int) option" where
  "canon_merge ra m cr_result d_start d_end d =
     (if d_start = 0xffffffff then Some (m, cr_result, d, u32 (d + 1))
      else if d_end = d then Some (m, cr_result, d_start, u32 (d_end + 1))
      else do {
        (m', cr', r) \<leftarrow> cr_add_interval ra m cr_result (w32 d_start) (w32 d_end);
        Some (m', cr', d, u32 (d + 1)) })"

function canon_chars ::
  "'m cr_realloc_f \<Rightarrow> bool \<Rightarrow> int \<Rightarrow> int \<Rightarrow> int \<Rightarrow> 'm \<times> CharRange \<times> int \<times> int \<Rightarrow> (int \<times> 'm \<times> CharRange \<times> int \<times> int) option" where
  "canon_chars ra is_unicode c end_c idx st =
     (if c < end_c then do {
        (idx', v) \<leftarrow> canon_find c idx;
        d \<leftarrow> lre_case_folding_entry c idx' v is_unicode;
        st' \<leftarrow> (case st of (m, cr, d_start, d_end) \<Rightarrow> canon_merge ra m cr d_start d_end d);
        canon_chars ra is_unicode (c + 1) end_c idx' st' }
      else Some (idx, st))"
  by pat_completeness auto
termination by (relation "measure (\<lambda>(ra, u, c, e, idx, st). nat (e - c))") auto

declare canon_chars.simps [simp del]

function canon_intervals ::
  "'m cr_realloc_f \<Rightarrow> bool \<Rightarrow> u32 list \<Rightarrow> nat \<Rightarrow> nat \<Rightarrow> int \<Rightarrow> 'm \<times> CharRange \<times> int \<times> int \<Rightarrow> (int \<times> 'm \<times> CharRange \<times> int \<times> int) option" where
  "canon_intervals ra is_unicode pt len i idx st =
     (if i < len then do {
        start \<leftarrow> rd pt i;
        end_c \<leftarrow> rd pt (i + 1);
        (idx', st') \<leftarrow> canon_chars ra is_unicode (uint start) (uint end_c) idx st;
        canon_intervals ra is_unicode pt len (i + 2) idx' st' }
      else Some (idx, st))"
  by pat_completeness auto
termination by (relation "measure (\<lambda>(ra, u, pt, len, i, idx, st). len - i)") auto

declare canon_intervals.simps [simp del]

text \<open>The conversion of \<open>cr_inter\<close>, with the last interval added.\<close>

definition canon_result :: "'m cr_realloc_f \<Rightarrow> 'm \<Rightarrow> CharRange \<Rightarrow> bool \<Rightarrow> 'm cr_result" where
  "canon_result ra m cr_inter is_unicode = do {
     (idx, m, cr_result, d_start, d_end) \<leftarrow>
       canon_intervals ra is_unicode (blk (cr_points cr_inter)) (cr_len cr_inter) 0 0 (m, cr_init, 0xffffffff, 0xffffffff);
     if d_start \<noteq> 0xffffffff then cr_add_interval ra m cr_result (w32 d_start) (w32 d_end)
     else Some (m, cr_result, 0) }"

text \<open>The two exits free the four temporary ranges.\<close>

definition canon_exit ::
  "'m cr_realloc_f \<Rightarrow> CharRange \<Rightarrow> CharRange \<Rightarrow> CharRange \<Rightarrow> CharRange \<Rightarrow> int \<Rightarrow> 'm \<Rightarrow> CharRange \<Rightarrow> 'm cr_result" where
  "canon_exit ra cr_inter cr_mask cr_result cr_sub ret m cr = do {
     m1 \<leftarrow> cr_free ra m cr_inter;
     m2 \<leftarrow> cr_free ra m1 cr_mask;
     m3 \<leftarrow> cr_free ra m2 cr_result;
     m4 \<leftarrow> cr_free ra m3 cr_sub;
     Some (m4, cr, ret) }"

definition cr_regexp_canonicalize :: "'m cr_realloc_f \<Rightarrow> 'm \<Rightarrow> CharRange \<Rightarrow> bool \<Rightarrow> 'm cr_result" where
  "cr_regexp_canonicalize ra m cr is_unicode = do {
     (m, cr_mask, r) \<leftarrow> unicode_case1 ra (if is_unicode then CASE_F else CASE_U) m cr_init;
     if r \<noteq> 0 then canon_exit ra cr_init cr_mask cr_init cr_init (-1) m cr else do {
     (m, cr_inter, r) \<leftarrow> cr_op ra m cr_init (blk (cr_points cr_mask)) (cr_len cr_mask) (blk (cr_points cr)) (cr_len cr) CR_OP_INTER;
     if r \<noteq> 0 then canon_exit ra cr_inter cr_mask cr_init cr_init (-1) m cr else do {
     (m, cr_mask, r) \<leftarrow> cr_invert ra m cr_mask;
     if r \<noteq> 0 then canon_exit ra cr_inter cr_mask cr_init cr_init (-1) m cr else do {
     (m, cr_sub, r) \<leftarrow> cr_op ra m cr_init (blk (cr_points cr_mask)) (cr_len cr_mask) (blk (cr_points cr)) (cr_len cr) CR_OP_INTER;
     if r \<noteq> 0 then canon_exit ra cr_inter cr_mask cr_init cr_sub (-1) m cr else do {
     (m, cr_result, r) \<leftarrow> canon_result ra m cr_inter is_unicode;
     if r \<noteq> 0 then canon_exit ra cr_inter cr_mask cr_result cr_sub (-1) m cr else do {
     cr_result \<leftarrow> cr_sort_and_remove_overlap cr_result;
     (m, cr, r) \<leftarrow> cr_op ra m (cr\<lparr>cr_len := 0\<rparr>) (blk (cr_points cr_result)) (cr_len cr_result)
        (blk (cr_points cr_sub)) (cr_len cr_sub) CR_OP_UNION;
     canon_exit ra cr_inter cr_mask cr_result cr_sub (if r \<noteq> 0 then -1 else 0) m cr }}}}}}"

section \<open>Walking through the runs\<close>

lemma canon_find_ok:
  assumes e: "entry_at i v c"
  shows "0 \<le> idx \<Longrightarrow> idx \<le> int i \<Longrightarrow> canon_find c idx = Some (int i, v)"
proof (induction "nat (int i - idx)" arbitrary: idx rule: less_induct)
  case less
  have i: "i < 370" "v = case_conv_table1 ! i" "run_code v \<le> c" "c < run_code v + run_len v" using e by (auto simp: entry_at_def in_run_def)
  have r: "rdi case_conv_table1 idx = Some (case_conv_table1 ! nat idx)" using table1_rd less.prems i(1) by simp
  show ?case
  proof (cases "idx = int i")
    case True
    then show ?thesis using r i by (subst canon_find.simps) simp
  next
    case False
    have "\<not> entry_at (nat idx) (case_conv_table1 ! nat idx) c" using entry_at_unique [OF e] False less.prems(1) by fastforce
    then have no: "\<not> (run_code (case_conv_table1 ! nat idx) \<le> c \<and> c < run_code (case_conv_table1 ! nat idx) + run_len (case_conv_table1 ! nat idx))"
      using less.prems i(1) by (auto simp: entry_at_def in_run_def)
    have "canon_find c (idx + 1) = Some (int i, v)" using less.prems False by (intro less.hyps) auto
    then show ?thesis using r no False less.prems i(1) case_table_lengths(1) by (subst canon_find.simps) auto
  qed
qed

text \<open>No run before \<open>idx\<close> holds a character from \<open>c\<close> on.\<close>

definition idx_ok :: "int \<Rightarrow> int \<Rightarrow> bool" where
  "idx_ok idx c \<longleftrightarrow> 0 \<le> idx \<and> (\<forall>i v x. c \<le> x \<longrightarrow> entry_at i v x \<longrightarrow> idx \<le> int i)"

lemma idx_ok_next:
  assumes "entry_at i v c"
  shows "idx_ok (int i) (c + 1)"
proof -
  have "\<not> j < i" if "c < x" "entry_at j w x" for j w x
    using runs_sorted_less [OF case_runs_sorted, of j i] that assms case_table_lengths by (auto simp: entry_at_def in_run_def)
  then show ?thesis by (force simp: idx_ok_def)
qed

lemma idx_ok_mono: "idx_ok idx c \<Longrightarrow> c \<le> c' \<Longrightarrow> idx_ok idx c'"
  unfolding idx_ok_def by (meson order.trans)

abbreviation canon :: "bool \<Rightarrow> int \<Rightarrow> int" where
  "canon u c \<equiv> the (lre_canonicalize c u)"

lemma canon_entry:
  assumes "c \<in> case_changed (fold_kind u)" "idx_ok idx c"
  obtains i v d where "entry_at i v c" "canon_find c idx = Some (int i, v)" "lre_case_folding_entry c (int i) v u = Some d"
    "0 \<le> d" "d < 2 ^ 21" "canon u c = d" "0 \<le> c" "c < 2 ^ 20"
proof -
  obtain i v where e: "entry_at i v c" and s: "selected (fold_kind u) v c" using assms(1) by (auto simp: case_changed_def)
  obtain d where d: "lre_case_folding_entry c (int i) v u = Some d" "0 \<le> d" "d < 2 ^ 21"
    using folding_entry_ok [OF e, of u] by (auto elim!: okE)
  moreover have "canon u c = d" using canonicalize_entry [OF e s] d by simp
  moreover have "canon_find c idx = Some (int i, v)" using canon_find_ok [OF e] assms(2) e by (auto simp: idx_ok_def)
  moreover have "0 \<le> c" "c < 2 ^ 20" using entry_facts [OF e] by (metis order_trans)+
  ultimately show ?thesis using that e by blast
qed


section \<open>The result range\<close>

lemma uint_interval:
  assumes "0 \<le> a" "a \<le> b" "b < 2 ^ 32"
  shows "uint ` {w32 a..<w32 b} = {a..<b}"
proof -
  have u: "uint (w32 a) = a" "uint (w32 b) = b" using assms by (auto intro!: uint_w32)
  have "x \<in> uint ` {w32 a..<w32 b}" if "a \<le> x" "x < b" for x
  proof (rule image_eqI)
    show "x = uint (w32 x)" using that assms uint_w32 [of x] by simp
    then show "w32 x \<in> {w32 a..<w32 b}" using that u by (simp add: word_le_def word_less_def)
  qed
  then show ?thesis using u by (auto simp: word_le_def word_less_def)
qed

lemma pair_up_append: "even (length xs) \<Longrightarrow> pair_up (xs @ ys) = pair_up xs @ pair_up ys"
  by (induction xs rule: pair_up.induct) auto

lemma iset_append [simp]: "iset (xs @ ys) = iset xs \<union> iset ys"
  by (auto simp: iset_def)

text \<open>The code points of the intervals in the range and of the current interval.\<close>

definition canon_pts :: "CharRange \<Rightarrow> int set" where
  "canon_pts cr = uint ` iset (pair_up (cr_pts cr))"

definition result_wf :: "CharRange \<Rightarrow> bool" where
  "result_wf cr \<longleftrightarrow> cr_wf cr \<and> even (cr_len cr) \<and> (\<forall>(s, e) \<in> set (pair_up (cr_pts cr)). s < e)"

context cr_alloc
begin

lemma result_add:
  assumes w: "result_wf cr" "cr_len cr < 2 ^ 28" and d: "0 \<le> ds" "ds < de" "de < 2 ^ 32"
  shows "ok (cr_add_interval ra m cr (w32 ds) (w32 de)) (\<lambda>(m', cr', r). result_wf cr' \<and> cr_len cr' \<le> cr_len cr + 2
    \<and> (r = 0 \<and> canon_pts cr' = canon_pts cr \<union> {ds..<de} \<or> r = -1 \<and> canon_pts cr' = canon_pts cr \<and> \<not> never_refuses ra))"
proof -
  have wf: "cr_wf cr" "even (cr_len cr)" and ne: "\<forall>(s, e) \<in> set (pair_up (cr_pts cr)). s < e" using w(1) by (auto simp: result_wf_def)
  obtain m' cr' r where g: "cr_add_interval ra m cr (w32 ds) (w32 de) = Some (m', cr', r)"
    and p: "cr_post cr (cr_pts cr @ [w32 ds, w32 de]) (m', cr', r)"
    using cr_add_interval_ok [OF wf(1) w(2), of m "w32 ds" "w32 de"] by (auto elim!: okE)
  have wf': "cr_wf cr'" using p by (simp add: cr_post_def)
  have l: "length (cr_pts cr) = cr_len cr" "length (cr_pts cr') = cr_len cr'" using length_cr_pts wf(1) wf' by blast+
  have lt: "w32 ds < w32 de" using d uint_w32 [of ds] uint_w32 [of de] by (simp add: word_less_def)
  show ?thesis
  proof (cases "r = 0")
    case True
    then have q: "cr_pts cr' = cr_pts cr @ [w32 ds, w32 de]" using p by (auto simp: cr_post_def)
    then have "pair_up (cr_pts cr') = pair_up (cr_pts cr) @ [(w32 ds, w32 de)]" using pair_up_append wf(2) l(1) by simp
    then have "canon_pts cr' = canon_pts cr \<union> {ds..<de}" "\<forall>(s, e) \<in> set (pair_up (cr_pts cr')). s < e"
      using uint_interval [of ds de] d ne lt by (auto simp: canon_pts_def image_Un)
    moreover have "cr_len cr' = cr_len cr + 2" using q l by simp
    ultimately show ?thesis using g True wf' wf(2) by (simp add: result_wf_def)
  next
    case False
    then have "r = -1" "cr_pts cr' = cr_pts cr" using p by (auto simp: cr_post_def)
    moreover have "\<not> never_refuses ra" using cr_add_interval_granted [of ra m cr "w32 ds" "w32 de"] g False by auto
    ultimately show ?thesis using g w(1) wf' l by (auto simp: result_wf_def canon_pts_def)
  qed
qed

end

text \<open>What the loop has built after the characters \<open>X\<close>: nothing but their canonical forms, and all of them when no
  allocation is refused.\<close>

definition canon_inv :: "'m cr_realloc_f \<Rightarrow> bool \<Rightarrow> int set \<Rightarrow> 'm \<times> CharRange \<times> int \<times> int \<Rightarrow> bool" where
  "canon_inv ra u X = (\<lambda>(m, cr, ds, de). result_wf cr \<and> X \<subseteq> {0..<2 ^ 20} \<and> cr_len cr \<le> 2 * card X \<and>
     (ds = 0xffffffff \<and> X = {} \<and> cr_pts cr = []
      \<or> 0 \<le> ds \<and> ds < de \<and> de \<le> 2 ^ 21 \<and> canon_pts cr \<union> {ds..<de} \<subseteq> canon u ` X
         \<and> (never_refuses ra \<longrightarrow> canon_pts cr \<union> {ds..<de} = canon u ` X)))"

context cr_alloc
begin

lemma canon_merge_ok:
  assumes i: "canon_inv ra u X (m, cr, ds, de)" and c: "c \<notin> X" "0 \<le> c" "c < 2 ^ 20" "canon u c = d" "0 \<le> d" "d < 2 ^ 21"
  shows "ok (canon_merge ra m cr ds de d) (canon_inv ra u (insert c X))"
proof -
  have fin: "finite X" and X: "insert c X \<subseteq> {0..<2 ^ 20}"
    using i c finite_subset [of X "{0..<2 ^ 20}"] by (auto simp: canon_inv_def)
  have card: "card (insert c X) = card X + 1" using fin c(1) by simp
  have "card (insert c X) \<le> card {0..<2 ^ 20 :: int}" using X by (intro card_mono) auto
  then have len: "cr_len cr < 2 ^ 28" "cr_len cr \<le> 2 * card X" using card i by (auto simp: canon_inv_def)
  have u1: "u32 (d + 1) = d + 1" using c by (intro u32_id) auto
  have iv: "{d..<d + 1} = {d}" by auto
  note card_simp = card card_insert_disjoint [OF fin c(1)]
  consider "ds = 0xffffffff" "X = {}" "cr_pts cr = []" | "ds \<noteq> 0xffffffff" "de = d" | "ds \<noteq> 0xffffffff" "de \<noteq> d"
    using i by (cases "de = d") (auto simp: canon_inv_def)
  then show ?thesis
  proof cases
    case 1
    then have "canon_pts cr = {}" by (simp add: canon_pts_def)
    then show ?thesis using 1 i c u1 X iv by (auto simp: canon_merge_def canon_inv_def)
  next
    case 2
    have "u32 (de + 1) = d + 1" using 2 u1 by simp
    moreover have "{ds..<de + 1} = insert de {ds..<de}" if "ds < de" using that by auto
    ultimately show ?thesis using 2 i c X len(2) card by (auto simp: canon_merge_def canon_inv_def)
  next
    case 3
    then have b: "result_wf cr" "0 \<le> ds" "ds < de" "de < 2 ^ 32" using i by (auto simp: canon_inv_def)
    obtain m' cr' r where g: "cr_add_interval ra m cr (w32 ds) (w32 de) = Some (m', cr', r)" "result_wf cr'" "cr_len cr' \<le> cr_len cr + 2"
      "r = 0 \<and> canon_pts cr' = canon_pts cr \<union> {ds..<de} \<or> r = -1 \<and> canon_pts cr' = canon_pts cr \<and> \<not> never_refuses ra"
      using result_add [OF b(1) len(1) b(2-4), of m] by (auto elim!: okE)
    have le: "cr_len cr' \<le> 2 * card (insert c X)" using g(3) len(2) card by simp
    have "canon_inv ra u (insert c X) (m', cr', d, d + 1)"
    proof -
      have "canon_pts cr \<union> {ds..<de} \<subseteq> canon u ` X" "never_refuses ra \<Longrightarrow> canon_pts cr \<union> {ds..<de} = canon u ` X"
        using i 3(1) by (auto simp: canon_inv_def)
      then have "canon_pts cr' \<union> {d..<d + 1} \<subseteq> canon u ` insert c X"
        "never_refuses ra \<longrightarrow> canon_pts cr' \<union> {d..<d + 1} = canon u ` insert c X"
        unfolding iv image_insert c(4) using g(4) by blast+
      then show ?thesis using g(2) c(5,6) X le by (simp add: canon_inv_def)
    qed
    then show ?thesis using 3 g(1) u1 by (simp add: canon_merge_def)
  qed
qed

lemma canon_chars_ok:
  assumes "c \<le> e" "\<forall>x. c \<le> x \<and> x < e \<longrightarrow> x \<in> case_changed (fold_kind u)" "idx_ok idx c" "X \<subseteq> {..<c}" "canon_inv ra u X st"
  shows "ok (canon_chars ra u c e idx st) (\<lambda>(idx', st'). idx_ok idx' e \<and> canon_inv ra u (X \<union> {c..<e}) st')"
  using assms
proof (induction "nat (e - c)" arbitrary: c idx X st rule: less_induct)
  case less
  show ?case
  proof (cases "c < e")
    case False
    then show ?thesis using less.prems by (subst canon_chars.simps) simp
  next
    case True
    obtain i v d where n: "entry_at i v c" "canon_find c idx = Some (int i, v)" "lre_case_folding_entry c (int i) v u = Some d"
      "0 \<le> d" "d < 2 ^ 21" "canon u c = d" "0 \<le> c" "c < 2 ^ 20"
      using canon_entry [of c u idx] less.prems(2,3) True by auto
    have c: "c \<notin> X" using less.prems(4) by auto
    obtain m cr ds de where st: "st = (m, cr, ds, de)" by (cases st)
    obtain st' where s: "canon_merge ra m cr ds de d = Some st'" "canon_inv ra u (insert c X) st'"
      using canon_merge_ok [of u X m cr ds de c d] c less.prems(5) n st by (auto elim!: okE)
    have "insert c X \<union> {c + 1..<e} = X \<union> {c..<e}" using True by auto
    moreover have "ok (canon_chars ra u (c + 1) e (int i) st') (\<lambda>(idx', st'). idx_ok idx' e \<and> canon_inv ra u (insert c X \<union> {c + 1..<e}) st')"
      using True less.prems(2,4) s(2) idx_ok_next [OF n(1)] by (intro less.hyps) auto
    ultimately show ?thesis using True n(2,3) s(1) st by (subst canon_chars.simps) simp
  qed
qed

lemma canon_intervals_ok:
  assumes "len \<le> length pt" "i \<le> len" "even (len - i)" "sorted_wrt (<) (slice i len pt)"
    "\<forall>w \<in> cr_set (slice i len pt). uint w \<in> case_changed (fold_kind u)"
    "X \<subseteq> {..<lo}" "\<forall>w \<in> set (slice i len pt). lo \<le> uint w" "idx_ok idx lo" "canon_inv ra u X st"
  shows "ok (canon_intervals ra u pt len i idx st) (\<lambda>(idx', st'). canon_inv ra u (X \<union> uint ` cr_set (slice i len pt)) st')"
  using assms
proof (induction "len - i" arbitrary: i lo idx X st rule: less_induct)
  case less
  note p = less.prems
  show ?case
  proof (cases "i < len")
    case False
    then show ?thesis using p by (subst canon_intervals.simps) (simp add: cr_set_def)
  next
    case True
    then have i2: "i + 2 \<le> len" using p(3) by presburger
    define s e where "s = pt ! i" and "e = pt ! (i + 1)"
    have sl: "slice i len pt = s # e # slice (i + 2) len pt" and r: "rd pt i = Some s" "rd pt (i + 1) = Some e"
      using p(1) i2 by (simp_all add: slice_Suc rd_def s_def e_def)
    let ?r = "slice (i + 2) len pt"
    have so: "s < e" "\<forall>w \<in> set ?r. e < w" "sorted_wrt (<) ?r" using p(4) sl by auto
    have set: "cr_set (slice i len pt) = {s..<e} \<union> cr_set ?r"
    proof -
      have "cnt c ?r = 0" if "c < e" for c using so(2) that by (auto simp: cnt_def filter_empty_conv not_le)
      then show ?thesis using so(1) unfolding sl cr_set_def by (auto simp: not_le)
    qed
    have uu: "uint ` {s..<e} = {uint s..<uint e}" using uint_interval [of "uint s" "uint e"] so(1) uint_lt2p [of e] by (simp add: word_less_def)
    have ch: "ok (canon_chars ra u (uint s) (uint e) idx st) (\<lambda>(idx', st'). idx_ok idx' (uint e) \<and> canon_inv ra u (X \<union> {uint s..<uint e}) st')"
    proof (rule canon_chars_ok)
      show "uint s \<le> uint e" using so(1) by (simp add: word_less_def)
      show "\<forall>x. uint s \<le> x \<and> x < uint e \<longrightarrow> x \<in> case_changed (fold_kind u)"
      proof (intro allI impI)
        fix x assume "uint s \<le> x \<and> x < uint e"
        then have "x \<in> uint ` {s..<e}" unfolding uu by simp
        then show "x \<in> case_changed (fold_kind u)" using p(5) set by auto
      qed
      show "idx_ok idx (uint s)" using p(7,8) sl idx_ok_mono by auto
      show "X \<subseteq> {..<uint s}" using p(6,7) sl by force
    qed (fact p(9))
    then obtain idx' st' where c: "canon_chars ra u (uint s) (uint e) idx st = Some (idx', st')" "idx_ok idx' (uint e)"
      "canon_inv ra u (X \<union> {uint s..<uint e}) st'" by (auto elim!: okE)
    have "X \<union> {uint s..<uint e} \<subseteq> {..<uint e}" using p(6,7) sl so(1) by (force simp: word_less_def)
    then have "ok (canon_intervals ra u pt len (i + 2) idx' st') (\<lambda>(idx', st'). canon_inv ra u ((X \<union> {uint s..<uint e}) \<union> uint ` cr_set ?r) st')"
      using True i2 p c(2,3) so set by (intro less.hyps [of _ _ "uint e"]) (auto simp: word_less_def intro: less_imp_le)
    moreover have "X \<union> uint ` cr_set (slice i len pt) = (X \<union> {uint s..<uint e}) \<union> uint ` cr_set ?r"
      unfolding set image_Un uu by auto
    ultimately show ?thesis using True r c(1) by (subst canon_intervals.simps) simp
  qed
qed

end

section \<open>The whole operation\<close>

lemma no_last_point: "cr_wf cr \<Longrightarrow> even (cr_len cr) \<Longrightarrow> c \<in> cr_set (cr_pts cr) \<Longrightarrow> c \<noteq> -1"
  using cnt_all [of "cr_pts cr" c] length_cr_pts [of cr] by (auto simp: cr_set_def)

lemma canon_unchanged_image: "0 \<le> c \<Longrightarrow> c \<notin> case_changed (fold_kind u) \<Longrightarrow> canon u c = c"
  by (simp add: canonicalize_unchanged)

lemma fold_kinds: "case_kinds (if u then CASE_F else CASE_U) = {fold_kind u}"
  by (auto simp: case_kinds_def has_bit_def)

context cr_alloc
begin

lemma cr_free_ok: "\<exists>m'. cr_free ra m cr = Some m'"
  using ra_total [of m "cr_points cr" 0] by (auto simp: cr_free_def)

lemma canon_exit_ok: "\<exists>m'. canon_exit ra a b c d ret m cr = Some (m', cr, ret)"
proof -
  obtain m1 where 1: "cr_free ra m a = Some m1" using cr_free_ok by blast
  obtain m2 where 2: "cr_free ra m1 b = Some m2" using cr_free_ok by blast
  obtain m3 where 3: "cr_free ra m2 c = Some m3" using cr_free_ok by blast
  obtain m4 where "cr_free ra m3 d = Some m4" using cr_free_ok by blast
  then show ?thesis using 1 2 3 by (simp add: canon_exit_def)
qed

text \<open>\<open>cr_op\<close> on the points of two ranges.\<close>

lemma cr_op_ranges:
  assumes "cr_wf a" "cr_wf b" "sorted (cr_pts a)" "sorted (cr_pts b)" "even (cr_len a)" "even (cr_len b)" "cr_wf cr" "cr_len cr = 0"
    and "cr_len a + cr_len b \<le> 2 ^ 28"
  shows "ok (cr_op ra m cr (blk (cr_points a)) (cr_len a) (blk (cr_points b)) (cr_len b) opr) (\<lambda>(m', cr', r). cr_wf cr' \<and>
    (r = 0 \<and> cr_normal (cr_pts cr') \<and> cr_len cr' \<le> cr_len a + cr_len b
       \<and> cr_set (cr_pts cr') = {c. is_in opr (c \<in> cr_set (cr_pts a)) (c \<in> cr_set (cr_pts b))} \<or> r = -1 \<and> \<not> never_refuses ra))"
proof -
  have l: "cr_len a \<le> length (blk (cr_points a))" "cr_len b \<le> length (blk (cr_points b))" using assms(1,2) by (auto simp: cr_wf_def)
  have s: "take (cr_len a) (blk (cr_points a)) = cr_pts a" "take (cr_len b) (blk (cr_points b)) = cr_pts b" by (simp_all add: cr_pts_def)
  obtain m' cr' r where g: "cr_op ra m cr (blk (cr_points a)) (cr_len a) (blk (cr_points b)) (cr_len b) opr = Some (m', cr', r)" "cr_wf cr'"
    "r = 0 \<and> cr_normal (cr_pts cr') \<and> length (cr_pts cr') \<le> cr_len a + cr_len b
       \<and> cr_set (cr_pts cr') = {c. is_in opr (c \<in> cr_set (cr_pts a)) (c \<in> cr_set (cr_pts b))} \<or> r = -1"
    using cr_op_ok [OF l, unfolded s, OF assms(3-9), of m opr] by (auto elim!: okE)
  then have "r = -1 \<Longrightarrow> \<not> never_refuses ra" using cr_op_granted by fastforce
  then show ?thesis using g length_cr_pts [OF g(2)] by auto
qed

lemma canon_result_ok:
  assumes "cr_wf cr" "cr_normal (cr_pts cr)" "\<forall>w \<in> cr_set (cr_pts cr). uint w \<in> case_changed (fold_kind u)"
  shows "ok (canon_result ra m cr u) (\<lambda>(m', cr', r). result_wf cr' \<and> cr_len cr' \<le> 2 ^ 22 \<and>
    (r = 0 \<and> canon_pts cr' \<subseteq> canon u ` uint ` cr_set (cr_pts cr)
       \<and> (never_refuses ra \<longrightarrow> canon_pts cr' = canon u ` uint ` cr_set (cr_pts cr)) \<or> r = -1 \<and> \<not> never_refuses ra))"
proof -
  let ?X = "uint ` cr_set (cr_pts cr)"
  have sl: "slice 0 (cr_len cr) (blk (cr_points cr)) = cr_pts cr" by (simp add: slice_def cr_pts_def)
  have "canon_inv ra u {} (m, cr_init, 0xffffffff, 0xffffffff)" by (simp add: canon_inv_def result_wf_def)
  then obtain idx m1 cr1 ds de where c: "canon_intervals ra u (blk (cr_points cr)) (cr_len cr) 0 0 (m, cr_init, 0xffffffff, 0xffffffff)
      = Some (idx, m1, cr1, ds, de)" and i: "canon_inv ra u ?X (m1, cr1, ds, de)"
    using canon_intervals_ok [of "cr_len cr" "blk (cr_points cr)" 0 u "{}" 0 0 "(m, cr_init, 0xffffffff, 0xffffffff)"]
      assms length_cr_pts [OF assms(1)] by (auto simp: sl cr_wf_def cr_normal_def idx_ok_def elim!: okE)
  have "card ?X \<le> card {0..<2 ^ 20 :: int}" using i by (intro card_mono) (auto simp: canon_inv_def)
  then have l: "cr_len cr1 \<le> 2 ^ 21" "result_wf cr1" using i by (auto simp: canon_inv_def)
  show ?thesis
  proof (cases "ds = 0xffffffff")
    case True
    then have "?X = {}" "cr_pts cr1 = []" using i by (auto simp: canon_inv_def)
    then show ?thesis using c True l by (simp add: canon_result_def canon_pts_def)
  next
    case False
    then have d: "0 \<le> ds" "ds < de" "de < 2 ^ 32" "canon_pts cr1 \<union> {ds..<de} \<subseteq> canon u ` ?X"
      "never_refuses ra \<longrightarrow> canon_pts cr1 \<union> {ds..<de} = canon u ` ?X" using i by (auto simp: canon_inv_def)
    have "ok (cr_add_interval ra m1 cr1 (w32 ds) (w32 de)) (\<lambda>(m', cr', r). result_wf cr' \<and> cr_len cr' \<le> cr_len cr1 + 2
      \<and> (r = 0 \<and> canon_pts cr' = canon_pts cr1 \<union> {ds..<de} \<or> r = -1 \<and> canon_pts cr' = canon_pts cr1 \<and> \<not> never_refuses ra))"
      using l by (intro result_add [OF l(2) _ d(1-3)]) simp
    then show ?thesis using c False d(4,5) l(1) by (auto simp: canon_result_def elim!: ok_mono)
  qed
qed

end

text \<open>A normalised range with the code points \<open>S\<close>.\<close>

definition holds_set :: "CharRange \<Rightarrow> u32 set \<Rightarrow> bool" where
  "holds_set cr S \<longleftrightarrow> cr_wf cr \<and> cr_normal (cr_pts cr) \<and> cr_len cr \<le> 2 ^ 27 \<and> cr_set (cr_pts cr) = S"

lemma holds_setD:
  assumes "holds_set cr S"
  shows "cr_wf cr" "cr_normal (cr_pts cr)" "cr_len cr \<le> 2 ^ 27" "cr_set (cr_pts cr) = S" "sorted (cr_pts cr)" "even (cr_len cr)"
  using assms length_cr_pts [of cr] by (auto simp: holds_set_def cr_normal_def strict_sorted_imp_sorted)

text \<open>The specification of the whole operation.\<close>

definition canonicalized :: "'m cr_realloc_f \<Rightarrow> bool \<Rightarrow> CharRange \<Rightarrow> 'm \<times> CharRange \<times> int \<Rightarrow> bool" where
  "canonicalized ra u cr = (\<lambda>(m', cr', r). cr_wf cr' \<and>
     (r = 0 \<and> cr_normal (cr_pts cr') \<and> uint ` cr_set (cr_pts cr') \<subseteq> canon u ` uint ` cr_set (cr_pts cr)
        \<and> (never_refuses ra \<longrightarrow> uint ` cr_set (cr_pts cr') = canon u ` uint ` cr_set (cr_pts cr))
      \<or> r = -1 \<and> \<not> never_refuses ra))"

context cr_alloc
begin

text \<open>A call that may fail, with the exit through \<open>fail\<close>.\<close>

lemma canon_step:
  assumes "cr_wf cr" "ok call (\<lambda>(m', x, r :: int). r = 0 \<and> P x \<or> r = -1 \<and> \<not> never_refuses ra)"
    and "\<And>m x. \<exists>m'. exit m x = Some (m', cr, -1)" "\<And>m x. P x \<Longrightarrow> ok (k m x) (canonicalized ra u cr)"
  shows "ok (call \<bind> (\<lambda>(m, x, r). if r \<noteq> 0 then exit m x else k m x)) (canonicalized ra u cr)"
proof -
  obtain m x r where c: "call = Some (m, x, r)" "r = 0 \<and> P x \<or> r = -1 \<and> \<not> never_refuses ra" using assms(2) by (auto elim!: okE)
  then show ?thesis using assms(1) assms(3) [of m x] assms(4) [of x m] by (auto simp: canonicalized_def)
qed

lemma canon_last:
  assumes cr: "cr_wf cr" "cr_len cr' = 0" "cr_wf cr'" and res: "result_wf cr_result" "cr_len cr_result \<le> 2 ^ 22"
    and sub: "cr_wf cr_sub" "cr_normal (cr_pts cr_sub)" "cr_len cr_sub \<le> 2 ^ 27"
    and set: "canon_pts cr_result \<union> uint ` cr_set (cr_pts cr_sub) \<subseteq> canon u ` uint ` cr_set (cr_pts cr)"
      "never_refuses ra \<longrightarrow> canon_pts cr_result \<union> uint ` cr_set (cr_pts cr_sub) = canon u ` uint ` cr_set (cr_pts cr)"
  shows "ok (do {
     cr_result \<leftarrow> cr_sort_and_remove_overlap cr_result;
     (m, cr, r) \<leftarrow> cr_op ra m cr' (blk (cr_points cr_result)) (cr_len cr_result)
        (blk (cr_points cr_sub)) (cr_len cr_sub) CR_OP_UNION;
     canon_exit ra cr_inter cr_mask cr_result cr_sub (if r \<noteq> 0 then -1 else 0) m cr }) (canonicalized ra u cr)"
proof -
  have ev: "even (cr_len cr_sub)" "sorted (cr_pts cr_sub)" using sub length_cr_pts [OF sub(1)] by (auto simp: cr_normal_def strict_sorted_imp_sorted)
  obtain s where s: "cr_sort_and_remove_overlap cr_result = Some s" "cr_wf s" "cr_normal (cr_pts s)"
    "cr_set (cr_pts s) = iset (pair_up (cr_pts cr_result))" "cr_len s \<le> cr_len cr_result"
    using cr_sort_ok [of cr_result] res(1) by (auto simp: result_wf_def elim!: okE)
  have es: "even (cr_len s)" "sorted (cr_pts s)" using s(2,3) length_cr_pts [OF s(2)] by (auto simp: cr_normal_def strict_sorted_imp_sorted)
  obtain m' cr'' r where g: "cr_op ra m cr' (blk (cr_points s)) (cr_len s) (blk (cr_points cr_sub)) (cr_len cr_sub) CR_OP_UNION = Some (m', cr'', r)"
    "cr_wf cr''" "r = 0 \<and> cr_normal (cr_pts cr'')
       \<and> cr_set (cr_pts cr'') = {c. is_in CR_OP_UNION (c \<in> cr_set (cr_pts s)) (c \<in> cr_set (cr_pts cr_sub))} \<or> r = -1 \<and> \<not> never_refuses ra"
    using cr_op_ranges [OF s(2) sub(1) es(2) ev(2) es(1) ev(1) cr(3,2), of m CR_OP_UNION] s(5) res(2) sub(3) by (auto elim!: okE)
  have "uint ` cr_set (cr_pts cr'') = canon_pts cr_result \<union> uint ` cr_set (cr_pts cr_sub)" if "r = 0"
    using g(3) that s(4) by (auto simp: canon_pts_def)
  moreover obtain m'' where "canon_exit ra cr_inter cr_mask s cr_sub (if r \<noteq> 0 then -1 else 0) m' cr'' = Some (m'', cr'', if r \<noteq> 0 then -1 else 0)"
    using canon_exit_ok by blast
  ultimately show ?thesis using s(1) g set by (cases "r = 0") (auto simp: canonicalized_def)
qed

lemma mask_built:
  "ok (unicode_case1 ra (if u then CASE_F else CASE_U) m cr_init) (built ra (case_changed (fold_kind u)))"
  using unicode_case1_built [of cr_init "if u then CASE_F else CASE_U" m] fold_kinds [of u] by simp

lemma image_split:
  assumes "\<And>c. c \<in> I \<longleftrightarrow> c \<in> S \<and> uint c \<in> case_changed (fold_kind u)" "\<And>c. c \<in> R \<longleftrightarrow> c \<in> S \<and> uint c \<notin> case_changed (fold_kind u)"
  shows "canon u ` uint ` S = canon u ` uint ` I \<union> uint ` R"
proof -
  have "canon u (uint c) = uint c" if "c \<in> R" for c using assms(2) that by (intro canon_unchanged_image) auto
  then have "uint ` R = canon u ` uint ` R" by (force simp: image_image)
  moreover have "S = I \<union> R" using assms by blast
  ultimately show ?thesis by (simp add: image_Un)
qed

lemma inter_holds:
  assumes "cr_wf a" "sorted (cr_pts a)" "even (cr_len a)" "cr_len a \<le> 2 ^ 26 + 2"
    and cr: "cr_wf cr" "sorted (cr_pts cr)" "even (cr_len cr)" "cr_len cr \<le> 2 ^ 26 - 2"
  shows "ok (cr_op ra m cr_init (blk (cr_points a)) (cr_len a) (blk (cr_points cr)) (cr_len cr) CR_OP_INTER)
    (\<lambda>(m', x, r). r = 0 \<and> holds_set x (cr_set (cr_pts a) \<inter> cr_set (cr_pts cr)) \<or> r = -1 \<and> \<not> never_refuses ra)"
  using cr_op_ranges [OF assms(1) cr(1) assms(2) cr(2) assms(3) cr(3), of cr_init m CR_OP_INTER] assms(4) cr(4)
  by (auto simp: holds_set_def elim!: ok_mono)

lemma invert_holds:
  assumes "cr_wf a" "sorted (cr_pts a)" "even (cr_len a)" "cr_len a \<le> 2 ^ 26"
  shows "ok (cr_invert ra m a) (\<lambda>(m', x, r). r = 0 \<and> holds_set x (- cr_set (cr_pts a) - {-1}) \<and> cr_len x \<le> 2 ^ 26 + 2
    \<or> r = -1 \<and> \<not> never_refuses ra)"
proof (rule okE [OF cr_invert_ok [OF assms(1-3), of m]])
  show "cr_len a \<le> 2 ^ 28" using assms(4) by simp
  fix t
  assume g: "cr_invert ra m a = Some t" and t: "case t of (m', x, r) \<Rightarrow> cr_wf x \<and> (r = 0 \<and> cr_normal (cr_pts x)
      \<and> cr_set (cr_pts x) = - cr_set (cr_pts a) - {-1} \<and> length (cr_pts x) \<le> cr_len a + 2 \<or> r = -1 \<and> cr_pts x = cr_pts a)"
  obtain m' x r where t': "t = (m', x, r)" by (cases t)
  have "r = -1 \<Longrightarrow> \<not> never_refuses ra" using cr_invert_granted [of ra m a m' x r] g t' by fastforce
  then show ?thesis using g t t' assms(4) length_cr_pts [of x] by (simp add: holds_set_def) linarith
qed

lemma canon_tail:
  assumes cr: "cr_wf cr" "even (cr_len cr)" and ci: "holds_set ci (K \<inter> cr_set (cr_pts cr))"
    and cs: "holds_set cs ((- K - {-1}) \<inter> cr_set (cr_pts cr))" and K: "\<forall>c. c \<in> K \<longleftrightarrow> uint c \<in> case_changed (fold_kind u)"
  shows "ok (canon_result ra m ci u \<bind> (\<lambda>(m, cr_result, r).
     if r \<noteq> 0 then canon_exit ra ci cm cr_result cs (-1) m cr else do {
     cr_result \<leftarrow> cr_sort_and_remove_overlap cr_result;
     (m, cr, r) \<leftarrow> cr_op ra m (cr\<lparr>cr_len := 0\<rparr>) (blk (cr_points cr_result)) (cr_len cr_result)
        (blk (cr_points cs)) (cr_len cs) CR_OP_UNION;
     canon_exit ra ci cm cr_result cs (if r \<noteq> 0 then -1 else 0) m cr })) (canonicalized ra u cr)"
proof (rule canon_step [OF cr(1) _ canon_exit_ok, where P = "\<lambda>x. result_wf x \<and> cr_len x \<le> 2 ^ 22
    \<and> canon_pts x \<subseteq> canon u ` uint ` cr_set (cr_pts ci) \<and> (never_refuses ra \<longrightarrow> canon_pts x = canon u ` uint ` cr_set (cr_pts ci))"])
  have "\<forall>w \<in> cr_set (cr_pts ci). uint w \<in> case_changed (fold_kind u)" using holds_setD(4) [OF ci] K by auto
  then show "ok (canon_result ra m ci u) (\<lambda>(m', x, r). r = 0 \<and> result_wf x \<and> cr_len x \<le> 2 ^ 22
      \<and> canon_pts x \<subseteq> canon u ` uint ` cr_set (cr_pts ci)
      \<and> (never_refuses ra \<longrightarrow> canon_pts x = canon u ` uint ` cr_set (cr_pts ci)) \<or> r = -1 \<and> \<not> never_refuses ra)"
    by (rule ok_mono [OF canon_result_ok [OF holds_setD(1,2) [OF ci]]]) auto
  fix m x
  assume x: "result_wf x \<and> cr_len x \<le> 2 ^ 22 \<and> canon_pts x \<subseteq> canon u ` uint ` cr_set (cr_pts ci)
    \<and> (never_refuses ra \<longrightarrow> canon_pts x = canon u ` uint ` cr_set (cr_pts ci))"
  have im: "canon u ` uint ` cr_set (cr_pts cr) = canon u ` uint ` cr_set (cr_pts ci) \<union> uint ` cr_set (cr_pts cs)"
    using holds_setD(4) [OF ci] holds_setD(4) [OF cs] K no_last_point [OF cr] by (intro image_split) auto
  have set: "canon_pts x \<union> uint ` cr_set (cr_pts cs) \<subseteq> canon u ` uint ` cr_set (cr_pts cr)"
    "never_refuses ra \<longrightarrow> canon_pts x \<union> uint ` cr_set (cr_pts cs) = canon u ` uint ` cr_set (cr_pts cr)"
    unfolding im using x by blast+
  have wf': "cr_len (cr\<lparr>cr_len := 0\<rparr>) = 0" "cr_wf (cr\<lparr>cr_len := 0\<rparr>)" "result_wf x" "cr_len x \<le> 2 ^ 22"
    using cr(1) x by (auto simp: cr_wf_def)
  show "ok (do {
     cr_result \<leftarrow> cr_sort_and_remove_overlap x;
     (m, cr, r) \<leftarrow> cr_op ra m (cr\<lparr>cr_len := 0\<rparr>) (blk (cr_points cr_result)) (cr_len cr_result)
        (blk (cr_points cs)) (cr_len cs) CR_OP_UNION;
     canon_exit ra ci cm cr_result cs (if r \<noteq> 0 then -1 else 0) m cr }) (canonicalized ra u cr)"
    by (rule canon_last [OF cr(1) wf' holds_setD(1-3) [OF cs] set])
qed

lemma built_cases:
  assumes "built ra S t"
  shows "case t of (m', x, r) \<Rightarrow> r = 0 \<and> built ra S (m, x, 0) \<or> r = -1 \<and> \<not> never_refuses ra"
proof -
  obtain m' x r where t: "t = (m', x, r)" by (cases t)
  show ?thesis
  proof (cases "r = 0")
    case True
    then show ?thesis using assms t by (simp add: built_def)
  next
    case False
    then show ?thesis using assms t unfolding built_def by simp
  qed
qed

lemma cr_regexp_canonicalize_ok:
  assumes cr: "cr_wf cr" "sorted (cr_pts cr)" "even (cr_len cr)" "cr_len cr \<le> 2 ^ 26 - 2"
  shows "ok (cr_regexp_canonicalize ra m cr u) (canonicalized ra u cr)"
proof -
  let ?S = "cr_set (cr_pts cr)"
  have 1: "ok (unicode_case1 ra (if u then CASE_F else CASE_U) m cr_init)
      (\<lambda>(m', x, r). r = 0 \<and> built ra (case_changed (fold_kind u)) (m, x, 0) \<or> r = -1 \<and> \<not> never_refuses ra)"
    by (rule ok_mono [OF mask_built]) (use built_cases in blast)
  show ?thesis
    unfolding cr_regexp_canonicalize_def
  proof (rule canon_step [OF cr(1) 1 canon_exit_ok], goal_cases)
    case (1 m cm)
    then have k: "cr_wf cm" "sorted (cr_pts cm)" "even (cr_len cm)" "cr_len cm \<le> 2 ^ 26"
      "\<forall>c. c \<in> cr_set (cr_pts cm) \<longleftrightarrow> uint c \<in> case_changed (fold_kind u)" by (auto simp: built_def)
    show ?case
    proof (rule canon_step [OF cr(1) inter_holds [OF k(1-3) _ cr] canon_exit_ok], goal_cases)
      case (2 m ci)
      show ?case
      proof (rule canon_step [OF cr(1) invert_holds [OF k(1-4)] canon_exit_ok], goal_cases)
        case (1 m inv)
        note v = holds_setD [OF conjunct1 [OF 1]]
        show ?case
        proof (rule canon_step [OF cr(1) inter_holds [OF v(1,5,6) _ cr] canon_exit_ok], goal_cases)
          case (2 m cs)
          then show ?case using canon_tail [OF cr(1,3) \<open>holds_set ci _\<close> _ k(5)] v(4) by simp
        qed (use 1 in simp)
      qed
    qed (use k(4) in simp)
  qed
qed

end

section \<open>Claims\<close>

text \<open>C28. \<open>cr_regexp_canonicalize\<close> on a sorted range, in both modes: the walk through the runs never reaches the end
  of the table (the assertion holds) and no access is out of bounds; when it returns 0 the result is
  normalised and holds only canonical forms of characters of the range, and all of them when no allocation is refused; it
  returns -1 only when an allocation is refused.\<close>

theorem cr_regexp_canonicalize_correct:
  assumes "cr_alloc ra" "cr_wf cr" "sorted (cr_pts cr)" "even (cr_len cr)" "cr_len cr \<le> 2 ^ 26 - 2"
  shows "\<exists>m' cr' r. cr_regexp_canonicalize ra m cr u = Some (m', cr', r) \<and>
    (r = 0 \<and> cr_normal (cr_pts cr') \<and> uint ` cr_set (cr_pts cr') \<subseteq> {d. \<exists>c \<in> cr_set (cr_pts cr). lre_canonicalize (uint c) u = Some d}
       \<and> (never_refuses ra \<longrightarrow> uint ` cr_set (cr_pts cr') = {d. \<exists>c \<in> cr_set (cr_pts cr). lre_canonicalize (uint c) u = Some d})
     \<or> r = -1 \<and> \<not> never_refuses ra)"
proof -
  have "lre_canonicalize (uint c) u = Some d \<longleftrightarrow> d = canon u (uint c)" for c :: u32 and d
    using lre_canonicalize_ok [of "uint c" u] uint_lt2p [of c] by (auto elim!: okE)
  then have "{d. \<exists>c \<in> cr_set (cr_pts cr). lre_canonicalize (uint c) u = Some d} = canon u ` uint ` cr_set (cr_pts cr)" by auto
  then show ?thesis using cr_alloc.cr_regexp_canonicalize_ok [OF assms, of m u] by (auto simp: canonicalized_def elim!: okE)
qed

theorem cr_regexp_canonicalize_correct_witness:
  "\<exists>m' cr'. cr_regexp_canonicalize granting_realloc 0 \<lparr>cr_len = 2, cr_size = 2, cr_points = Some [65, 66]\<rparr> True = Some (m', cr', 0) \<and>
    uint ` cr_set (cr_pts cr') = {d. \<exists>c \<in> cr_set [65, 66]. lre_canonicalize (uint c) True = Some d}"
  using cr_regexp_canonicalize_correct [OF granting_cr.cr_alloc_axioms, of "\<lparr>cr_len = 2, cr_size = 2, cr_points = Some [65, 66]\<rparr>" 0 True]
    granting_never_refuses
  by (auto simp: cr_wf_def cr_pts_def)

end
