(* ===== verification/UniProps.thy ===== *)
theory UniProps
  imports UniData
begin

text \<open>
  Tables of \<open>src/native/quickjs/libunicode-table.h\<close> for general categories and properties: the names, the
  runs of categories, the property tables and the table of all of them.  A name table holds the
  C string literals of the source, each with its terminator, and the terminator of the whole array.
\<close>

definition NUL :: char where
  "NUL = CHR 0x00"

definition c_names :: "string list \<Rightarrow> string" where
  "c_names es = concat (map (\<lambda>e. e @ [NUL]) es) @ [NUL]"

definition unicode_gc_name_table :: string where
  "unicode_gc_name_table = c_names [
    ''Cn,Unassigned'', ''Lu,Uppercase_Letter'', ''Ll,Lowercase_Letter'', ''Lt,Titlecase_Letter'',
    ''Lm,Modifier_Letter'', ''Lo,Other_Letter'', ''Mn,Nonspacing_Mark'', ''Mc,Spacing_Mark'', ''Me,Enclosing_Mark'',
    ''Nd,Decimal_Number,digit'', ''Nl,Letter_Number'', ''No,Other_Number'', ''Sm,Math_Symbol'',
    ''Sc,Currency_Symbol'', ''Sk,Modifier_Symbol'', ''So,Other_Symbol'', ''Pc,Connector_Punctuation'',
    ''Pd,Dash_Punctuation'', ''Ps,Open_Punctuation'', ''Pe,Close_Punctuation'', ''Pi,Initial_Punctuation'',
    ''Pf,Final_Punctuation'', ''Po,Other_Punctuation'', ''Zs,Space_Separator'', ''Zl,Line_Separator'',
    ''Zp,Paragraph_Separator'', ''Cc,Control,cntrl'', ''Cf,Format'', ''Cs,Surrogate'', ''Co,Private_Use'',
    ''LC,Cased_Letter'', ''L,Letter'', ''M,Mark,Combining_Mark'', ''N,Number'', ''S,Symbol'', ''P,Punctuation,punct'',
    ''Z,Separator'', ''C,Other'']"

definition unicode_gc_table_1 :: "int list" where
  "unicode_gc_table_1 = [
    0xfa, 0x18, 0x17, 0x56, 0xd, 0x56, 0x12, 0x13, 0x16, 0xc, 0x16, 0x11, 0x36, 0xe9, 0x2, 0x36, 0x4c, 0x36, 0xe1,
    0x12, 0x12, 0x16, 0x13, 0xe, 0x10, 0xe, 0xe2, 0x12, 0x12, 0xc, 0x13, 0xc, 0xfa, 0x19, 0x17, 0x16, 0x6d, 0xf, 0x16,
    0xe, 0xf, 0x5, 0x14, 0xc, 0x1b, 0xf, 0xe, 0xf, 0xc, 0x2b, 0xe, 0x2, 0x36, 0xe, 0xb, 0x5, 0x15, 0x4b, 0x16, 0xe1,
    0xf, 0xc, 0xc1, 0xe2, 0x10, 0xc, 0xe2, 0x0, 0xff, 0x30, 0x2, 0xff, 0x8, 0x2, 0xff, 0x27, 0xbf, 0x22, 0x21, 0x2,
    0x5f, 0x5f, 0x21, 0x22, 0x61, 0x2, 0x21, 0x2, 0x41, 0x42, 0x21, 0x2, 0x21, 0x2, 0x9f, 0x7f, 0x2, 0x5f, 0x5f, 0x21,
    0x2, 0x5f, 0x3f, 0x2, 0x5, 0x3f, 0x22, 0x65, 0x1, 0x3, 0x2, 0x1, 0x3, 0x2, 0x1, 0x3, 0x2, 0xff, 0x8, 0x2, 0xff,
    0xa, 0x2, 0x1, 0x3, 0x2, 0x5f, 0x21, 0x2, 0xff, 0x32, 0xa2, 0x21, 0x2, 0x21, 0x22, 0x5f, 0x41, 0x2, 0xff, 0x0,
    0xe2, 0x3c, 0x5, 0xe2, 0x13, 0xe4, 0xa, 0x6e, 0xe4, 0x4, 0xee, 0x6, 0x84, 0xce, 0x4, 0xe, 0x4, 0xee, 0x9, 0xe6,
    0x68, 0x7f, 0x4, 0xe, 0x3f, 0x20, 0x4, 0x42, 0x16, 0x1, 0x60, 0x2e, 0x1, 0x16, 0x41, 0x0, 0x1, 0x0, 0x21, 0x2,
    0xe1, 0x9, 0x0, 0xe1, 0x1, 0xe2, 0x1b, 0x3f, 0x2, 0x41, 0x42, 0xff, 0x10, 0x62, 0x3f, 0xc, 0x5f, 0x3f, 0x2, 0xe1,
    0x2b, 0xe2, 0x28, 0xff, 0x1a, 0xf, 0x86, 0x28, 0xff, 0x2f, 0xff, 0x6, 0x2, 0xff, 0x58, 0x0, 0xe1, 0x1e, 0x20, 0x4,
    0xb6, 0xe2, 0x21, 0x16, 0x11, 0x20, 0x2f, 0xd, 0x0, 0xe6, 0x25, 0x11, 0x6, 0x16, 0x26, 0x16, 0x26, 0x16, 0x6]"

definition unicode_gc_table_2 :: "int list" where
  "unicode_gc_table_2 = [
    0xe0, 0x0, 0xe5, 0x13, 0x60, 0x65, 0x36, 0xe0, 0x3, 0xbb, 0x4c, 0x36, 0xd, 0x36, 0x2f, 0xe6, 0x3, 0x16, 0x1b,
    0x56, 0xe5, 0x18, 0x4, 0xe5, 0x2, 0xe6, 0xd, 0xe9, 0x2, 0x76, 0x25, 0x6, 0xe5, 0x5b, 0x16, 0x5, 0xc6, 0x1b, 0xf,
    0xa6, 0x24, 0x26, 0xf, 0x66, 0x25, 0xe9, 0x2, 0x45, 0x2f, 0x5, 0xf6, 0x6, 0x0, 0x1b, 0x5, 0x6, 0xe5, 0x16, 0xe6,
    0x13, 0x20, 0xe5, 0x51, 0xe6, 0x3, 0x5, 0xe0, 0x6, 0xe9, 0x2, 0xe5, 0x19, 0xe6, 0x1, 0x24, 0xf, 0x56, 0x4, 0x20,
    0x6, 0x2d, 0xe5, 0xe, 0x66, 0x4, 0xe6, 0x1, 0x4, 0x46, 0x4, 0x86, 0x20, 0xf6, 0x7, 0x0, 0xe5, 0x11, 0x46, 0x20,
    0x16, 0x0, 0xe5, 0x3, 0x80, 0xe5, 0x10, 0xe, 0xa5, 0x0, 0x3b, 0xa0, 0xe6, 0x0, 0xe5, 0x21, 0x4, 0xe6, 0x10, 0x1b,
    0xe6, 0x18, 0x7, 0xe5, 0x2e, 0x6, 0x7, 0x6, 0x5, 0x47, 0xe6, 0x0, 0x67, 0x6, 0x27, 0x5, 0xc6, 0xe5, 0x2, 0x26,
    0x36, 0xe9, 0x2, 0x16, 0x4, 0xe5, 0x7, 0x6, 0x27, 0x0, 0xe5, 0x0, 0x20, 0x25, 0x20, 0xe5, 0xe, 0x0, 0xc5, 0x0,
    0x5, 0x40, 0x65, 0x20, 0x6, 0x5, 0x47, 0x66, 0x20, 0x27, 0x20, 0x27, 0x6, 0x5, 0xe0, 0x0, 0x7, 0x60, 0x25, 0x0,
    0x45, 0x26, 0x20, 0xe9, 0x2, 0x25, 0x2d, 0xab, 0xf, 0xd, 0x5, 0x16, 0x6, 0x20, 0x26, 0x7, 0x0, 0xa5, 0x60, 0x25,
    0x20, 0xe5, 0xe, 0x0, 0xc5, 0x0, 0x25, 0x0, 0x25, 0x0, 0x25, 0x20, 0x6, 0x0, 0x47, 0x26, 0x60, 0x26, 0x20, 0x46,
    0x40, 0x6, 0xc0, 0x65, 0x0, 0x5, 0xc0, 0xe9, 0x2, 0x26, 0x45, 0x6, 0x16, 0xe0, 0x2, 0x26, 0x7, 0x0, 0xe5, 0x1, 0x0]"

definition unicode_gc_table_3 :: "int list" where
  "unicode_gc_table_3 = [
    0x45, 0x0, 0xe5, 0xe, 0x0, 0xc5, 0x0, 0x25, 0x0, 0x85, 0x20, 0x6, 0x5, 0x47, 0x86, 0x0, 0x26, 0x7, 0x0, 0x27, 0x6,
    0x20, 0x5, 0xe0, 0x7, 0x25, 0x26, 0x20, 0xe9, 0x2, 0x16, 0xd, 0xc0, 0x5, 0xa6, 0x0, 0x6, 0x27, 0x0, 0xe5, 0x0,
    0x20, 0x25, 0x20, 0xe5, 0xe, 0x0, 0xc5, 0x0, 0x25, 0x0, 0x85, 0x20, 0x6, 0x5, 0x7, 0x6, 0x7, 0x66, 0x20, 0x27,
    0x20, 0x27, 0x6, 0xc0, 0x26, 0x7, 0x60, 0x25, 0x0, 0x45, 0x26, 0x20, 0xe9, 0x2, 0xf, 0x5, 0xab, 0xe0, 0x2, 0x6,
    0x5, 0x0, 0xa5, 0x40, 0x45, 0x0, 0x65, 0x40, 0x25, 0x0, 0x5, 0x0, 0x25, 0x40, 0x25, 0x40, 0x45, 0x40, 0xe5, 0x4,
    0x60, 0x27, 0x6, 0x27, 0x40, 0x47, 0x0, 0x47, 0x6, 0x20, 0x5, 0xa0, 0x7, 0xe0, 0x6, 0xe9, 0x2, 0x4b, 0xaf, 0xd,
    0xf, 0x80, 0x6, 0x47, 0x6, 0xe5, 0x0, 0x0, 0x45, 0x0, 0xe5, 0xf, 0x0, 0xe5, 0x8, 0x20, 0x6, 0x5, 0x46, 0x67, 0x0,
    0x46, 0x0, 0x66, 0xc0, 0x26, 0x0, 0x45, 0x20, 0x5, 0x20, 0x25, 0x26, 0x20, 0xe9, 0x2, 0xc0, 0x16, 0xcb, 0xf, 0x5,
    0x6, 0x27, 0x16, 0xe5, 0x0, 0x0, 0x45, 0x0, 0xe5, 0xf, 0x0, 0xe5, 0x2, 0x0, 0x85, 0x20, 0x6, 0x5, 0x7, 0x6, 0x87,
    0x0, 0x6, 0x27, 0x0, 0x27, 0x26, 0xc0, 0x27, 0xa0, 0x25, 0x0, 0x25, 0x26, 0x20, 0xe9, 0x2, 0x0, 0x25, 0x7, 0xe0,
    0x4, 0x26, 0x27, 0xe5, 0x1, 0x0, 0x45, 0x0, 0xe5, 0x21, 0x26, 0x5, 0x47, 0x66, 0x0, 0x47, 0x0, 0x47, 0x6, 0x5,
    0xf, 0x60, 0x45, 0x7, 0xcb, 0x45, 0x26, 0x20, 0xe9, 0x2, 0xeb, 0x1, 0xf, 0xa5, 0x0, 0x6, 0x27]"

definition unicode_gc_table_4 :: "int list" where
  "unicode_gc_table_4 = [
    0x0, 0xe5, 0xa, 0x40, 0xe5, 0x10, 0x0, 0xe5, 0x1, 0x0, 0x5, 0x20, 0xc5, 0x40, 0x6, 0x60, 0x47, 0x46, 0x0, 0x6,
    0x0, 0xe7, 0x0, 0xa0, 0xe9, 0x2, 0x20, 0x27, 0x16, 0xe0, 0x4, 0xe5, 0x28, 0x6, 0x25, 0xc6, 0x60, 0xd, 0xa5, 0x4,
    0xe6, 0x0, 0x16, 0xe9, 0x2, 0x36, 0xe0, 0x1d, 0x25, 0x0, 0x5, 0x0, 0x85, 0x0, 0xe5, 0x10, 0x0, 0x5, 0x0, 0xe5,
    0x2, 0x6, 0x25, 0xe6, 0x1, 0x5, 0x20, 0x85, 0x0, 0x4, 0x0, 0xc6, 0x0, 0xe9, 0x2, 0x20, 0x65, 0xe0, 0x18, 0x5,
    0x4f, 0xf6, 0x7, 0xf, 0x16, 0x4f, 0x26, 0xaf, 0xe9, 0x2, 0xeb, 0x2, 0xf, 0x6, 0xf, 0x6, 0xf, 0x6, 0x12, 0x13,
    0x12, 0x13, 0x27, 0xe5, 0x0, 0x0, 0xe5, 0x1c, 0x60, 0xe6, 0x6, 0x7, 0x86, 0x16, 0x26, 0x85, 0xe6, 0x3, 0x0, 0xe6,
    0x1c, 0x0, 0xef, 0x0, 0x6, 0xaf, 0x0, 0x2f, 0x96, 0x6f, 0x36, 0xe0, 0x1d, 0xe5, 0x23, 0x27, 0x66, 0x7, 0xa6, 0x7,
    0x26, 0x27, 0x26, 0x5, 0xe9, 0x2, 0xb6, 0xa5, 0x27, 0x26, 0x65, 0x46, 0x5, 0x47, 0x25, 0xc7, 0x45, 0x66, 0xe5,
    0x5, 0x6, 0x27, 0x26, 0xa7, 0x6, 0x5, 0x7, 0xe9, 0x2, 0x47, 0x6, 0x2f, 0xe1, 0x1e, 0x0, 0x1, 0x80, 0x1, 0x20,
    0xe2, 0x23, 0x16, 0x4, 0x42, 0xe5, 0x80, 0xc1, 0x0, 0x65, 0x20, 0xc5, 0x0, 0x5, 0x0, 0x65, 0x20, 0xe5, 0x21, 0x0,
    0x65, 0x20, 0xe5, 0x19, 0x0, 0x65, 0x20, 0xc5, 0x0, 0x5, 0x0, 0x65, 0x20, 0xe5, 0x7, 0x0, 0xe5, 0x31, 0x0, 0x65,
    0x20, 0xe5, 0x3b, 0x20, 0x46, 0xf6, 0x1, 0xeb, 0xc, 0x40, 0xe5, 0x8, 0xef, 0x2, 0xa0, 0xe1, 0x4e, 0x20, 0xa2,
    0x20, 0x11]"

definition unicode_gc_table_5 :: "int list" where
  "unicode_gc_table_5 = [
    0xe5, 0x81, 0xe4, 0xf, 0x16, 0xe5, 0x9, 0x17, 0xe5, 0x12, 0x12, 0x13, 0x40, 0xe5, 0x43, 0x56, 0x4a, 0xe5, 0x0,
    0xc0, 0xe5, 0xa, 0x46, 0x7, 0xe0, 0x1, 0xe5, 0xb, 0x26, 0x7, 0x36, 0xe0, 0x1, 0xe5, 0xa, 0x26, 0xe0, 0x4, 0xe5,
    0x5, 0x0, 0x45, 0x0, 0x26, 0xe0, 0x4, 0xe5, 0x2c, 0x26, 0x7, 0xc6, 0xe7, 0x0, 0x6, 0x27, 0xe6, 0x3, 0x56, 0x4,
    0x56, 0xd, 0x5, 0x6, 0x20, 0xe9, 0x2, 0xa0, 0xeb, 0x2, 0xa0, 0xb6, 0x11, 0x76, 0x46, 0x1b, 0x6, 0xe9, 0x2, 0xa0,
    0xe5, 0x1b, 0x4, 0xe5, 0x2d, 0xc0, 0x85, 0x26, 0xe5, 0x1a, 0x6, 0x5, 0x80, 0xe5, 0x3e, 0xe0, 0x2, 0xe5, 0x17, 0x0,
    0x46, 0x67, 0x26, 0x47, 0x60, 0x27, 0x6, 0xa7, 0x46, 0x60, 0xf, 0x40, 0x36, 0xe9, 0x2, 0xe5, 0x16, 0x20, 0x85,
    0xe0, 0x3, 0xe5, 0x24, 0x60, 0xe5, 0x12, 0xa0, 0xe9, 0x2, 0xb, 0x40, 0xef, 0x1a, 0xe5, 0xf, 0x26, 0x27, 0x6, 0x20,
    0x36, 0xe5, 0x2d, 0x7, 0x6, 0x7, 0xc6, 0x0, 0x6, 0x7, 0x6, 0x27, 0xe6, 0x0, 0xa7, 0xe6, 0x2, 0x20, 0x6, 0xe9, 0x2,
    0xa0, 0xe9, 0x2, 0xa0, 0xd6, 0x4, 0xb6, 0x20, 0xe6, 0x6, 0x8, 0xe6, 0x8, 0xe0, 0x29, 0x66, 0x7, 0xe5, 0x27, 0x6,
    0x7, 0x86, 0x7, 0x6, 0x87, 0x6, 0x27, 0xe5, 0x0, 0x40, 0xe9, 0x2, 0xd6, 0xef, 0x2, 0xe6, 0x1, 0xef, 0x1, 0x36,
    0x0, 0x26, 0x7, 0xe5, 0x16, 0x7, 0x66, 0x27, 0x26, 0x7, 0x46, 0x25, 0xe9, 0x2, 0xe5, 0x24, 0x6, 0x7, 0x26, 0x47,
    0x6, 0x7, 0x46, 0x27, 0xe0, 0x0, 0x76, 0xe5, 0x1c, 0xe7, 0x0, 0xe6, 0x0, 0x27, 0x26, 0x40, 0x96, 0xe9, 0x2, 0x40,
    0x45]"

definition unicode_gc_table_6 :: "int list" where
  "unicode_gc_table_6 = [
    0xe9, 0x2, 0xe5, 0x16, 0xa4, 0x36, 0xe2, 0x1, 0xc0, 0xe1, 0x23, 0x20, 0x41, 0xf6, 0x0, 0xe0, 0x0, 0x46, 0x16,
    0xe6, 0x5, 0x7, 0xc6, 0x65, 0x6, 0xa5, 0x6, 0x25, 0x7, 0x26, 0x5, 0x80, 0xe2, 0x24, 0xe4, 0x37, 0xe2, 0x5, 0x4,
    0xe2, 0x1a, 0xe4, 0x1d, 0xe6, 0x38, 0xff, 0x80, 0xe, 0xe2, 0x0, 0xff, 0x5a, 0xe2, 0x0, 0xe1, 0x0, 0xa2, 0x20,
    0xa1, 0x20, 0xe2, 0x0, 0xe1, 0x0, 0xe2, 0x0, 0xe1, 0x0, 0xa2, 0x20, 0xa1, 0x20, 0xe2, 0x0, 0x0, 0x1, 0x0, 0x1,
    0x0, 0x1, 0x0, 0x3f, 0xc2, 0xe1, 0x0, 0xe2, 0x6, 0x20, 0xe2, 0x0, 0xe3, 0x0, 0xe2, 0x0, 0xe3, 0x0, 0xe2, 0x0,
    0xe3, 0x0, 0x82, 0x0, 0x22, 0x61, 0x3, 0xe, 0x2, 0x4e, 0x42, 0x0, 0x22, 0x61, 0x3, 0x4e, 0x62, 0x20, 0x22, 0x61,
    0x0, 0x4e, 0xe2, 0x0, 0x81, 0x4e, 0x20, 0x42, 0x0, 0x22, 0x61, 0x3, 0x2e, 0x0, 0xf7, 0x3, 0x9b, 0xb1, 0x36, 0x14,
    0x15, 0x12, 0x34, 0x15, 0x12, 0x14, 0xf6, 0x0, 0x18, 0x19, 0x9b, 0x17, 0xf6, 0x1, 0x14, 0x15, 0x76, 0x30, 0x56,
    0xc, 0x12, 0x13, 0xf6, 0x3, 0xc, 0x16, 0x10, 0xf6, 0x2, 0x17, 0x9b, 0x0, 0xfb, 0x2, 0xb, 0x4, 0x20, 0xab, 0x4c,
    0x12, 0x13, 0x4, 0xeb, 0x2, 0x4c, 0x12, 0x13, 0x0, 0xe4, 0x5, 0x40, 0xed, 0x19, 0xe0, 0x7, 0xe6, 0x5, 0x68, 0x6,
    0x48, 0xe6, 0x4, 0xe0, 0x7, 0x2f, 0x1, 0x6f, 0x1, 0x2f, 0x2, 0x41, 0x22, 0x41, 0x2, 0xf, 0x1, 0x2f, 0xc, 0x81,
    0xaf, 0x1, 0xf, 0x1, 0xf, 0x1, 0xf, 0x61, 0xf, 0x2, 0x61, 0x2, 0x65, 0x2, 0x2f, 0x22, 0x21, 0x8c, 0x3f, 0x42, 0xf,
    0xc, 0x2f]"

definition unicode_gc_table_7 :: "int list" where
  "unicode_gc_table_7 = [
    0x2, 0xf, 0xeb, 0x8, 0xea, 0x1b, 0x3f, 0x6a, 0xb, 0x2f, 0x60, 0x8c, 0x8f, 0x2c, 0x6f, 0xc, 0x2f, 0xc, 0x2f, 0xc,
    0xcf, 0xc, 0xef, 0x17, 0x2c, 0x2f, 0xc, 0xf, 0xc, 0xef, 0x17, 0xec, 0x80, 0x84, 0xef, 0x0, 0x12, 0x13, 0x12, 0x13,
    0xef, 0xc, 0x2c, 0xcf, 0x12, 0x13, 0xef, 0x49, 0xc, 0xef, 0x16, 0xec, 0x11, 0xef, 0x20, 0xac, 0xef, 0x3d, 0xe0,
    0x11, 0xef, 0x3, 0xe0, 0xd, 0xeb, 0x34, 0xef, 0x46, 0xeb, 0xe, 0xef, 0x80, 0x2f, 0xc, 0xef, 0x1, 0xc, 0xef, 0x2e,
    0xec, 0x0, 0xef, 0x67, 0xc, 0xef, 0x80, 0x70, 0x12, 0x13, 0x12, 0x13, 0x12, 0x13, 0x12, 0x13, 0x12, 0x13, 0x12,
    0x13, 0x12, 0x13, 0xeb, 0x16, 0xef, 0x24, 0x8c, 0x12, 0x13, 0xec, 0x17, 0x12, 0x13, 0x12, 0x13, 0x12, 0x13, 0x12,
    0x13, 0x12, 0x13, 0xec, 0x8, 0xef, 0x80, 0x78, 0xec, 0x7b, 0x12, 0x13, 0x12, 0x13, 0x12, 0x13, 0x12, 0x13, 0x12,
    0x13, 0x12, 0x13, 0x12, 0x13, 0x12, 0x13, 0x12, 0x13, 0x12, 0x13, 0x12, 0x13, 0xec, 0x37, 0x12, 0x13, 0x12, 0x13,
    0xec, 0x18, 0x12, 0x13, 0xec, 0x80, 0x7a, 0xef, 0x28, 0xec, 0xd, 0x2f, 0xac, 0xef, 0x1f, 0x20, 0xef, 0x18, 0x0,
    0xef, 0x61, 0xe1, 0x28, 0xe2, 0x28, 0x5f, 0x21, 0x22, 0xdf, 0x41, 0x2, 0x3f, 0x2, 0x3f, 0x82, 0x24, 0x41, 0x2,
    0xff, 0x5a, 0x2, 0xaf, 0x7f, 0x46, 0x3f, 0x80, 0x76, 0xb, 0x36, 0xe2, 0x1e, 0x0, 0x2, 0x80, 0x2, 0x20, 0xe5, 0x30,
    0xc0, 0x4, 0x16, 0xe0, 0x6, 0x6, 0xe5, 0xf, 0xe0, 0x1, 0xc5, 0x0, 0xc5, 0x0, 0xc5, 0x0, 0xc5, 0x0, 0xc5, 0x0,
    0xc5, 0x0, 0xc5, 0x0, 0xc5, 0x0, 0xe6, 0x18, 0x36, 0x14, 0x15, 0x14, 0x15, 0x56, 0x14]"

definition unicode_gc_table_8 :: "int list" where
  "unicode_gc_table_8 = [
    0x15, 0x16, 0x14, 0x15, 0xf6, 0x1, 0x11, 0x36, 0x11, 0x16, 0x14, 0x15, 0x36, 0x14, 0x15, 0x12, 0x13, 0x12, 0x13,
    0x12, 0x13, 0x12, 0x13, 0x96, 0x4, 0xf6, 0x2, 0x31, 0x76, 0x11, 0x16, 0x12, 0xf6, 0x5, 0x2f, 0x56, 0x12, 0x13,
    0x12, 0x13, 0x12, 0x13, 0x12, 0x13, 0x11, 0xe0, 0x1a, 0xef, 0x12, 0x0, 0xef, 0x51, 0xe0, 0x4, 0xef, 0x80, 0x4e,
    0xe0, 0x12, 0xef, 0x4, 0x60, 0x17, 0x56, 0xf, 0x4, 0x5, 0xa, 0x12, 0x13, 0x12, 0x13, 0x12, 0x13, 0x12, 0x13, 0x12,
    0x13, 0x2f, 0x12, 0x13, 0x12, 0x13, 0x12, 0x13, 0x12, 0x13, 0x11, 0x12, 0x33, 0xf, 0xea, 0x1, 0x66, 0x27, 0x11,
    0x84, 0x2f, 0x4a, 0x4, 0x5, 0x16, 0x2f, 0x0, 0xe5, 0x4e, 0x20, 0x26, 0x2e, 0x24, 0x5, 0x11, 0xe5, 0x52, 0x16,
    0x44, 0x5, 0x80, 0xe5, 0x23, 0x0, 0xe5, 0x56, 0x0, 0x2f, 0x6b, 0xef, 0x2, 0xe5, 0x18, 0xef, 0x1c, 0xe0, 0x4, 0xe5,
    0x8, 0xef, 0x17, 0x0, 0xeb, 0x2, 0xef, 0x16, 0xeb, 0x0, 0xf, 0xeb, 0x7, 0xef, 0x18, 0xeb, 0x2, 0xef, 0x1f, 0xeb,
    0x7, 0xef, 0x80, 0xb8, 0xe5, 0x99, 0x38, 0xef, 0x38, 0xe5, 0xc0, 0x11, 0x8d, 0x4, 0xe5, 0x83, 0xef, 0x40, 0xef,
    0x2f, 0xe0, 0x1, 0xe5, 0x20, 0xa4, 0x36, 0xe5, 0x80, 0x84, 0x4, 0x56, 0xe5, 0x8, 0xe9, 0x2, 0x25, 0xe0, 0xc, 0xff,
    0x26, 0x5, 0x6, 0x48, 0x16, 0xe6, 0x2, 0x16, 0x4, 0xff, 0x14, 0x24, 0x26, 0xe5, 0x3e, 0xea, 0x2, 0x26, 0xb6, 0xe0,
    0x0, 0xee, 0xf, 0xe4, 0x1, 0x2e, 0xff, 0x6, 0x22, 0xff, 0x36, 0x4, 0xe2, 0x0, 0x9f, 0xff, 0x2, 0x4, 0x2e, 0x7f,
    0x5, 0x7f, 0x22, 0xff, 0xd, 0x61]"

definition unicode_gc_table_9 :: "int list" where
  "unicode_gc_table_9 = [
    0x2, 0x81, 0x2, 0xff, 0x7, 0x41, 0x2, 0x3f, 0x80, 0x3f, 0x0, 0x2, 0x0, 0x2, 0x7f, 0xe0, 0x10, 0x44, 0x3f, 0x5,
    0x24, 0x2, 0xc5, 0x6, 0x45, 0x6, 0x65, 0x6, 0xe5, 0xf, 0x27, 0x26, 0x7, 0x6f, 0x6, 0x40, 0xab, 0x2f, 0xd, 0xf,
    0xa0, 0xe5, 0x2c, 0x76, 0xe0, 0x0, 0x27, 0xe5, 0x2a, 0xe7, 0x8, 0x26, 0xe0, 0x0, 0x36, 0xe9, 0x2, 0xa0, 0xe6, 0xa,
    0xa5, 0x56, 0x5, 0x16, 0x25, 0x6, 0xe9, 0x2, 0xe5, 0x14, 0xe6, 0x0, 0x36, 0xe5, 0xf, 0xe6, 0x3, 0x27, 0xe0, 0x3,
    0x16, 0xe5, 0x15, 0x40, 0x46, 0x7, 0xe5, 0x27, 0x6, 0x27, 0x66, 0x27, 0x26, 0x47, 0xf6, 0x5, 0x0, 0x4, 0xe9, 0x2,
    0x60, 0x36, 0x85, 0x6, 0x4, 0xe5, 0x1, 0xe9, 0x2, 0x85, 0x0, 0xe5, 0x21, 0xa6, 0x27, 0x26, 0x27, 0x26, 0xe0, 0x1,
    0x45, 0x6, 0xe5, 0x0, 0x6, 0x7, 0x20, 0xe9, 0x2, 0x20, 0x76, 0xe5, 0x8, 0x4, 0xa5, 0x4f, 0x5, 0x7, 0x6, 0x7, 0xe5,
    0x2a, 0x6, 0x5, 0x46, 0x25, 0x26, 0x85, 0x26, 0x5, 0x6, 0x5, 0xe0, 0x10, 0x25, 0x4, 0x36, 0xe5, 0x3, 0x7, 0x26,
    0x27, 0x36, 0x5, 0x24, 0x7, 0x6, 0xe0, 0x2, 0xa5, 0x20, 0xa5, 0x20, 0xa5, 0xe0, 0x1, 0xc5, 0x0, 0xc5, 0x0, 0xe2,
    0x23, 0xe, 0x64, 0xe2, 0x1, 0x4, 0x2e, 0x60, 0xe2, 0x48, 0xe5, 0x1b, 0x27, 0x6, 0x27, 0x6, 0x27, 0x16, 0x7, 0x6,
    0x20, 0xe9, 0x2, 0xa0, 0xe5, 0xab, 0x1c, 0xe0, 0x4, 0xe5, 0xf, 0x60, 0xe5, 0x29, 0x60, 0xfc, 0x87, 0x78, 0xfd,
    0x98, 0x78, 0xe5, 0x80, 0xe6, 0x20, 0xe5, 0x62, 0xe0, 0x1e, 0xc2, 0xe0, 0x4, 0x82, 0x80, 0x5, 0x6, 0xe5, 0x2, 0xc]"

definition unicode_gc_table_10 :: "int list" where
  "unicode_gc_table_10 = [
    0xe5, 0x5, 0x0, 0x85, 0x0, 0x5, 0x0, 0x25, 0x0, 0x25, 0x0, 0xe5, 0x64, 0xee, 0x9, 0xe0, 0x8, 0xe5, 0x80, 0xe3,
    0x13, 0x12, 0xef, 0x8, 0xe5, 0x38, 0x20, 0xe5, 0x2e, 0xc0, 0xf, 0xe0, 0x18, 0xe5, 0x4, 0xd, 0x4f, 0xe6, 0x8, 0xd6,
    0x12, 0x13, 0x16, 0xa0, 0xe6, 0x8, 0x16, 0x31, 0x30, 0x12, 0x13, 0x12, 0x13, 0x12, 0x13, 0x12, 0x13, 0x12, 0x13,
    0x12, 0x13, 0x12, 0x13, 0x12, 0x13, 0x36, 0x12, 0x13, 0x76, 0x50, 0x56, 0x0, 0x76, 0x11, 0x12, 0x13, 0x12, 0x13,
    0x12, 0x13, 0x56, 0xc, 0x11, 0x4c, 0x0, 0x16, 0xd, 0x36, 0x60, 0x85, 0x0, 0xe5, 0x7f, 0x20, 0x1b, 0x0, 0x56, 0xd,
    0x56, 0x12, 0x13, 0x16, 0xc, 0x16, 0x11, 0x36, 0xe9, 0x2, 0x36, 0x4c, 0x36, 0xe1, 0x12, 0x12, 0x16, 0x13, 0xe,
    0x10, 0xe, 0xe2, 0x12, 0x12, 0xc, 0x13, 0xc, 0x12, 0x13, 0x16, 0x12, 0x13, 0x36, 0xe5, 0x2, 0x4, 0xe5, 0x25, 0x24,
    0xe5, 0x17, 0x40, 0xa5, 0x20, 0xa5, 0x20, 0xa5, 0x20, 0x45, 0x40, 0x2d, 0xc, 0xe, 0xf, 0x2d, 0x0, 0xf, 0x6c, 0x2f,
    0xe0, 0x2, 0x5b, 0x2f, 0x20, 0xe5, 0x4, 0x0, 0xe5, 0x12, 0x0, 0xe5, 0xb, 0x0, 0x25, 0x0, 0xe5, 0x7, 0x20, 0xe5,
    0x6, 0xe0, 0x1a, 0xe5, 0x73, 0x80, 0x56, 0x60, 0xeb, 0x25, 0x40, 0xef, 0x1, 0xea, 0x2d, 0x6b, 0xef, 0x9, 0x2b,
    0x4f, 0x0, 0xef, 0x5, 0x40, 0xf, 0xe0, 0x27, 0xef, 0x25, 0x6, 0xe0, 0x7a, 0xe5, 0x15, 0x40, 0xe5, 0x29, 0xe0, 0x7,
    0x6, 0xeb, 0x13, 0x60, 0xe5, 0x18, 0x6b, 0xe0, 0x1, 0xe5, 0xc, 0xa, 0xe5, 0x0, 0xa, 0x80, 0xe5, 0x1e, 0x86, 0x80,
    0xe5, 0x16, 0x0, 0x16]"

definition unicode_gc_table_11 :: "int list" where
  "unicode_gc_table_11 = [
    0xe5, 0x1c, 0x60, 0xe5, 0x0, 0x16, 0x8a, 0xe0, 0x22, 0xe1, 0x20, 0xe2, 0x20, 0xe5, 0x46, 0x20, 0xe9, 0x2, 0xa0,
    0xe1, 0x1c, 0x60, 0xe2, 0x1c, 0x60, 0xe5, 0x20, 0xe0, 0x0, 0xe5, 0x2c, 0xe0, 0x3, 0x16, 0xe1, 0x3, 0x0, 0xe1, 0x7,
    0x0, 0xc1, 0x0, 0x21, 0x0, 0xe2, 0x3, 0x0, 0xe2, 0x7, 0x0, 0xc2, 0x0, 0x22, 0xe0, 0x3b, 0xe5, 0x80, 0xaf, 0xe0,
    0x1, 0xe5, 0xe, 0xe0, 0x2, 0xe5, 0x0, 0xe0, 0x10, 0xa4, 0x0, 0xe4, 0x22, 0x0, 0xe4, 0x1, 0xe0, 0x3d, 0xa5, 0x20,
    0x5, 0x0, 0xe5, 0x24, 0x0, 0x25, 0x40, 0x5, 0x20, 0xe5, 0xf, 0x0, 0x16, 0xeb, 0x0, 0xe5, 0xf, 0x2f, 0xcb, 0xe5,
    0x17, 0xe0, 0x0, 0xeb, 0x1, 0xe0, 0x28, 0xe5, 0xb, 0x0, 0x25, 0x80, 0x8b, 0xe5, 0xe, 0xab, 0x40, 0x16, 0xe5, 0x12,
    0x80, 0x16, 0xe0, 0x38, 0xe5, 0x30, 0x60, 0x2b, 0x25, 0xeb, 0x8, 0x20, 0xeb, 0x26, 0x5, 0x46, 0x0, 0x26, 0x80,
    0x66, 0x65, 0x0, 0x45, 0x0, 0xe5, 0x15, 0x20, 0x46, 0x60, 0x6, 0xeb, 0x1, 0xc0, 0xf6, 0x1, 0xc0, 0xe5, 0x15, 0x2b,
    0x16, 0xe5, 0x15, 0x4b, 0xe0, 0x18, 0xe5, 0x0, 0xf, 0xe5, 0x14, 0x26, 0x60, 0x8b, 0xd6, 0xe0, 0x1, 0xe5, 0x2e,
    0x40, 0xd6, 0xe5, 0xe, 0x20, 0xeb, 0x0, 0xe5, 0xb, 0x80, 0xeb, 0x0, 0xe5, 0xa, 0xc0, 0x76, 0xe0, 0x4, 0xcb, 0xe0,
    0x48, 0xe5, 0x41, 0xe0, 0x2f, 0xe1, 0x2b, 0xe0, 0x5, 0xe2, 0x2b, 0xc0, 0xab, 0xe5, 0x1c, 0x66, 0xe0, 0x0, 0xe9,
    0x2, 0xe0, 0x80, 0x9e, 0xeb, 0x17, 0x0, 0xe5, 0x22, 0x0, 0x26, 0x11, 0x20, 0x25, 0xe0, 0x43, 0x46, 0xe5, 0x15,
    0xeb, 0x2, 0x5, 0xe0, 0x0]"

definition unicode_gc_table_12 :: "int list" where
  "unicode_gc_table_12 = [
    0xe5, 0xe, 0xe6, 0x3, 0x6b, 0x96, 0xe0, 0xe, 0xe5, 0xa, 0x66, 0x76, 0xe0, 0x1e, 0xe5, 0xd, 0xcb, 0xe0, 0xc, 0xe5,
    0xf, 0xe0, 0x1, 0x7, 0x6, 0x7, 0xe5, 0x2d, 0xe6, 0x7, 0xd6, 0x60, 0xeb, 0xc, 0xe9, 0x2, 0x6, 0x25, 0x26, 0x5,
    0xe0, 0x1, 0x46, 0x7, 0xe5, 0x25, 0x47, 0x66, 0x27, 0x26, 0x36, 0x1b, 0x76, 0x6, 0xe0, 0x2, 0x1b, 0x20, 0xe5,
    0x11, 0xc0, 0xe9, 0x2, 0xa0, 0x46, 0xe5, 0x1c, 0x86, 0x7, 0xe6, 0x0, 0x0, 0xe9, 0x2, 0x76, 0x5, 0x27, 0x5, 0xe0,
    0x0, 0xe5, 0x1b, 0x6, 0x36, 0x5, 0xe0, 0x1, 0x26, 0x7, 0xe5, 0x28, 0x47, 0xe6, 0x1, 0x27, 0x65, 0x76, 0x66, 0x16,
    0x7, 0x6, 0xe9, 0x2, 0x5, 0x16, 0x5, 0x56, 0x0, 0xeb, 0xc, 0xe0, 0x3, 0xe5, 0xa, 0x0, 0xe5, 0x11, 0x47, 0x46,
    0x27, 0x6, 0x7, 0x26, 0xb6, 0x6, 0x25, 0x6, 0xe0, 0x36, 0xc5, 0x0, 0x5, 0x0, 0x65, 0x0, 0xe5, 0x7, 0x0, 0xe5, 0x2,
    0x16, 0xa0, 0xe5, 0x27, 0x6, 0x47, 0xe6, 0x0, 0x80, 0xe9, 0x2, 0xa0, 0x26, 0x27, 0x0, 0xe5, 0x0, 0x20, 0x25, 0x20,
    0xe5, 0xe, 0x0, 0xc5, 0x0, 0x25, 0x0, 0x85, 0x0, 0x26, 0x5, 0x27, 0x6, 0x67, 0x20, 0x27, 0x20, 0x47, 0x20, 0x5,
    0xa0, 0x7, 0x80, 0x85, 0x27, 0x20, 0xc6, 0x40, 0x86, 0xe0, 0x80, 0x3, 0xe5, 0x2d, 0x47, 0xe6, 0x0, 0x27, 0x46,
    0x7, 0x6, 0x65, 0x96, 0xe9, 0x2, 0x36, 0x0, 0x16, 0x6, 0x45, 0xe0, 0x16, 0xe5, 0x28, 0x47, 0xa6, 0x7, 0x6, 0x67,
    0x26, 0x7, 0x26, 0x25, 0x16, 0x5, 0xe0, 0x0, 0xe9, 0x2, 0xe0, 0x80, 0x1e, 0xe5, 0x27, 0x47, 0x66, 0x20, 0x67,
    0x26, 0x7]"

definition unicode_gc_table_13 :: "int list" where
  "unicode_gc_table_13 = [
    0x26, 0xf6, 0xf, 0x65, 0x26, 0xe0, 0x1a, 0xe5, 0x28, 0x47, 0xe6, 0x0, 0x27, 0x6, 0x7, 0x26, 0x56, 0x5, 0xe0, 0x3,
    0xe9, 0x2, 0xa0, 0xf6, 0x5, 0xe0, 0xb, 0xe5, 0x23, 0x6, 0x7, 0x6, 0x27, 0xa6, 0x7, 0x6, 0x5, 0x16, 0xa0, 0xe9,
    0x2, 0xe0, 0x2e, 0xe5, 0x13, 0x20, 0x46, 0x27, 0x66, 0x7, 0x86, 0x60, 0xe9, 0x2, 0x2b, 0x56, 0xf, 0xc5, 0xe0,
    0x80, 0x31, 0xe5, 0x24, 0x47, 0xe6, 0x1, 0x7, 0x26, 0x16, 0xe0, 0x5c, 0xe1, 0x18, 0xe2, 0x18, 0xe9, 0x2, 0xeb,
    0x1, 0xe0, 0x4, 0xe5, 0x0, 0x20, 0x5, 0x20, 0xe5, 0x0, 0x0, 0x25, 0x0, 0xe5, 0x10, 0xa7, 0x0, 0x27, 0x20, 0x26,
    0x7, 0x6, 0x5, 0x7, 0x5, 0x7, 0x6, 0x56, 0xe0, 0x1, 0xe9, 0x2, 0xe0, 0x3e, 0xe5, 0x0, 0x20, 0xe5, 0x1f, 0x47,
    0x66, 0x20, 0x26, 0x67, 0x6, 0x5, 0x16, 0x5, 0x7, 0xe0, 0x13, 0x5, 0xe6, 0x2, 0xe5, 0x20, 0xa6, 0x7, 0x5, 0x66,
    0xf6, 0x0, 0x6, 0xe0, 0x0, 0x5, 0xa6, 0x27, 0x46, 0xe5, 0x26, 0xe6, 0x5, 0x7, 0x26, 0x56, 0x5, 0x96, 0xe0, 0x5,
    0xe5, 0x41, 0xc0, 0xf6, 0x2, 0xe0, 0x80, 0x6e, 0xe5, 0x1, 0x0, 0xe5, 0x1d, 0x7, 0xc6, 0x0, 0xa6, 0x7, 0x6, 0x5,
    0x96, 0xe0, 0x2, 0xe9, 0x2, 0xeb, 0xb, 0x40, 0x36, 0xe5, 0x16, 0x20, 0xe6, 0xe, 0x0, 0x7, 0xc6, 0x7, 0x26, 0x7,
    0x26, 0xe0, 0x41, 0xc5, 0x0, 0x25, 0x0, 0xe5, 0x1e, 0xa6, 0x40, 0x6, 0x0, 0x26, 0x0, 0xc6, 0x5, 0x6, 0xe0, 0x0,
    0xe9, 0x2, 0xa0, 0xa5, 0x0, 0x25, 0x0, 0xe5, 0x18, 0x87, 0x0, 0x26, 0x0, 0x27, 0x6, 0x7, 0x6, 0x5, 0xc0, 0xe9,
    0x2, 0xe0, 0x80, 0xae, 0xe5, 0xb, 0x26, 0x27, 0x36, 0xc0]"

definition unicode_gc_table_14 :: "int list" where
  "unicode_gc_table_14 = [
    0x26, 0x5, 0x7, 0xe5, 0x5, 0x0, 0xe5, 0x1a, 0x27, 0x86, 0x40, 0x27, 0x6, 0x7, 0x6, 0xf6, 0x5, 0xe9, 0x2, 0xe0,
    0x4e, 0x5, 0xe0, 0x7, 0xeb, 0xd, 0xef, 0x0, 0x6d, 0xef, 0x9, 0xe0, 0x5, 0x16, 0xe5, 0x83, 0x12, 0xe0, 0x5e, 0xea,
    0x67, 0x0, 0x96, 0xe0, 0x3, 0xe5, 0x80, 0x3c, 0xe0, 0x89, 0xc4, 0xe5, 0x59, 0x36, 0xe0, 0x5, 0xe5, 0x83, 0xa8,
    0xfb, 0x8, 0x6, 0xa5, 0xe6, 0x7, 0xe0, 0x8f, 0x22, 0xe5, 0x81, 0xbf, 0xe0, 0xa1, 0x31, 0xe5, 0x81, 0xb1, 0xc0,
    0xe5, 0x17, 0x0, 0xe9, 0x2, 0x60, 0x36, 0xe5, 0x47, 0x0, 0xe9, 0x2, 0xa0, 0xe5, 0x16, 0x20, 0x86, 0x16, 0xe0, 0x2,
    0xe5, 0x28, 0xc6, 0x96, 0x6f, 0x64, 0x16, 0xf, 0xe0, 0x2, 0xe9, 0x2, 0x0, 0xcb, 0x0, 0xe5, 0xd, 0x80, 0xe5, 0xb,
    0xe0, 0x82, 0x28, 0xe1, 0x18, 0xe2, 0x18, 0xeb, 0xf, 0x76, 0xe0, 0x5d, 0xe5, 0x43, 0x60, 0x6, 0x5, 0xe7, 0x2f,
    0xc0, 0x66, 0xe4, 0x5, 0xe0, 0x38, 0x24, 0x16, 0x4, 0x6, 0xe0, 0x3, 0x27, 0xe0, 0x6, 0xe5, 0x97, 0x70, 0xe0, 0x0,
    0xe5, 0x84, 0x4e, 0xe0, 0x22, 0xe5, 0x1, 0xe0, 0xa2, 0x5f, 0x64, 0x0, 0xc4, 0x0, 0x24, 0x0, 0xe5, 0x80, 0x9b,
    0xe0, 0x7, 0x5, 0xe0, 0x15, 0x45, 0x20, 0x5, 0xe0, 0x6, 0x65, 0xe0, 0x0, 0xe5, 0x81, 0x4, 0xe0, 0x88, 0x7c, 0xe5,
    0x63, 0x80, 0xe5, 0x5, 0x40, 0xe5, 0x1, 0xc0, 0xe5, 0x2, 0x20, 0xf, 0x26, 0x16, 0x7b, 0xe0, 0x91, 0xd4, 0xe6,
    0x26, 0x20, 0xe6, 0xf, 0xe0, 0x1, 0xef, 0x6c, 0xe0, 0x34, 0xef, 0x80, 0x6e, 0xe0, 0x2, 0xef, 0x1f, 0x20, 0xef,
    0x34, 0x27, 0x46, 0x4f, 0xa7, 0xfb, 0x0, 0xe6, 0x0, 0x2f, 0xc6, 0xef, 0x16, 0x66]"

definition unicode_gc_table_15 :: "int list" where
  "unicode_gc_table_15 = [
    0xef, 0x35, 0xe0, 0xd, 0xef, 0x3a, 0x46, 0xf, 0xe0, 0x72, 0xeb, 0xc, 0xe0, 0x4, 0xeb, 0xc, 0xe0, 0x4, 0xef, 0x4f,
    0xe0, 0x1, 0xeb, 0x11, 0xe0, 0x7f, 0xe1, 0x12, 0xe2, 0x12, 0xe1, 0x12, 0xc2, 0x0, 0xe2, 0xa, 0xe1, 0x12, 0xe2,
    0x12, 0x1, 0x0, 0x21, 0x20, 0x1, 0x20, 0x21, 0x20, 0x61, 0x0, 0xe1, 0x0, 0x62, 0x0, 0x2, 0x0, 0xc2, 0x0, 0xe2,
    0x3, 0xe1, 0x12, 0xe2, 0x12, 0x21, 0x0, 0x61, 0x20, 0xe1, 0x0, 0x0, 0xc1, 0x0, 0xe2, 0x12, 0x21, 0x0, 0x61, 0x0,
    0x81, 0x0, 0x1, 0x40, 0xc1, 0x0, 0xe2, 0x12, 0xe1, 0x12, 0xe2, 0x12, 0xe1, 0x12, 0xe2, 0x12, 0xe1, 0x12, 0xe2,
    0x12, 0xe1, 0x12, 0xe2, 0x12, 0xe1, 0x12, 0xe2, 0x12, 0xe1, 0x12, 0xe2, 0x14, 0x20, 0xe1, 0x11, 0xc, 0xe2, 0x11,
    0xc, 0xa2, 0xe1, 0x11, 0xc, 0xe2, 0x11, 0xc, 0xa2, 0xe1, 0x11, 0xc, 0xe2, 0x11, 0xc, 0xa2, 0xe1, 0x11, 0xc, 0xe2,
    0x11, 0xc, 0xa2, 0xe1, 0x11, 0xc, 0xe2, 0x11, 0xc, 0xa2, 0x3f, 0x20, 0xe9, 0x2a, 0xef, 0x81, 0x78, 0xe6, 0x2f,
    0x6f, 0xe6, 0x2a, 0xef, 0x0, 0x6, 0xef, 0x6, 0x6, 0x2f, 0x96, 0xe0, 0x7, 0x86, 0x0, 0xe6, 0x7, 0xe0, 0x83, 0xc8,
    0xe2, 0x2, 0x5, 0xe2, 0xc, 0xa0, 0xa2, 0xe0, 0x80, 0x4d, 0xc6, 0x0, 0xe6, 0x9, 0x20, 0xc6, 0x0, 0x26, 0x0, 0x86,
    0x80, 0xe4, 0x36, 0xe0, 0x19, 0x6, 0xe0, 0x68, 0xe5, 0x25, 0x40, 0xc6, 0xc4, 0x20, 0xe9, 0x2, 0x60, 0x5, 0xf,
    0xe0, 0x80, 0xb8, 0xe5, 0x16, 0x6, 0xe0, 0x9, 0xe5, 0x24, 0x66, 0xe9, 0x2, 0x80, 0xd, 0xe0, 0x81, 0x48, 0xe5,
    0x13, 0x4, 0x66, 0xe9, 0x2, 0xe0, 0x82, 0x5e, 0xc5, 0x0, 0x65, 0x0, 0x25, 0x0]"

definition unicode_gc_table_16 :: "int list" where
  "unicode_gc_table_16 = [
    0xe5, 0x7, 0x0, 0xe5, 0x80, 0x3d, 0x20, 0xeb, 0x1, 0xc6, 0xe0, 0x21, 0xe1, 0x1a, 0xe2, 0x1a, 0xc6, 0x4, 0x60,
    0xe9, 0x2, 0x60, 0x36, 0xe0, 0x82, 0x89, 0xeb, 0x33, 0xf, 0x4b, 0xd, 0x6b, 0xe0, 0x44, 0xeb, 0x25, 0xf, 0xeb, 0x7,
    0xe0, 0x80, 0x3a, 0x65, 0x0, 0xe5, 0x13, 0x0, 0x25, 0x0, 0x5, 0x20, 0x5, 0x0, 0xe5, 0x2, 0x0, 0x65, 0x0, 0x5, 0x0,
    0x5, 0xa0, 0x5, 0x60, 0x5, 0x0, 0x5, 0x0, 0x5, 0x0, 0x45, 0x0, 0x25, 0x0, 0x5, 0x20, 0x5, 0x0, 0x5, 0x0, 0x5, 0x0,
    0x5, 0x0, 0x5, 0x0, 0x25, 0x0, 0x5, 0x20, 0x65, 0x0, 0xc5, 0x0, 0x65, 0x0, 0x65, 0x0, 0x5, 0x0, 0xe5, 0x2, 0x0,
    0xe5, 0x9, 0x80, 0x45, 0x0, 0x85, 0x0, 0xe5, 0x9, 0xe0, 0x2c, 0x2c, 0xe0, 0x80, 0x86, 0xef, 0x24, 0x60, 0xef,
    0x5c, 0xe0, 0x4, 0xef, 0x7, 0x20, 0xef, 0x7, 0x0, 0xef, 0x7, 0x0, 0xef, 0x1d, 0xe0, 0x2, 0xeb, 0x5, 0xef, 0x80,
    0x19, 0xe0, 0x30, 0xef, 0x15, 0xe0, 0x5, 0xef, 0x24, 0x60, 0xef, 0x1, 0xc0, 0x2f, 0xe0, 0x6, 0xaf, 0xe0, 0x80,
    0x12, 0xef, 0x80, 0x73, 0x8e, 0xef, 0x82, 0x50, 0x60, 0xef, 0x9, 0x40, 0xef, 0x5, 0x40, 0xef, 0x6f, 0x60, 0xef,
    0x57, 0xa0, 0xef, 0x4, 0x60, 0xf, 0xe0, 0x7, 0xef, 0x4, 0x60, 0xef, 0x30, 0xe0, 0x0, 0xef, 0x2, 0xa0, 0xef, 0x20,
    0xe0, 0x0, 0xef, 0x16, 0x20, 0x2f, 0xe0, 0x46, 0xef, 0x80, 0xcc, 0xe0, 0x4, 0xef, 0x6, 0x20, 0xef, 0x5, 0x40,
    0xef, 0x1, 0xc0, 0xef, 0x26, 0x0, 0xcf, 0xe0, 0x0, 0xef, 0x6, 0x60, 0xef, 0x1, 0xc0, 0xef, 0x1, 0xc0, 0xef, 0x80,
    0xb]"

definition unicode_gc_table_17 :: "int list" where
  "unicode_gc_table_17 = [
    0x0, 0xef, 0x2f, 0xe0, 0x1d, 0xe9, 0x2, 0xe0, 0x83, 0x7e, 0xe5, 0xc0, 0x66, 0x58, 0xe0, 0x18, 0xe5, 0x8f, 0xb2,
    0xa0, 0xe5, 0x80, 0x56, 0x20, 0xe5, 0x95, 0xfa, 0xe0, 0x6, 0xe5, 0x9c, 0xa9, 0xe0, 0x8b, 0x97, 0xe5, 0x81, 0x96,
    0xe0, 0x85, 0x5a, 0xe5, 0x92, 0xc3, 0x80, 0xe5, 0x8f, 0xd8, 0xe0, 0xca, 0x9b, 0xc9, 0x1b, 0xe0, 0x16, 0xfb, 0x58,
    0xe0, 0x78, 0xe6, 0x80, 0x68, 0xe0, 0xc0, 0xbd, 0x88, 0xfd, 0xc0, 0xbf, 0x76, 0x20, 0xfd, 0xc0, 0xbf, 0x76, 0x20]"

definition unicode_gc_table :: "int list" where
  "unicode_gc_table = concat [unicode_gc_table_1, unicode_gc_table_2, unicode_gc_table_3, unicode_gc_table_4, unicode_gc_table_5, unicode_gc_table_6, unicode_gc_table_7, unicode_gc_table_8, unicode_gc_table_9, unicode_gc_table_10, unicode_gc_table_11, unicode_gc_table_12, unicode_gc_table_13, unicode_gc_table_14, unicode_gc_table_15, unicode_gc_table_16, unicode_gc_table_17]"

definition unicode_prop_Hyphen_table :: "int list" where
  "unicode_prop_Hyphen_table = [
    0xac, 0x80, 0xfe, 0x80, 0x44, 0xdb, 0x80, 0x52, 0x7a, 0x80, 0x48, 0x8, 0x81, 0x4e, 0x4, 0x80, 0x42, 0xe2, 0x80,
    0x60, 0xcd, 0x66, 0x80, 0x40, 0xa8, 0x80, 0xd6, 0x80]"

definition unicode_prop_Other_Math_table :: "int list" where
  "unicode_prop_Other_Math_table = [
    0xdd, 0x80, 0x43, 0x70, 0x11, 0x80, 0x99, 0x9, 0x81, 0x5c, 0x1f, 0x80, 0x9a, 0x82, 0x8a, 0x80, 0x9f, 0x83, 0x97,
    0x81, 0x8d, 0x81, 0xc0, 0x8c, 0x18, 0x11, 0x1c, 0x91, 0x3, 0x1, 0x89, 0x0, 0x14, 0x28, 0x11, 0x9, 0x2, 0x5, 0x13,
    0x24, 0xca, 0x21, 0x18, 0x8, 0x8, 0x0, 0x21, 0xb, 0xb, 0x91, 0x9, 0x0, 0x6, 0x0, 0x29, 0x41, 0x21, 0x83, 0x40,
    0xa7, 0x8, 0x80, 0x97, 0x80, 0x90, 0x80, 0x41, 0xbc, 0x81, 0x8b, 0x88, 0x24, 0x21, 0x9, 0x14, 0x8d, 0x0, 0x1,
    0x85, 0x97, 0x81, 0xb8, 0x0, 0x80, 0x9c, 0x83, 0x88, 0x81, 0x41, 0x55, 0x81, 0x9e, 0x89, 0x41, 0x92, 0x95, 0xbe,
    0x83, 0x9f, 0x81, 0x60, 0xd4, 0x62, 0x0, 0x3, 0x80, 0x40, 0xd2, 0x0, 0x80, 0x60, 0xd4, 0xc0, 0xd4, 0x80, 0xc6,
    0x1, 0x8, 0x9, 0xb, 0x80, 0x8b, 0x0, 0x6, 0x80, 0xc0, 0x3, 0xf, 0x6, 0x80, 0x9b, 0x3, 0x4, 0x0, 0x16, 0x80, 0x41,
    0x53, 0x81, 0x98, 0x80, 0x98, 0x80, 0x9e, 0x80, 0x98, 0x80, 0x9e, 0x80, 0x98, 0x80, 0x9e, 0x80, 0x98, 0x80, 0x9e,
    0x80, 0x98, 0x7, 0x81, 0xb1, 0x55, 0xff, 0x18, 0x9a, 0x1, 0x0, 0x8, 0x80, 0x89, 0x3, 0x0, 0x0, 0x28, 0x18, 0x0,
    0x0, 0x2, 0x1, 0x0, 0x8, 0x0, 0x0, 0x0, 0x0, 0x1, 0x0, 0xb, 0x6, 0x3, 0x3, 0x0, 0x80, 0x89, 0x80, 0x90, 0x22, 0x4,
    0x80, 0x90]"

definition unicode_prop_Other_Alphabetic_table :: "int list" where
  "unicode_prop_Other_Alphabetic_table = [
    0x43, 0x44, 0x80, 0x42, 0x69, 0x8d, 0x0, 0x1, 0x1, 0x0, 0xc7, 0x8a, 0xaf, 0x8c, 0x6, 0x8f, 0x80, 0xe4, 0x33, 0x19,
    0xb, 0x80, 0xa2, 0x80, 0x9d, 0x8f, 0xe5, 0x8a, 0xe4, 0xa, 0x88, 0x2, 0x3, 0x40, 0xa6, 0x8b, 0x16, 0x85, 0x93,
    0xb5, 0x9, 0x8e, 0x1, 0x22, 0x89, 0x81, 0x9c, 0x82, 0xb9, 0x31, 0x9, 0x81, 0x89, 0x80, 0x89, 0x81, 0x9c, 0x82,
    0xb9, 0x23, 0x9, 0xb, 0x80, 0x9d, 0xa, 0x80, 0x8a, 0x82, 0xb9, 0x38, 0x10, 0x81, 0x94, 0x81, 0x95, 0x13, 0x82,
    0xb9, 0x31, 0x9, 0x81, 0x88, 0x81, 0x89, 0x81, 0x9d, 0x80, 0xba, 0x22, 0x10, 0x82, 0x89, 0x80, 0xa7, 0x84, 0xb8,
    0x30, 0x10, 0x17, 0x81, 0x8a, 0x81, 0x9c, 0x82, 0xb9, 0x30, 0x10, 0x17, 0x81, 0x8a, 0x81, 0x8e, 0x80, 0x8b, 0x83,
    0xb9, 0x30, 0x10, 0x82, 0x89, 0x80, 0x89, 0x81, 0x9c, 0x82, 0xca, 0x28, 0x0, 0x87, 0x91, 0x81, 0xbc, 0x1, 0x86,
    0x91, 0x80, 0xe2, 0x1, 0x28, 0x81, 0x8f, 0x80, 0x40, 0xa2, 0x92, 0x88, 0x8a, 0x80, 0xa3, 0xed, 0x8b, 0x0, 0xb,
    0x96, 0x1b, 0x10, 0x11, 0x32, 0x83, 0x8c, 0x8b, 0x0, 0x89, 0x83, 0x46, 0x73, 0x81, 0x9d, 0x81, 0x9d, 0x81, 0x9d,
    0x81, 0xc1, 0x92, 0x40, 0xbb, 0x81, 0xa1, 0x80, 0xf5, 0x8b, 0x83, 0x88, 0x40, 0xdd, 0x84, 0xb8, 0x89, 0x81, 0x93,
    0xc9, 0x81, 0x8a, 0x82, 0xb0, 0x84, 0xaf, 0x8e, 0xbb, 0x82, 0x9d, 0x88, 0x9, 0xb8, 0x8a, 0xb1, 0x92, 0x41, 0xaf,
    0x8d, 0x46, 0xc0, 0xb3, 0x48, 0xf5, 0x9f, 0x60, 0x78, 0x73, 0x87, 0xa1, 0x81, 0x41, 0x61, 0x7, 0x80, 0x96, 0x84,
    0xd7, 0x81, 0xb1, 0x8f, 0x0, 0xb8, 0x80, 0xa5, 0x84, 0x9b, 0x8b, 0xac, 0x83, 0xaf, 0x8b, 0xa4, 0x80, 0xc2, 0x8d,
    0x8b, 0x7, 0x81, 0xac, 0x82, 0xb1, 0x0, 0x11, 0xc, 0x80, 0xab, 0x24, 0x80, 0x40, 0xec, 0x87, 0x60, 0x4f, 0x32,
    0x80, 0x48, 0x56, 0x84, 0x46, 0x85, 0x10, 0xc, 0x83, 0x43, 0x13, 0x83, 0x41, 0x82, 0x81, 0x41, 0x52, 0x82, 0xb4,
    0x8d, 0xac, 0x81, 0x8a, 0x82, 0xac, 0x88, 0x88, 0x80, 0xbc, 0x82, 0xa3, 0x8b, 0x91, 0x81, 0xb8, 0x82, 0xaf, 0x8c,
    0x8d, 0x81, 0xdb, 0x88, 0x8, 0x28, 0x8, 0x40, 0x9c, 0x89, 0x96, 0x83, 0xb9, 0x31, 0x9, 0x81, 0x89, 0x80, 0x89,
    0x81, 0x40, 0xd0, 0x8c, 0x2, 0xe9, 0x91, 0x40, 0xec, 0x31, 0x86, 0x9c, 0x81, 0xd1, 0x8e, 0x0, 0xe9, 0x8a, 0xe6,
    0x8d, 0x41, 0x0, 0x8c, 0x40, 0xf6, 0x28, 0x9, 0xa, 0x0, 0x80, 0x40, 0x8d, 0x31, 0x2b, 0x80, 0x9b, 0x89, 0xa9,
    0x20, 0x83, 0x91, 0x8a, 0xad, 0x8d, 0x41, 0x96, 0x38, 0x86, 0xd2, 0x95, 0x80, 0x8d, 0xf9, 0x2a, 0x0, 0x8, 0x10,
    0x2, 0x80, 0xc1, 0x20, 0x8, 0x83, 0x41, 0x5b, 0x83, 0x88, 0x8, 0x80, 0xaf, 0x32, 0x82, 0x60, 0x50, 0xd, 0x0, 0xb6,
    0x33, 0xdc, 0x81, 0x60, 0x4c, 0xab, 0x80, 0x60, 0x23, 0x60, 0x30, 0x90, 0xe, 0x1, 0x4, 0xe3, 0x80, 0x48, 0xb6,
    0x80, 0x47, 0xe7, 0x99, 0x85, 0x99, 0x85, 0x99]"

definition unicode_prop_Other_Lowercase_table :: "int list" where
  "unicode_prop_Other_Lowercase_table = [
    0x40, 0xa9, 0x80, 0x8e, 0x80, 0x41, 0xf4, 0x88, 0x31, 0x9d, 0x84, 0xdf, 0x80, 0xb3, 0x80, 0x4d, 0x80, 0x80, 0x4c,
    0x2e, 0xbe, 0x8c, 0x80, 0xa1, 0xa4, 0x42, 0xb0, 0x80, 0x8c, 0x80, 0x8f, 0x8c, 0x40, 0xd2, 0x8f, 0x43, 0x4f, 0x99,
    0x47, 0x91, 0x81, 0x60, 0x7a, 0x1d, 0x81, 0x40, 0xd1, 0x80, 0x40, 0x80, 0x12, 0x81, 0x43, 0x61, 0x83, 0x88, 0x80,
    0x60, 0x5c, 0x15, 0x1, 0x10, 0xa9, 0x80, 0x88, 0x60, 0xd8, 0x74, 0xbd]"

definition unicode_prop_Other_Uppercase_table :: "int list" where
  "unicode_prop_Other_Uppercase_table = [
    0x60, 0x21, 0x5f, 0x8f, 0x43, 0x45, 0x99, 0x61, 0xcc, 0x5f, 0x99, 0x85, 0x99, 0x85, 0x99]"

definition unicode_prop_Other_Grapheme_Extend_table :: "int list" where
  "unicode_prop_Other_Grapheme_Extend_table = [
    0x49, 0xbd, 0x80, 0x97, 0x80, 0x41, 0x65, 0x80, 0x97, 0x80, 0xe5, 0x80, 0x97, 0x80, 0x40, 0xe9, 0x80, 0x91, 0x81,
    0xe6, 0x80, 0x97, 0x80, 0xf6, 0x80, 0x8e, 0x80, 0x4d, 0x54, 0x80, 0x44, 0xd5, 0x80, 0x50, 0x20, 0x81, 0x60, 0xcf,
    0x6d, 0x81, 0x53, 0x9d, 0x80, 0x97, 0x80, 0x41, 0x57, 0x80, 0x8b, 0x80, 0x40, 0xf0, 0x80, 0x43, 0x7f, 0x80, 0x60,
    0xb8, 0x33, 0x7, 0x84, 0x6c, 0x2e, 0xac, 0xdf]"

definition unicode_prop_Other_Default_Ignorable_Code_Point_table :: "int list" where
  "unicode_prop_Other_Default_Ignorable_Code_Point_table = [
    0x43, 0x4e, 0x80, 0x4e, 0xe, 0x81, 0x46, 0x52, 0x81, 0x48, 0xae, 0x80, 0x50, 0xfd, 0x80, 0x60, 0xce, 0x3a, 0x80,
    0xce, 0x88, 0x6d, 0x0, 0x6, 0x0, 0x9d, 0xdf, 0xff, 0x40, 0xef, 0x4e, 0xf]"

definition unicode_prop_Other_ID_Start_table :: "int list" where
  "unicode_prop_Other_ID_Start_table = [
    0x58, 0x84, 0x81, 0x48, 0x90, 0x80, 0x94, 0x80, 0x4f, 0x6b, 0x81]"

definition unicode_prop_Other_ID_Continue_table :: "int list" where
  "unicode_prop_Other_ID_Continue_table = [
    0x40, 0xb6, 0x80, 0x42, 0xce, 0x80, 0x4f, 0xe0, 0x88, 0x46, 0x67, 0x80]"

definition unicode_prop_Prepended_Concatenation_Mark_table :: "int list" where
  "unicode_prop_Prepended_Concatenation_Mark_table = [
    0x45, 0xff, 0x85, 0x40, 0xd6, 0x80, 0xb0, 0x80, 0x41, 0x7f, 0x81, 0xcf, 0x80, 0x61, 0x7, 0xd9, 0x80, 0x8e, 0x80]"

definition unicode_prop_XID_Start1_table :: "int list" where
  "unicode_prop_XID_Start1_table = [
    0x43, 0x79, 0x80, 0x4a, 0xb7, 0x80, 0xfe, 0x80, 0x60, 0x21, 0xe6, 0x81, 0x60, 0xcb, 0xc0, 0x85, 0x41, 0x95, 0x81,
    0xf3, 0x0, 0x0, 0x0, 0x0, 0x0, 0x0, 0x0, 0x80, 0x41, 0x1e, 0x81]"

definition unicode_prop_XID_Continue1_table :: "int list" where
  "unicode_prop_XID_Continue1_table = [
    0x43, 0x79, 0x80, 0x60, 0x2d, 0x1f, 0x81, 0x60, 0xcb, 0xc0, 0x85, 0x41, 0x95, 0x81, 0xf3, 0x0, 0x0, 0x0, 0x0, 0x0,
    0x0, 0x0, 0x80]"

definition unicode_prop_Changes_When_Titlecased1_table :: "int list" where
  "unicode_prop_Changes_When_Titlecased1_table = [
    0x41, 0xc3, 0x8, 0x8, 0x81, 0xa4, 0x81, 0x4e, 0xdc, 0xaa, 0xa, 0x4e, 0x87, 0x3f, 0x3f, 0x87, 0x8b, 0x80, 0x8e,
    0x80, 0xae, 0x80]"

definition unicode_prop_Changes_When_Casefolded1_table :: "int list" where
  "unicode_prop_Changes_When_Casefolded1_table = [
    0x41, 0xef, 0x80, 0x41, 0x9e, 0x80, 0x9e, 0x80, 0x5a, 0xe4, 0x83, 0x40, 0xb5, 0x0, 0x0, 0x0, 0x80, 0xde, 0x6, 0x6,
    0x80, 0x8a, 0x9, 0x81, 0x89, 0x10, 0x81, 0x8d, 0x80]"

definition unicode_prop_Changes_When_NFKC_Casefolded1_table :: "int list" where
  "unicode_prop_Changes_When_NFKC_Casefolded1_table = [
    0x40, 0x9f, 0x6, 0x0, 0x1, 0x0, 0x1, 0x12, 0x10, 0x82, 0xf3, 0x80, 0x8b, 0x80, 0x40, 0x84, 0x1, 0x1, 0x80, 0xa2,
    0x1, 0x80, 0x40, 0xbb, 0x88, 0x9e, 0x29, 0x84, 0xda, 0x8, 0x81, 0x89, 0x80, 0xa3, 0x4, 0x2, 0x4, 0x8, 0x7, 0x80,
    0x9e, 0x80, 0xa0, 0x82, 0x9c, 0x80, 0x42, 0x28, 0x80, 0xd7, 0x83, 0x42, 0xde, 0x87, 0xfb, 0x8, 0x80, 0xd2, 0x1,
    0x80, 0xa1, 0x11, 0x80, 0x40, 0xfc, 0x81, 0x42, 0xd4, 0x80, 0xfe, 0x80, 0xa7, 0x81, 0xad, 0x80, 0xb5, 0x80, 0x88,
    0x3, 0x3, 0x3, 0x80, 0x8b, 0x80, 0x88, 0x0, 0x26, 0x80, 0x90, 0x80, 0x88, 0x3, 0x3, 0x3, 0x80, 0x8b, 0x80, 0x41,
    0x41, 0x80, 0xe1, 0x81, 0x46, 0x52, 0x81, 0xd4, 0x84, 0x45, 0x1b, 0x10, 0x8a, 0x80, 0x91, 0x80, 0x9b, 0x8c, 0x80,
    0xa1, 0xa4, 0x40, 0xd5, 0x83, 0x40, 0xb5, 0x0, 0x0, 0x0, 0x80, 0x99, 0x0, 0x0, 0x0, 0x0, 0x0, 0x0, 0x80, 0xb7,
    0x5, 0x0, 0x13, 0x5, 0x11, 0x2, 0xc, 0x11, 0x0, 0x0, 0xc, 0x15, 0x5, 0x8, 0x8f, 0x0, 0x20, 0x8b, 0x12, 0x2a, 0x8,
    0xb, 0x0, 0x7, 0x82, 0x8c, 0x6, 0x92, 0x81, 0x9a, 0x80, 0x8c, 0x8a, 0x80, 0xd6, 0x18, 0x10, 0x8a, 0x1, 0xc, 0xa,
    0x0, 0x10, 0x11, 0x2, 0x6, 0x5, 0x1c, 0x85, 0x8f, 0x8f, 0x8f, 0x88, 0x80, 0x40, 0xa1, 0x8, 0x81, 0x40, 0xf7, 0x81,
    0x41, 0x34, 0xd5, 0x99, 0x9a, 0x45, 0x20, 0x80, 0xe6, 0x82, 0xe4, 0x80, 0x41, 0x9e, 0x81, 0x40, 0xf0, 0x80, 0x41,
    0x2e, 0x80, 0xd2, 0x80, 0x8b, 0x40, 0xd5, 0xa9, 0x80, 0xb4, 0x0, 0x82, 0xdf, 0x9, 0x80, 0xde, 0x80, 0xb0, 0xdd,
    0x82, 0x8d, 0xdf, 0x9e, 0x80, 0xa7, 0x87, 0xae, 0x80, 0x41, 0x7f, 0x60, 0x72, 0x9b, 0x81, 0x40, 0xd1, 0x80, 0x40,
    0x80, 0x12, 0x81, 0x43, 0x61, 0x83, 0x88, 0x80, 0x60, 0x4d, 0x95, 0x41, 0xd, 0x8, 0x0, 0x81, 0x89, 0x0, 0x0, 0x9,
    0x82, 0xc3, 0x81, 0xe9, 0xc2, 0x0, 0x97, 0x4, 0x0, 0x1, 0x1, 0x80, 0xeb, 0xa0, 0x41, 0x6a, 0x91, 0xbf, 0x81, 0xb5,
    0xa7, 0x8c, 0x82, 0x99, 0x95, 0x94, 0x81, 0x8b, 0x80, 0x92, 0x3, 0x1a, 0x0, 0x80, 0x40, 0x86, 0x8, 0x80, 0x9f,
    0x99, 0x40, 0x83, 0x15, 0xd, 0xd, 0xa, 0x16, 0x6, 0x80, 0x88, 0x47, 0x87, 0x20, 0xa9, 0x80, 0x88, 0x60, 0xb4,
    0xe4, 0x83, 0x54, 0xb9, 0x86, 0x8d, 0x87, 0xbf, 0x85, 0x42, 0x3e, 0xd4, 0x80, 0xc6, 0x1, 0x8, 0x9, 0xb, 0x80,
    0x8b, 0x0, 0x6, 0x80, 0xc0, 0x3, 0xf, 0x6, 0x80, 0x9b, 0x3, 0x4, 0x0, 0x16, 0x80, 0x41, 0x53, 0x81, 0x41, 0x23,
    0x81, 0xb1, 0x48, 0x2f, 0xbd, 0x4d, 0x91, 0x18, 0x9a, 0x1, 0x0, 0x8, 0x80, 0x89, 0x3, 0x0, 0x0, 0x28, 0x18, 0x0,
    0x0, 0x2, 0x1, 0x0, 0x8, 0x0, 0x0, 0x0, 0x0, 0x1, 0x0, 0xb, 0x6, 0x3, 0x3, 0x0, 0x80, 0x89, 0x80, 0x90, 0x22, 0x4,
    0x80, 0x90, 0x42, 0x43, 0x8a, 0x84, 0x9e, 0x80, 0x9f, 0x99, 0x82, 0xa2, 0x80, 0xee, 0x82, 0x8c, 0xab, 0x83, 0x88,
    0x31, 0x49, 0x9d, 0x89, 0x60, 0xfc, 0x5, 0x42, 0x1d, 0x6b, 0x5, 0xe1, 0x4f, 0xff]"

definition unicode_prop_ASCII_Hex_Digit_table :: "int list" where
  "unicode_prop_ASCII_Hex_Digit_table = [
    0xaf, 0x89, 0x35, 0x99, 0x85]"

definition unicode_prop_Bidi_Control_table :: "int list" where
  "unicode_prop_Bidi_Control_table = [
    0x46, 0x1b, 0x80, 0x59, 0xf0, 0x81, 0x99, 0x84, 0xb6, 0x83]"

definition unicode_prop_Dash_table :: "int list" where
  "unicode_prop_Dash_table = [
    0xac, 0x80, 0x45, 0x5b, 0x80, 0xb2, 0x80, 0x4e, 0x40, 0x80, 0x44, 0x4, 0x80, 0x48, 0x8, 0x85, 0xbc, 0x80, 0xa6,
    0x80, 0x8e, 0x80, 0x41, 0x85, 0x80, 0x4c, 0x3, 0x1, 0x80, 0x9e, 0xb, 0x80, 0x9b, 0x80, 0x41, 0xbd, 0x80, 0x92,
    0x80, 0xee, 0x80, 0x60, 0xcd, 0x8f, 0x81, 0xa4, 0x80, 0x89, 0x80, 0x40, 0xa8, 0x80, 0x4f, 0x9e, 0x80]"

definition unicode_prop_Deprecated_table :: "int list" where
  "unicode_prop_Deprecated_table = [
    0x41, 0x48, 0x80, 0x45, 0x28, 0x80, 0x49, 0x2, 0x0, 0x80, 0x48, 0x28, 0x81, 0x48, 0xc4, 0x85, 0x42, 0xb8, 0x81,
    0x6d, 0xdc, 0xd5, 0x80]"

definition unicode_prop_Diacritic_table :: "int list" where
  "unicode_prop_Diacritic_table = [
    0xdd, 0x0, 0x80, 0xc6, 0x5, 0x3, 0x1, 0x81, 0x41, 0xf6, 0x40, 0x9e, 0x7, 0x25, 0x90, 0xb, 0x80, 0x88, 0x81, 0x40,
    0xfc, 0x84, 0x40, 0xd0, 0x80, 0xb6, 0x90, 0x80, 0x9a, 0x0, 0x1, 0x0, 0x40, 0x85, 0x3b, 0x81, 0x40, 0x85, 0xb, 0xa,
    0x82, 0xc2, 0x9a, 0xda, 0x8a, 0xb9, 0x8a, 0xa1, 0x81, 0xfd, 0x87, 0xa8, 0x89, 0x8f, 0x9b, 0xbc, 0x80, 0x8f, 0x2,
    0x83, 0x9b, 0x80, 0xc9, 0x80, 0x8f, 0x80, 0xed, 0x80, 0x8f, 0x80, 0xed, 0x80, 0x8f, 0x80, 0xae, 0x82, 0xbb, 0x80,
    0x8f, 0x6, 0x80, 0xf6, 0x80, 0xed, 0x80, 0x8f, 0x80, 0xed, 0x80, 0x8f, 0x80, 0xec, 0x81, 0x8f, 0x80, 0xfb, 0x80,
    0xfb, 0x28, 0x80, 0xea, 0x80, 0x8c, 0x84, 0xca, 0x81, 0x9a, 0x0, 0x0, 0x3, 0x81, 0xc1, 0x10, 0x81, 0xbd, 0x80,
    0xef, 0x0, 0x81, 0xa7, 0xb, 0x84, 0x98, 0x30, 0x80, 0x89, 0x81, 0x42, 0xc0, 0x82, 0x43, 0xb3, 0x81, 0x40, 0xb2,
    0x8a, 0x88, 0x80, 0x41, 0x5a, 0x82, 0x41, 0x38, 0x39, 0x80, 0xaf, 0x8e, 0x81, 0x8a, 0xe7, 0x80, 0x8e, 0x80, 0xa5,
    0x88, 0xb5, 0x81, 0x40, 0x89, 0x81, 0xbf, 0x85, 0xd1, 0x98, 0x18, 0x28, 0xa, 0xb1, 0xbe, 0xd8, 0x8b, 0xa4, 0x8a,
    0x41, 0xbc, 0x0, 0x82, 0x8a, 0x82, 0x8c, 0x82, 0x8c, 0x82, 0x8c, 0x81, 0x4c, 0xef, 0x82, 0x41, 0x3c, 0x80, 0x41,
    0xf9, 0x85, 0xe8, 0x83, 0xde, 0x80, 0x60, 0x75, 0x71, 0x80, 0x8b, 0x8, 0x80, 0x9b, 0x81, 0xd1, 0x81, 0x8d, 0xa1,
    0xe5, 0x82, 0xec, 0x81, 0x40, 0xc9, 0x80, 0x9a, 0x91, 0xb8, 0x83, 0xa3, 0x80, 0xde, 0x80, 0x8b, 0x80, 0xa3, 0x80,
    0x40, 0x94, 0x82, 0xc0, 0x83, 0xb2, 0x80, 0xe3, 0x84, 0x88, 0x82, 0xff, 0x81, 0x60, 0x4f, 0x2f, 0x80, 0x43, 0x0,
    0x8f, 0x41, 0xd, 0x0, 0x80, 0xae, 0x80, 0xac, 0x81, 0xc2, 0x80, 0x42, 0xfb, 0x80, 0x44, 0x9e, 0x28, 0xa9, 0x80,
    0x88, 0x43, 0x29, 0x81, 0x42, 0x3a, 0x85, 0x41, 0xd4, 0x82, 0xc5, 0x8a, 0xb0, 0x83, 0x40, 0xbf, 0x80, 0xa8, 0x80,
    0xc7, 0x81, 0xf7, 0x81, 0xbd, 0x80, 0xcb, 0x80, 0x88, 0x82, 0xe7, 0x81, 0x40, 0xb1, 0x81, 0xd0, 0x80, 0x8f, 0x80,
    0x97, 0x32, 0x84, 0x40, 0xcc, 0x2, 0x80, 0xfa, 0x81, 0x40, 0xfa, 0x81, 0xfd, 0x80, 0xf5, 0x81, 0xf2, 0x80, 0x41,
    0xc, 0x81, 0x41, 0x1, 0xb, 0x80, 0x40, 0x9b, 0x80, 0xd2, 0x80, 0x91, 0x80, 0xd0, 0x80, 0x41, 0xa4, 0x80, 0x41,
    0x1, 0x0, 0x81, 0xd0, 0x80, 0x56, 0xae, 0x8e, 0x60, 0x36, 0x99, 0x84, 0xba, 0x86, 0x44, 0x57, 0x90, 0xcf, 0x81,
    0x60, 0x3f, 0xfd, 0x18, 0x30, 0x81, 0x5f, 0x0, 0xad, 0x81, 0x96, 0x42, 0x1f, 0x12, 0x2f, 0x39, 0x86, 0x9d, 0x83,
    0x4e, 0x81, 0xbd, 0x40, 0xc1, 0x86, 0x41, 0x76, 0x80, 0xbc, 0x83, 0x45, 0xdf, 0x86, 0xec, 0x10, 0x82]"

definition unicode_prop_Extender_table :: "int list" where
  "unicode_prop_Extender_table = [
    0x40, 0xb6, 0x80, 0x42, 0x17, 0x81, 0x43, 0x6d, 0x80, 0x41, 0xb8, 0x80, 0x43, 0x59, 0x80, 0x42, 0xef, 0x80, 0xfe,
    0x80, 0x49, 0x42, 0x80, 0xb7, 0x80, 0x42, 0x62, 0x80, 0x41, 0x8d, 0x80, 0xc3, 0x80, 0x53, 0x88, 0x80, 0xaa, 0x84,
    0xe6, 0x81, 0xdc, 0x82, 0x60, 0x6f, 0x15, 0x80, 0x45, 0xf5, 0x80, 0x43, 0xc1, 0x80, 0x95, 0x80, 0x40, 0x88, 0x80,
    0xeb, 0x80, 0x94, 0x81, 0x60, 0x54, 0x7a, 0x80, 0x48, 0xf, 0x81, 0x4b, 0xd9, 0x80, 0x42, 0x67, 0x82, 0x44, 0xce,
    0x80, 0x60, 0x50, 0xa8, 0x81, 0x44, 0x9b, 0x8, 0x80, 0x60, 0x71, 0x57, 0x81, 0x48, 0x5, 0x82]"

definition unicode_prop_Hex_Digit_table :: "int list" where
  "unicode_prop_Hex_Digit_table = [
    0xaf, 0x89, 0x35, 0x99, 0x85, 0x60, 0xfe, 0xa8, 0x89, 0x35, 0x99, 0x85]"

definition unicode_prop_IDS_Binary_Operator_table :: "int list" where
  "unicode_prop_IDS_Binary_Operator_table = [
    0x60, 0x2f, 0xef, 0x9, 0x87]"

definition unicode_prop_IDS_Trinary_Operator_table :: "int list" where
  "unicode_prop_IDS_Trinary_Operator_table = [
    0x60, 0x2f, 0xf1, 0x81]"

definition unicode_prop_Ideographic_table :: "int list" where
  "unicode_prop_Ideographic_table = [
    0x60, 0x30, 0x5, 0x81, 0x98, 0x88, 0x8d, 0x82, 0x43, 0xc4, 0x59, 0xbf, 0xbf, 0x60, 0x51, 0xff, 0x60, 0x58, 0xff,
    0x41, 0x6d, 0x81, 0xe9, 0x60, 0x75, 0x9, 0x80, 0x9a, 0x57, 0xf7, 0x87, 0x44, 0xd5, 0xa9, 0x88, 0x60, 0x24, 0x66,
    0x41, 0x8b, 0x60, 0x4d, 0x3, 0x60, 0xa6, 0xdf, 0x9f, 0x50, 0x39, 0x85, 0x40, 0xdd, 0x81, 0x56, 0x81, 0x8d, 0x5d,
    0x30, 0x4c, 0x1e, 0x42, 0x1d, 0x45, 0xe1, 0x53, 0x4a, 0x84, 0x50, 0x5f]"

definition unicode_prop_Join_Control_table :: "int list" where
  "unicode_prop_Join_Control_table = [
    0x60, 0x20, 0xb, 0x81]"

definition unicode_prop_Logical_Order_Exception_table :: "int list" where
  "unicode_prop_Logical_Order_Exception_table = [
    0x4e, 0x3f, 0x84, 0xfa, 0x84, 0x4a, 0xef, 0x11, 0x80, 0x60, 0x90, 0xf9, 0x9, 0x0, 0x81]"

definition unicode_prop_Noncharacter_Code_Point_table :: "int list" where
  "unicode_prop_Noncharacter_Code_Point_table = [
    0x60, 0xfd, 0xcf, 0x9f, 0x42, 0xd, 0x81, 0x60, 0xff, 0xfd, 0x81, 0x60, 0xff, 0xfd, 0x81, 0x60, 0xff, 0xfd, 0x81,
    0x60, 0xff, 0xfd, 0x81, 0x60, 0xff, 0xfd, 0x81, 0x60, 0xff, 0xfd, 0x81, 0x60, 0xff, 0xfd, 0x81, 0x60, 0xff, 0xfd,
    0x81, 0x60, 0xff, 0xfd, 0x81, 0x60, 0xff, 0xfd, 0x81, 0x60, 0xff, 0xfd, 0x81, 0x60, 0xff, 0xfd, 0x81, 0x60, 0xff,
    0xfd, 0x81, 0x60, 0xff, 0xfd, 0x81, 0x60, 0xff, 0xfd, 0x81, 0x60, 0xff, 0xfd, 0x81]"

definition unicode_prop_Pattern_Syntax_table :: "int list" where
  "unicode_prop_Pattern_Syntax_table = [
    0xa0, 0x8e, 0x89, 0x86, 0x99, 0x18, 0x80, 0x99, 0x83, 0xa1, 0x30, 0x0, 0x8, 0x0, 0xb, 0x3, 0x2, 0x80, 0x96, 0x80,
    0x9e, 0x80, 0x5f, 0x17, 0x97, 0x87, 0x8e, 0x81, 0x92, 0x80, 0x89, 0x41, 0x30, 0x42, 0xcf, 0x40, 0x9f, 0x42, 0x75,
    0x9d, 0x44, 0x6b, 0x41, 0xff, 0xff, 0x41, 0x80, 0x13, 0x98, 0x8e, 0x80, 0x60, 0xcd, 0xc, 0x81, 0x41, 0x4, 0x81]"

definition unicode_prop_Pattern_White_Space_table :: "int list" where
  "unicode_prop_Pattern_White_Space_table = [
    0x88, 0x84, 0x91, 0x80, 0xe3, 0x80, 0x5f, 0x87, 0x81, 0x97, 0x81]"

definition unicode_prop_Quotation_Mark_table :: "int list" where
  "unicode_prop_Quotation_Mark_table = [
    0xa1, 0x3, 0x80, 0x40, 0x82, 0x80, 0x8e, 0x80, 0x5f, 0x5b, 0x87, 0x98, 0x81, 0x4e, 0x6, 0x80, 0x41, 0xc8, 0x83,
    0x8c, 0x82, 0x60, 0xce, 0x20, 0x83, 0x40, 0xbc, 0x3, 0x80, 0xd9, 0x81]"

definition unicode_prop_Radical_table :: "int list" where
  "unicode_prop_Radical_table = [
    0x60, 0x2e, 0x7f, 0x99, 0x80, 0xd8, 0x8b, 0x40, 0xd5]"

definition unicode_prop_Regional_Indicator_table :: "int list" where
  "unicode_prop_Regional_Indicator_table = [
    0x61, 0xf1, 0xe5, 0x99]"

definition unicode_prop_Sentence_Terminal_table :: "int list" where
  "unicode_prop_Sentence_Terminal_table = [
    0xa0, 0x80, 0x8b, 0x80, 0x8f, 0x80, 0x45, 0x48, 0x80, 0x40, 0x92, 0x82, 0x40, 0xb3, 0x80, 0xaa, 0x82, 0x40, 0xf5,
    0x80, 0xbc, 0x0, 0x2, 0x81, 0x41, 0x24, 0x81, 0x46, 0xe3, 0x81, 0x43, 0x15, 0x3, 0x81, 0x43, 0x4, 0x80, 0x40,
    0xc5, 0x81, 0x40, 0xcb, 0x4, 0x80, 0x41, 0x39, 0x81, 0x41, 0x61, 0x83, 0x40, 0xad, 0x9, 0x81, 0x9c, 0x81, 0x40,
    0xbb, 0x81, 0xc0, 0x81, 0x43, 0xbb, 0x81, 0x88, 0x82, 0x4d, 0xe3, 0x80, 0x8c, 0x80, 0x95, 0x81, 0x41, 0xac, 0x80,
    0x60, 0x74, 0xfb, 0x80, 0x41, 0xd, 0x81, 0x40, 0xe2, 0x2, 0x80, 0x41, 0x7d, 0x81, 0xd5, 0x81, 0xde, 0x80, 0x40,
    0x97, 0x81, 0x40, 0x92, 0x82, 0x40, 0x8f, 0x81, 0x40, 0xf8, 0x80, 0x60, 0x52, 0x65, 0x2, 0x81, 0x40, 0xa8, 0x80,
    0x8b, 0x80, 0x8f, 0x80, 0xc0, 0x80, 0x4a, 0xf3, 0x81, 0x44, 0xfc, 0x84, 0xab, 0x83, 0x40, 0xbc, 0x81, 0xf4, 0x83,
    0xfe, 0x82, 0x40, 0x80, 0xd, 0x80, 0x8f, 0x81, 0xd7, 0x8, 0x81, 0xeb, 0x80, 0x41, 0xa0, 0x81, 0x41, 0x74, 0xc,
    0x8e, 0xe8, 0x81, 0x40, 0xf8, 0x82, 0x42, 0x4, 0x0, 0x80, 0x40, 0xfa, 0x81, 0xd6, 0x81, 0x41, 0xa3, 0x81, 0x42,
    0xb3, 0x81, 0xc9, 0x81, 0x60, 0x4b, 0x28, 0x81, 0x40, 0x84, 0x80, 0xc0, 0x81, 0x8a, 0x80, 0x43, 0x52, 0x80, 0x60,
    0x4e, 0x5, 0x80, 0x5d, 0xe7, 0x80]"

definition unicode_prop_Soft_Dotted_table :: "int list" where
  "unicode_prop_Soft_Dotted_table = [
    0xe8, 0x81, 0x40, 0xc3, 0x80, 0x41, 0x18, 0x80, 0x9d, 0x80, 0xb3, 0x80, 0x93, 0x80, 0x41, 0x3f, 0x80, 0xe1, 0x0,
    0x80, 0x59, 0x8, 0x80, 0xb2, 0x80, 0x8c, 0x2, 0x80, 0x40, 0x83, 0x80, 0x40, 0x9c, 0x80, 0x41, 0xa4, 0x80, 0x40,
    0xd5, 0x81, 0x4b, 0x31, 0x80, 0x61, 0xa7, 0xa4, 0x81, 0xb1, 0x81, 0xb1, 0x81, 0xb1, 0x81, 0xb1, 0x81, 0xb1, 0x81,
    0xb1, 0x81, 0xb1, 0x81, 0xb1, 0x81, 0xb1, 0x81, 0xb1, 0x81, 0xb1, 0x81, 0xb1, 0x81, 0x48, 0x85, 0x80, 0x41, 0x30,
    0x81, 0x99, 0x80]"

definition unicode_prop_Terminal_Punctuation_table :: "int list" where
  "unicode_prop_Terminal_Punctuation_table = [
    0xa0, 0x80, 0x89, 0x0, 0x80, 0x8a, 0xa, 0x80, 0x43, 0x3d, 0x7, 0x80, 0x42, 0x0, 0x80, 0xb8, 0x80, 0xc7, 0x80,
    0x8d, 0x0, 0x82, 0x40, 0xb3, 0x80, 0xaa, 0x8a, 0x0, 0x40, 0xea, 0x81, 0xb5, 0x8e, 0x9e, 0x80, 0x41, 0x4, 0x81,
    0x44, 0xf3, 0x81, 0x40, 0xab, 0x3, 0x85, 0x41, 0x36, 0x81, 0x43, 0x14, 0x87, 0x43, 0x4, 0x80, 0xfb, 0x82, 0xc6,
    0x81, 0x40, 0x9c, 0x12, 0x80, 0xa6, 0x19, 0x81, 0x41, 0x39, 0x81, 0x41, 0x61, 0x83, 0x40, 0xad, 0x8, 0x82, 0x9c,
    0x81, 0x40, 0xbb, 0x84, 0xbd, 0x81, 0x43, 0xbb, 0x81, 0x88, 0x82, 0x4d, 0xe3, 0x80, 0x8c, 0x3, 0x80, 0x89, 0x0,
    0xa, 0x81, 0x41, 0xab, 0x81, 0x60, 0x74, 0xfa, 0x81, 0x41, 0xc, 0x82, 0x40, 0xe2, 0x84, 0x41, 0x7d, 0x81, 0xd5,
    0x81, 0xde, 0x80, 0x40, 0x96, 0x82, 0x40, 0x92, 0x82, 0xfe, 0x80, 0x8f, 0x81, 0x40, 0xf8, 0x80, 0x60, 0x52, 0x63,
    0x10, 0x83, 0x40, 0xa8, 0x80, 0x89, 0x0, 0x80, 0x8a, 0xa, 0x80, 0xc0, 0x1, 0x80, 0x44, 0x39, 0x80, 0xaf, 0x80,
    0x44, 0x85, 0x80, 0x40, 0xc6, 0x80, 0x41, 0x35, 0x81, 0x40, 0x97, 0x85, 0xc3, 0x85, 0xd8, 0x83, 0x43, 0xb7, 0x84,
    0xab, 0x83, 0x40, 0xbc, 0x86, 0xef, 0x83, 0xfe, 0x82, 0x40, 0x80, 0xd, 0x80, 0x8f, 0x81, 0xd7, 0x84, 0xeb, 0x80,
    0x41, 0xa0, 0x82, 0x8b, 0x81, 0x41, 0x65, 0x1a, 0x8e, 0xe8, 0x81, 0x40, 0xf8, 0x82, 0x42, 0x4, 0x0, 0x80, 0x40,
    0xfa, 0x81, 0xd6, 0xb, 0x81, 0x41, 0x9d, 0x82, 0xac, 0x80, 0x42, 0x84, 0x81, 0xc9, 0x81, 0x45, 0x2a, 0x84, 0x60,
    0x45, 0xf8, 0x81, 0x40, 0x84, 0x80, 0xc0, 0x82, 0x89, 0x80, 0x43, 0x51, 0x81, 0x60, 0x4e, 0x5, 0x80, 0x5d, 0xe6,
    0x83]"

definition unicode_prop_Unified_Ideograph_table :: "int list" where
  "unicode_prop_Unified_Ideograph_table = [
    0x60, 0x33, 0xff, 0x59, 0xbf, 0xbf, 0x60, 0x51, 0xff, 0x60, 0x5a, 0xd, 0x8, 0x0, 0x81, 0x89, 0x0, 0x0, 0x9, 0x82,
    0x61, 0x5, 0xd5, 0x60, 0xa6, 0xdf, 0x9f, 0x50, 0x39, 0x85, 0x40, 0xdd, 0x81, 0x56, 0x81, 0x8d, 0x5d, 0x30, 0x54,
    0x1e, 0x53, 0x4a, 0x84, 0x50, 0x5f]"

definition unicode_prop_Variation_Selector_table :: "int list" where
  "unicode_prop_Variation_Selector_table = [
    0x58, 0xa, 0x10, 0x80, 0x60, 0xe5, 0xef, 0x8f, 0x6d, 0x2, 0xef, 0x40, 0xef]"

definition unicode_prop_White_Space_table :: "int list" where
  "unicode_prop_White_Space_table = [
    0x88, 0x84, 0x91, 0x80, 0xe3, 0x80, 0x99, 0x80, 0x55, 0xde, 0x80, 0x49, 0x7e, 0x8a, 0x9c, 0xc, 0x80, 0xae, 0x80,
    0x4f, 0x9f, 0x80]"

definition unicode_prop_Bidi_Mirrored_table :: "int list" where
  "unicode_prop_Bidi_Mirrored_table = [
    0xa7, 0x81, 0x91, 0x0, 0x80, 0x9b, 0x0, 0x80, 0x9c, 0x0, 0x80, 0xac, 0x80, 0x8e, 0x80, 0x4e, 0x7d, 0x83, 0x47,
    0x5c, 0x81, 0x49, 0x9b, 0x81, 0x89, 0x81, 0xb5, 0x81, 0x8d, 0x81, 0x40, 0xb0, 0x80, 0x40, 0xbf, 0x1a, 0x2a, 0x2,
    0xa, 0x18, 0x18, 0x0, 0x3, 0x88, 0x20, 0x80, 0x91, 0x23, 0x88, 0x8, 0x0, 0x39, 0x9e, 0xb, 0x20, 0x88, 0x9, 0x92,
    0x21, 0x88, 0x21, 0xb, 0x97, 0x81, 0x8f, 0x3b, 0x93, 0xe, 0x81, 0x44, 0x3c, 0x8d, 0xc9, 0x1, 0x18, 0x8, 0x14,
    0x1c, 0x12, 0x8d, 0x41, 0x92, 0x95, 0xd, 0x80, 0x8d, 0x38, 0x35, 0x10, 0x1c, 0x1, 0xc, 0x18, 0x2, 0x9, 0x89, 0x29,
    0x81, 0x8b, 0x92, 0x3, 0x8, 0x0, 0x8, 0x3, 0x21, 0x2a, 0x97, 0x81, 0x8a, 0xb, 0x18, 0x9, 0xb, 0xaa, 0xf, 0x80,
    0xa7, 0x20, 0x0, 0x14, 0x22, 0x18, 0x14, 0x0, 0x40, 0xff, 0x80, 0x42, 0x2, 0x1a, 0x8, 0x81, 0x8d, 0x9, 0x89, 0xaa,
    0x87, 0x41, 0xaa, 0x89, 0xf, 0x60, 0xce, 0x3c, 0x2c, 0x81, 0x40, 0xa1, 0x81, 0x91, 0x0, 0x80, 0x9b, 0x0, 0x80,
    0x9c, 0x0, 0x0, 0x8, 0x81, 0x60, 0xd7, 0x76, 0x80, 0xb8, 0x80, 0xb8, 0x80, 0xb8, 0x80, 0xb8, 0x80]"

definition unicode_prop_Emoji_table :: "int list" where
  "unicode_prop_Emoji_table = [
    0xa2, 0x5, 0x4, 0x89, 0xee, 0x3, 0x80, 0x5f, 0x8c, 0x80, 0x8b, 0x80, 0x40, 0xd7, 0x80, 0x95, 0x80, 0xd9, 0x85,
    0x8e, 0x81, 0x41, 0x6e, 0x81, 0x8b, 0x80, 0x40, 0xa5, 0x80, 0x98, 0x8a, 0x1a, 0x40, 0xc6, 0x80, 0x40, 0xe6, 0x81,
    0x89, 0x80, 0x88, 0x80, 0xb9, 0x18, 0x84, 0x88, 0x1, 0x1, 0x9, 0x3, 0x1, 0x0, 0x9, 0x2, 0x2, 0xf, 0x14, 0x0, 0x4,
    0x8b, 0x8a, 0x9, 0x0, 0x8, 0x80, 0x91, 0x1, 0x81, 0x91, 0x28, 0x0, 0xa, 0xc, 0x1, 0xb, 0x81, 0x8a, 0xc, 0x9, 0x4,
    0x8, 0x0, 0x81, 0x93, 0xc, 0x28, 0x19, 0x3, 0x1, 0x1, 0x28, 0x1, 0x0, 0x0, 0x5, 0x2, 0x5, 0x80, 0x89, 0x81, 0x8e,
    0x1, 0x3, 0x0, 0x3, 0x10, 0x80, 0x8a, 0x81, 0xaf, 0x82, 0x88, 0x80, 0x8d, 0x80, 0x8d, 0x80, 0x41, 0x73, 0x81,
    0x41, 0xce, 0x82, 0x92, 0x81, 0xb2, 0x3, 0x80, 0x44, 0xd9, 0x80, 0x8b, 0x80, 0x42, 0x58, 0x0, 0x80, 0x61, 0xbd,
    0x69, 0x80, 0x40, 0xc9, 0x80, 0x40, 0x9f, 0x81, 0x8b, 0x81, 0x8d, 0x1, 0x89, 0xca, 0x99, 0x1, 0x96, 0x80, 0x93,
    0x1, 0x88, 0x94, 0x81, 0x40, 0xad, 0xa1, 0x81, 0xef, 0x9, 0x2, 0x81, 0xd2, 0xa, 0x80, 0x41, 0x6, 0x80, 0xbe, 0x8a,
    0x28, 0x97, 0x31, 0xf, 0x8b, 0x1, 0x19, 0x3, 0x81, 0x8c, 0x9, 0x7, 0x81, 0x88, 0x4, 0x82, 0x8b, 0x17, 0x11, 0x0,
    0x3, 0x5, 0x2, 0x5, 0xd5, 0xaf, 0xc5, 0x27, 0xa, 0x83, 0x89, 0x10, 0x1, 0x10, 0x81, 0x89, 0x40, 0xe2, 0x8b, 0x18,
    0x41, 0x1a, 0xae, 0x80, 0x89, 0x80, 0x40, 0xb8, 0xef, 0x8c, 0x82, 0x88, 0x86, 0xad, 0x6, 0x87, 0x8d, 0x83, 0x88,
    0x86, 0x88]"

definition unicode_prop_Emoji_Component_table :: "int list" where
  "unicode_prop_Emoji_Component_table = [
    0xa2, 0x5, 0x4, 0x89, 0x5f, 0xd2, 0x80, 0x40, 0xd4, 0x80, 0x60, 0xdd, 0x2a, 0x80, 0x60, 0xf3, 0xd5, 0x99, 0x41,
    0xfa, 0x84, 0x45, 0xaf, 0x83, 0x6c, 0x6, 0x6b, 0xdf]"

definition unicode_prop_Emoji_Modifier_table :: "int list" where
  "unicode_prop_Emoji_Modifier_table = [
    0x61, 0xf3, 0xfa, 0x84]"

definition unicode_prop_Emoji_Modifier_Base_table :: "int list" where
  "unicode_prop_Emoji_Modifier_Base_table = [
    0x60, 0x26, 0x1c, 0x80, 0x40, 0xda, 0x80, 0x8f, 0x83, 0x61, 0xcc, 0x76, 0x80, 0xbb, 0x11, 0x1, 0x82, 0xf4, 0x9,
    0x8a, 0x94, 0x92, 0x10, 0x1a, 0x2, 0x30, 0x0, 0x97, 0x80, 0x40, 0xc8, 0xb, 0x80, 0x94, 0x3, 0x81, 0x40, 0xad,
    0x12, 0x84, 0xd2, 0x80, 0x8f, 0x82, 0x88, 0x80, 0x8a, 0x80, 0x42, 0x3e, 0x1, 0x7, 0x3d, 0x80, 0x88, 0x89, 0xa,
    0xb7, 0x80, 0xbc, 0x8, 0x8, 0x80, 0x90, 0x10, 0x8c, 0x40, 0xe4, 0x82, 0xa9, 0x88]"

definition unicode_prop_Emoji_Presentation_table :: "int list" where
  "unicode_prop_Emoji_Presentation_table = [
    0x60, 0x23, 0x19, 0x81, 0x40, 0xcc, 0x1a, 0x1, 0x80, 0x42, 0x8, 0x81, 0x94, 0x81, 0xb1, 0x8b, 0xaa, 0x80, 0x92,
    0x80, 0x8c, 0x7, 0x81, 0x90, 0xc, 0xf, 0x4, 0x80, 0x94, 0x6, 0x8, 0x3, 0x1, 0x6, 0x3, 0x81, 0x9b, 0x80, 0xa2, 0x0,
    0x3, 0x10, 0x80, 0xbc, 0x82, 0x97, 0x80, 0x8d, 0x80, 0x43, 0x5a, 0x81, 0xb2, 0x3, 0x80, 0x61, 0xc4, 0xad, 0x80,
    0x40, 0xc9, 0x80, 0x40, 0xbd, 0x1, 0x89, 0xca, 0x99, 0x0, 0x97, 0x80, 0x93, 0x1, 0x20, 0x82, 0x94, 0x81, 0x40,
    0xad, 0xa0, 0x8b, 0x88, 0x80, 0xc5, 0x80, 0x95, 0x8b, 0xaa, 0x1c, 0x8b, 0x90, 0x10, 0x82, 0xc6, 0x0, 0x80, 0x40,
    0xba, 0x81, 0xbe, 0x8c, 0x18, 0x97, 0x91, 0x80, 0x99, 0x81, 0x8c, 0x80, 0xd5, 0xd4, 0xaf, 0xc5, 0x28, 0x12, 0xa,
    0x1b, 0x8a, 0xe, 0x88, 0x40, 0xe2, 0x8b, 0x18, 0x41, 0x1a, 0xae, 0x80, 0x89, 0x80, 0x40, 0xb8, 0xef, 0x8c, 0x82,
    0x88, 0x86, 0xad, 0x6, 0x87, 0x8d, 0x83, 0x88, 0x86, 0x88]"

definition unicode_prop_Extended_Pictographic_table :: "int list" where
  "unicode_prop_Extended_Pictographic_table = [
    0x40, 0xa8, 0x3, 0x80, 0x5f, 0x8c, 0x80, 0x8b, 0x80, 0x40, 0xd7, 0x80, 0x95, 0x80, 0xd9, 0x85, 0x8e, 0x81, 0x41,
    0x6e, 0x81, 0x8b, 0x80, 0xde, 0x80, 0xc5, 0x80, 0x98, 0x8a, 0x1a, 0x40, 0xc6, 0x80, 0x40, 0xe6, 0x81, 0x89, 0x80,
    0x88, 0x80, 0xb9, 0x18, 0x28, 0x8b, 0x80, 0xf1, 0x89, 0xf5, 0x81, 0x8a, 0x0, 0x0, 0x28, 0x10, 0x28, 0x89, 0x81,
    0x8e, 0x1, 0x3, 0x0, 0x3, 0x10, 0x80, 0x8a, 0x84, 0xac, 0x82, 0x88, 0x80, 0x8d, 0x80, 0x8d, 0x80, 0x41, 0x73,
    0x81, 0x41, 0xce, 0x82, 0x92, 0x81, 0xb2, 0x3, 0x80, 0x44, 0xd9, 0x80, 0x8b, 0x80, 0x42, 0x58, 0x0, 0x80, 0x61,
    0xbd, 0x65, 0x40, 0xff, 0x8c, 0x82, 0x9e, 0x80, 0xbb, 0x85, 0x8b, 0x81, 0x8d, 0x1, 0x89, 0x91, 0xb8, 0x9a, 0x8e,
    0x89, 0x80, 0x93, 0x1, 0x88, 0x3, 0x88, 0x41, 0xb1, 0x84, 0x41, 0x3d, 0x87, 0x41, 0x9, 0xaf, 0xff, 0xf3, 0x8b,
    0xd4, 0xaa, 0x8b, 0x83, 0xb7, 0x87, 0x89, 0x85, 0xa7, 0x87, 0x9d, 0xd1, 0x8b, 0xae, 0x80, 0x89, 0x80, 0x41, 0xb8,
    0x40, 0xff, 0x43, 0xfd]"

definition unicode_prop_Default_Ignorable_Code_Point_table :: "int list" where
  "unicode_prop_Default_Ignorable_Code_Point_table = [
    0x40, 0xac, 0x80, 0x42, 0xa0, 0x80, 0x42, 0xcb, 0x80, 0x4b, 0x41, 0x81, 0x46, 0x52, 0x81, 0xd4, 0x84, 0x47, 0xfa,
    0x84, 0x99, 0x84, 0xb0, 0x8f, 0x50, 0xf3, 0x80, 0x60, 0xcc, 0x9a, 0x8f, 0x40, 0xee, 0x80, 0x40, 0x9f, 0x80, 0xce,
    0x88, 0x60, 0xbc, 0xa6, 0x83, 0x54, 0xce, 0x87, 0x6c, 0x2e, 0x84, 0x4f, 0xff]"

definition unicode_prop_name_table :: string where
  "unicode_prop_name_table = c_names [
    ''ASCII_Hex_Digit,AHex'', ''Bidi_Control,Bidi_C'', ''Dash'', ''Deprecated,Dep'', ''Diacritic,Dia'',
    ''Extender,Ext'', ''Hex_Digit,Hex'', ''IDS_Binary_Operator,IDSB'', ''IDS_Trinary_Operator,IDST'',
    ''Ideographic,Ideo'', ''Join_Control,Join_C'', ''Logical_Order_Exception,LOE'', ''Noncharacter_Code_Point,NChar'',
    ''Pattern_Syntax,Pat_Syn'', ''Pattern_White_Space,Pat_WS'', ''Quotation_Mark,QMark'', ''Radical'',
    ''Regional_Indicator,RI'', ''Sentence_Terminal,STerm'', ''Soft_Dotted,SD'', ''Terminal_Punctuation,Term'',
    ''Unified_Ideograph,UIdeo'', ''Variation_Selector,VS'', ''White_Space,space'', ''Bidi_Mirrored,Bidi_M'',
    ''Emoji'', ''Emoji_Component,EComp'', ''Emoji_Modifier,EMod'', ''Emoji_Modifier_Base,EBase'',
    ''Emoji_Presentation,EPres'', ''Extended_Pictographic,ExtPict'', ''Default_Ignorable_Code_Point,DI'',
    ''ID_Start,IDS'', ''Case_Ignorable,CI'', ''ASCII'', ''Alphabetic,Alpha'', ''Any'', ''Assigned'', ''Cased'',
    ''Changes_When_Casefolded,CWCF'', ''Changes_When_Casemapped,CWCM'', ''Changes_When_Lowercased,CWL'',
    ''Changes_When_NFKC_Casefolded,CWKCF'', ''Changes_When_Titlecased,CWT'', ''Changes_When_Uppercased,CWU'',
    ''Grapheme_Base,Gr_Base'', ''Grapheme_Extend,Gr_Ext'', ''ID_Continue,IDC'', ''Lowercase,Lower'', ''Math'',
    ''Uppercase,Upper'', ''XID_Continue,XIDC'', ''XID_Start,XIDS'']"

text \<open>The lengths in \<open>unicode_prop_len_table\<close> are those of the tables.\<close>

definition unicode_prop_table :: "int list list" where
  "unicode_prop_table = [
    unicode_prop_Hyphen_table, unicode_prop_Other_Math_table, unicode_prop_Other_Alphabetic_table,
    unicode_prop_Other_Lowercase_table, unicode_prop_Other_Uppercase_table, unicode_prop_Other_Grapheme_Extend_table,
    unicode_prop_Other_Default_Ignorable_Code_Point_table, unicode_prop_Other_ID_Start_table,
    unicode_prop_Other_ID_Continue_table, unicode_prop_Prepended_Concatenation_Mark_table,
    unicode_prop_ID_Continue1_table, unicode_prop_XID_Start1_table, unicode_prop_XID_Continue1_table,
    unicode_prop_Changes_When_Titlecased1_table, unicode_prop_Changes_When_Casefolded1_table,
    unicode_prop_Changes_When_NFKC_Casefolded1_table, unicode_prop_ASCII_Hex_Digit_table,
    unicode_prop_Bidi_Control_table, unicode_prop_Dash_table, unicode_prop_Deprecated_table,
    unicode_prop_Diacritic_table, unicode_prop_Extender_table, unicode_prop_Hex_Digit_table,
    unicode_prop_IDS_Binary_Operator_table, unicode_prop_IDS_Trinary_Operator_table, unicode_prop_Ideographic_table,
    unicode_prop_Join_Control_table, unicode_prop_Logical_Order_Exception_table,
    unicode_prop_Noncharacter_Code_Point_table, unicode_prop_Pattern_Syntax_table,
    unicode_prop_Pattern_White_Space_table, unicode_prop_Quotation_Mark_table, unicode_prop_Radical_table,
    unicode_prop_Regional_Indicator_table, unicode_prop_Sentence_Terminal_table, unicode_prop_Soft_Dotted_table,
    unicode_prop_Terminal_Punctuation_table, unicode_prop_Unified_Ideograph_table,
    unicode_prop_Variation_Selector_table, unicode_prop_White_Space_table, unicode_prop_Bidi_Mirrored_table,
    unicode_prop_Emoji_table, unicode_prop_Emoji_Component_table, unicode_prop_Emoji_Modifier_table,
    unicode_prop_Emoji_Modifier_Base_table, unicode_prop_Emoji_Presentation_table,
    unicode_prop_Extended_Pictographic_table, unicode_prop_Default_Ignorable_Code_Point_table,
    unicode_prop_ID_Start_table, unicode_prop_Case_Ignorable_table]"

end
