(* ===== verification/PropOps.thy ===== *)
theory PropOps
  imports RegexpCanon UniProps
begin

text \<open>
  Named categories and properties of \<open>src/native/quickjs/libunicode.c\<close>: the search for a name in a table,
  the stack machine \<open>unicode_prop_ops\<close>, \<open>unicode_general_category\<close> and \<open>unicode_prop\<close>.  A failed assertion
  and an argument read past the end of a list of arguments are \<^term>\<open>None\<close>.
\<close>

section \<open>Names\<close>

text \<open>\<open>p\<close> is the rest of the table, \<open>strlen\<close> and \<open>strchr\<close> stop at the terminator.\<close>

definition c_str :: "string \<Rightarrow> string option" where
  "c_str p = (if NUL \<in> set p then Some (takeWhile (\<lambda>c. c \<noteq> NUL) p) else None)"

lemma drop_shorter: "c_str p = Some s \<Longrightarrow> length (drop (k + 1) p) < length p"
  by (cases p) (auto simp: c_str_def split: if_splits)

text \<open>The inner loop over the alternatives of one entry: found, or the rest after the entry.\<close>

function find_in_entry :: "string \<Rightarrow> string \<Rightarrow> string option option" where
  "find_in_entry name p = (case c_str p of
       None \<Rightarrow> None
     | Some s \<Rightarrow>
         (let len = length (takeWhile (\<lambda>c. c \<noteq> CHR '','') s); r = (CHR '','' \<in> set s) in
          if len = length name \<and> take len p = name then Some None
          else if r then find_in_entry name (drop (len + 1) p) else Some (Some (drop (len + 1) p))))"
  by pat_completeness auto
termination by (relation "measure (\<lambda>(n, p). length p)") (auto dest: drop_shorter)

declare find_in_entry.simps [simp del]

lemma find_in_entry_shorter: "find_in_entry name p = Some (Some q) \<Longrightarrow> length q < length p"
proof (induction name p rule: find_in_entry.induct)
  case (1 name p)
  obtain s where s: "c_str p = Some s" using "1.prems" by (subst (asm) find_in_entry.simps) (auto split: option.splits)
  define len where "len = length (takeWhile (\<lambda>c. c \<noteq> CHR '','') s)"
  have l: "length (drop (len + 1) p) < length p" using drop_shorter [OF s] .
  have "q = drop (len + 1) p \<or> find_in_entry name (drop (len + 1) p) = Some (Some q) \<and> CHR '','' \<in> set s \<and> \<not> (len = length name \<and> take len p = name)"
    using "1.prems" by (subst (asm) find_in_entry.simps) (auto simp: s Let_def len_def split: if_splits)
  then show ?case using l "1.IH" [OF s refl refl] by (auto simp: len_def)
qed

function find_name_loop :: "string \<Rightarrow> string \<Rightarrow> int \<Rightarrow> int option" where
  "find_name_loop name p pos = (case p of
       [] \<Rightarrow> None
     | c # _ \<Rightarrow>
         if c = NUL then Some (-1)
         else (case find_in_entry name p of
             None \<Rightarrow> None
           | Some None \<Rightarrow> Some pos
           | Some (Some q) \<Rightarrow> find_name_loop name q (pos + 1)))"
  by pat_completeness auto
termination by (relation "measure (\<lambda>(n, p, pos). length p)") (auto dest: find_in_entry_shorter)

declare find_name_loop.simps [simp del]

text \<open>\<open>name\<close> is the contents of a C string.\<close>

definition unicode_find_name :: "string \<Rightarrow> string \<Rightarrow> int option" where
  "unicode_find_name name_table name = find_name_loop name name_table 0"

section \<open>The stack machine\<close>

datatype PropOP = POP_GC int | POP_PROP int | POP_CASE int | POP_UNION | POP_INTER | POP_XOR | POP_INVERT | POP_END

definition POP_STACK_LEN_MAX :: nat where
  "POP_STACK_LEN_MAX = 4"

definition unicode_prop1_at :: "'m cr_realloc_f \<Rightarrow> int \<Rightarrow> 'm \<Rightarrow> CharRange \<Rightarrow> 'm cr_result" where
  "unicode_prop1_at ra prop_idx m cr = do {
     table \<leftarrow> rdi unicode_prop_table prop_idx;
     unicode_prop1 ra table m cr }"

text \<open>The stack is a list with the top first; \<open>prop_fail\<close> frees it from the bottom.\<close>

fun free_all :: "'m cr_realloc_f \<Rightarrow> CharRange list \<Rightarrow> 'm \<Rightarrow> 'm option" where
  "free_all ra [] m = Some m"
| "free_all ra (s # st) m = do { m' \<leftarrow> cr_free ra m s; free_all ra st m' }"

definition prop_fail :: "'m cr_realloc_f \<Rightarrow> CharRange \<Rightarrow> 'm \<Rightarrow> CharRange list \<Rightarrow> 'm cr_result" where
  "prop_fail ra cr m st = do { m' \<leftarrow> free_all ra (rev st) m; Some (m', cr, -1) }"

definition prop_push ::
  "'m cr_realloc_f \<Rightarrow> CharRange \<Rightarrow> ('m \<Rightarrow> CharRange \<Rightarrow> 'm cr_result) \<Rightarrow> ('m \<Rightarrow> CharRange list \<Rightarrow> 'm cr_result) \<Rightarrow>
   'm \<Rightarrow> CharRange list \<Rightarrow> 'm cr_result" where
  "prop_push ra cr build k m st =
     (if length st < POP_STACK_LEN_MAX then do {
        (m, s, r) \<leftarrow> build m cr_init;
        if r \<noteq> 0 then prop_fail ra cr m (s # st) else k m (s # st) }
      else None)"

definition prop_binary ::
  "'m cr_realloc_f \<Rightarrow> CharRange \<Rightarrow> CharRangeOp \<Rightarrow> ('m \<Rightarrow> CharRange list \<Rightarrow> 'm cr_result) \<Rightarrow> 'm \<Rightarrow> CharRange list \<Rightarrow> 'm cr_result" where
  "prop_binary ra cr opr k m st = (case st of
       cr2 # cr1 # rest \<Rightarrow>
         if length st < POP_STACK_LEN_MAX then do {
           (m, cr3, r) \<leftarrow> cr_op ra m cr_init (blk (cr_points cr1)) (cr_len cr1) (blk (cr_points cr2)) (cr_len cr2) opr;
           if r \<noteq> 0 then prop_fail ra cr m (cr3 # st) else do {
             m \<leftarrow> cr_free ra m cr1;
             m \<leftarrow> cr_free ra m cr2;
             k m (cr3 # rest) } }
         else None
     | _ \<Rightarrow> None)"

fun prop_ops_loop :: "'m cr_realloc_f \<Rightarrow> CharRange \<Rightarrow> PropOP list \<Rightarrow> 'm \<Rightarrow> CharRange list \<Rightarrow> 'm cr_result" where
  "prop_ops_loop ra cr [] m st = None"
| "prop_ops_loop ra cr (POP_GC a # ops) m st =
     prop_push ra cr (unicode_general_category1 ra unicode_gc_table a) (prop_ops_loop ra cr ops) m st"
| "prop_ops_loop ra cr (POP_PROP a # ops) m st = prop_push ra cr (unicode_prop1_at ra a) (prop_ops_loop ra cr ops) m st"
| "prop_ops_loop ra cr (POP_CASE a # ops) m st = prop_push ra cr (unicode_case1 ra a) (prop_ops_loop ra cr ops) m st"
| "prop_ops_loop ra cr (POP_UNION # ops) m st = prop_binary ra cr CR_OP_UNION (prop_ops_loop ra cr ops) m st"
| "prop_ops_loop ra cr (POP_INTER # ops) m st = prop_binary ra cr CR_OP_INTER (prop_ops_loop ra cr ops) m st"
| "prop_ops_loop ra cr (POP_XOR # ops) m st = prop_binary ra cr CR_OP_XOR (prop_ops_loop ra cr ops) m st"
| "prop_ops_loop ra cr (POP_INVERT # ops) m st = (case st of
       [] \<Rightarrow> None
     | s # rest \<Rightarrow> do {
         (m, s', r) \<leftarrow> cr_invert ra m s;
         if r \<noteq> 0 then prop_fail ra cr m (s' # rest) else prop_ops_loop ra cr ops m (s' # rest) })"
| "prop_ops_loop ra cr (POP_END # ops) m st = (case st of
       [s] \<Rightarrow> do {
         (m, cr', ret) \<leftarrow> cr_copy ra m cr s;
         m \<leftarrow> cr_free ra m s;
         Some (m, cr', ret) }
     | _ \<Rightarrow> None)"

definition unicode_prop_ops :: "'m cr_realloc_f \<Rightarrow> PropOP list \<Rightarrow> 'm \<Rightarrow> CharRange \<Rightarrow> 'm cr_result" where
  "unicode_prop_ops ra ops m cr = prop_ops_loop ra cr ops m []"

section \<open>Categories and properties\<close>

text \<open>Categories and properties are numbered as in the enumerations of the source; \<open>M_GC\<close> is the union of the
  bits \<open>M(id)\<close>.\<close>

abbreviation (input) "UNICODE_GC_Cn \<equiv> 0 :: int"
abbreviation (input) "UNICODE_GC_Lt \<equiv> 3 :: int"
abbreviation (input) "UNICODE_GC_Lm \<equiv> 4 :: int"
abbreviation (input) "UNICODE_GC_Lo \<equiv> 5 :: int"
abbreviation (input) "UNICODE_GC_Mn \<equiv> 6 :: int"
abbreviation (input) "UNICODE_GC_Mc \<equiv> 7 :: int"
abbreviation (input) "UNICODE_GC_Me \<equiv> 8 :: int"
abbreviation (input) "UNICODE_GC_Nd \<equiv> 9 :: int"
abbreviation (input) "UNICODE_GC_Nl \<equiv> 10 :: int"
abbreviation (input) "UNICODE_GC_No \<equiv> 11 :: int"
abbreviation (input) "UNICODE_GC_Sm \<equiv> 12 :: int"
abbreviation (input) "UNICODE_GC_Sc \<equiv> 13 :: int"
abbreviation (input) "UNICODE_GC_Sk \<equiv> 14 :: int"
abbreviation (input) "UNICODE_GC_So \<equiv> 15 :: int"
abbreviation (input) "UNICODE_GC_Pc \<equiv> 16 :: int"
abbreviation (input) "UNICODE_GC_Pd \<equiv> 17 :: int"
abbreviation (input) "UNICODE_GC_Ps \<equiv> 18 :: int"
abbreviation (input) "UNICODE_GC_Pe \<equiv> 19 :: int"
abbreviation (input) "UNICODE_GC_Pi \<equiv> 20 :: int"
abbreviation (input) "UNICODE_GC_Pf \<equiv> 21 :: int"
abbreviation (input) "UNICODE_GC_Po \<equiv> 22 :: int"
abbreviation (input) "UNICODE_GC_Zs \<equiv> 23 :: int"
abbreviation (input) "UNICODE_GC_Zl \<equiv> 24 :: int"
abbreviation (input) "UNICODE_GC_Zp \<equiv> 25 :: int"
abbreviation (input) "UNICODE_GC_Cc \<equiv> 26 :: int"
abbreviation (input) "UNICODE_GC_Cf \<equiv> 27 :: int"
abbreviation (input) "UNICODE_GC_Cs \<equiv> 28 :: int"
abbreviation (input) "UNICODE_GC_Co \<equiv> 29 :: int"
abbreviation (input) "UNICODE_GC_LC \<equiv> 30 :: int"

fun M_GC :: "int list \<Rightarrow> int" where
  "M_GC [] = 0"
| "M_GC (i # ids) = push_bit (nat i) 1 OR M_GC ids"

definition unicode_gc_mask_table :: "int list" where
  "unicode_gc_mask_table = [
     M_GC [UNICODE_GC_Lu, UNICODE_GC_Ll, UNICODE_GC_Lt],
     M_GC [UNICODE_GC_Lu, UNICODE_GC_Ll, UNICODE_GC_Lt, UNICODE_GC_Lm, UNICODE_GC_Lo],
     M_GC [UNICODE_GC_Mn, UNICODE_GC_Mc, UNICODE_GC_Me],
     M_GC [UNICODE_GC_Nd, UNICODE_GC_Nl, UNICODE_GC_No],
     M_GC [UNICODE_GC_Sm, UNICODE_GC_Sc, UNICODE_GC_Sk, UNICODE_GC_So],
     M_GC [UNICODE_GC_Pc, UNICODE_GC_Pd, UNICODE_GC_Ps, UNICODE_GC_Pe, UNICODE_GC_Pi, UNICODE_GC_Pf, UNICODE_GC_Po],
     M_GC [UNICODE_GC_Zs, UNICODE_GC_Zl, UNICODE_GC_Zp],
     M_GC [UNICODE_GC_Cc, UNICODE_GC_Cf, UNICODE_GC_Cs, UNICODE_GC_Co, UNICODE_GC_Cn]]"

definition unicode_general_category :: "'m cr_realloc_f \<Rightarrow> string \<Rightarrow> 'm \<Rightarrow> CharRange \<Rightarrow> 'm cr_result" where
  "unicode_general_category ra gc_name m cr = do {
     gc_idx \<leftarrow> unicode_find_name unicode_gc_name_table gc_name;
     if gc_idx < 0 then Some (m, cr, -2)
     else do {
       gc_mask \<leftarrow> (if gc_idx \<le> UNICODE_GC_Co then Some (push_bit (nat gc_idx) 1)
                   else rdi unicode_gc_mask_table (gc_idx - UNICODE_GC_LC));
       unicode_general_category1 ra unicode_gc_table gc_mask m cr } }"

abbreviation (input) "UNICODE_PROP_Other_Math \<equiv> 1 :: int"
abbreviation (input) "UNICODE_PROP_Other_Alphabetic \<equiv> 2 :: int"
abbreviation (input) "UNICODE_PROP_Other_Lowercase \<equiv> 3 :: int"
abbreviation (input) "UNICODE_PROP_Other_Uppercase \<equiv> 4 :: int"
abbreviation (input) "UNICODE_PROP_Other_Grapheme_Extend \<equiv> 5 :: int"
abbreviation (input) "UNICODE_PROP_Other_ID_Start \<equiv> 7 :: int"
abbreviation (input) "UNICODE_PROP_Other_ID_Continue \<equiv> 8 :: int"
abbreviation (input) "UNICODE_PROP_ID_Continue1 \<equiv> 10 :: int"
abbreviation (input) "UNICODE_PROP_XID_Start1 \<equiv> 11 :: int"
abbreviation (input) "UNICODE_PROP_XID_Continue1 \<equiv> 12 :: int"
abbreviation (input) "UNICODE_PROP_Changes_When_Titlecased1 \<equiv> 13 :: int"
abbreviation (input) "UNICODE_PROP_Changes_When_Casefolded1 \<equiv> 14 :: int"
abbreviation (input) "UNICODE_PROP_Changes_When_NFKC_Casefolded1 \<equiv> 15 :: int"
abbreviation (input) "UNICODE_PROP_ASCII_Hex_Digit \<equiv> 16 :: int"
abbreviation (input) "UNICODE_PROP_Pattern_Syntax \<equiv> 29 :: int"
abbreviation (input) "UNICODE_PROP_Pattern_White_Space \<equiv> 30 :: int"
abbreviation (input) "UNICODE_PROP_ID_Start \<equiv> 48 :: int"
abbreviation (input) "UNICODE_PROP_ASCII \<equiv> 50 :: int"
abbreviation (input) "UNICODE_PROP_Alphabetic \<equiv> 51 :: int"
abbreviation (input) "UNICODE_PROP_Any \<equiv> 52 :: int"
abbreviation (input) "UNICODE_PROP_Assigned \<equiv> 53 :: int"
abbreviation (input) "UNICODE_PROP_Cased \<equiv> 54 :: int"
abbreviation (input) "UNICODE_PROP_Changes_When_Casefolded \<equiv> 55 :: int"
abbreviation (input) "UNICODE_PROP_Changes_When_Casemapped \<equiv> 56 :: int"
abbreviation (input) "UNICODE_PROP_Changes_When_Lowercased \<equiv> 57 :: int"
abbreviation (input) "UNICODE_PROP_Changes_When_NFKC_Casefolded \<equiv> 58 :: int"
abbreviation (input) "UNICODE_PROP_Changes_When_Titlecased \<equiv> 59 :: int"
abbreviation (input) "UNICODE_PROP_Changes_When_Uppercased \<equiv> 60 :: int"
abbreviation (input) "UNICODE_PROP_Grapheme_Base \<equiv> 61 :: int"
abbreviation (input) "UNICODE_PROP_Grapheme_Extend \<equiv> 62 :: int"
abbreviation (input) "UNICODE_PROP_ID_Continue \<equiv> 63 :: int"
abbreviation (input) "UNICODE_PROP_Lowercase \<equiv> 64 :: int"
abbreviation (input) "UNICODE_PROP_Math \<equiv> 65 :: int"
abbreviation (input) "UNICODE_PROP_Uppercase \<equiv> 66 :: int"
abbreviation (input) "UNICODE_PROP_XID_Continue \<equiv> 67 :: int"
abbreviation (input) "UNICODE_PROP_XID_Start \<equiv> 68 :: int"

text \<open>The arguments of the calls of \<open>unicode_prop_ops\<close> in the cases of \<open>unicode_prop\<close>.\<close>

definition prop_program :: "int \<Rightarrow> PropOP list option" where
  "prop_program prop_idx =
     (if prop_idx = UNICODE_PROP_Assigned then Some [POP_GC (M_GC [UNICODE_GC_Cn]), POP_INVERT, POP_END]
      else if prop_idx = UNICODE_PROP_Math then
        Some [POP_GC (M_GC [UNICODE_GC_Sm]), POP_PROP UNICODE_PROP_Other_Math, POP_UNION, POP_END]
      else if prop_idx = UNICODE_PROP_Lowercase then
        Some [POP_GC (M_GC [UNICODE_GC_Ll]), POP_PROP UNICODE_PROP_Other_Lowercase, POP_UNION, POP_END]
      else if prop_idx = UNICODE_PROP_Uppercase then
        Some [POP_GC (M_GC [UNICODE_GC_Lu]), POP_PROP UNICODE_PROP_Other_Uppercase, POP_UNION, POP_END]
      else if prop_idx = UNICODE_PROP_Cased then
        Some [POP_GC (M_GC [UNICODE_GC_Lu, UNICODE_GC_Ll, UNICODE_GC_Lt]), POP_PROP UNICODE_PROP_Other_Uppercase, POP_UNION,
          POP_PROP UNICODE_PROP_Other_Lowercase, POP_UNION, POP_END]
      else if prop_idx = UNICODE_PROP_Alphabetic then
        Some [POP_GC (M_GC [UNICODE_GC_Lu, UNICODE_GC_Ll, UNICODE_GC_Lt, UNICODE_GC_Lm, UNICODE_GC_Lo, UNICODE_GC_Nl]),
          POP_PROP UNICODE_PROP_Other_Uppercase, POP_UNION, POP_PROP UNICODE_PROP_Other_Lowercase, POP_UNION,
          POP_PROP UNICODE_PROP_Other_Alphabetic, POP_UNION, POP_END]
      else if prop_idx = UNICODE_PROP_Grapheme_Base then
        Some [POP_GC (M_GC [UNICODE_GC_Cc, UNICODE_GC_Cf, UNICODE_GC_Cs, UNICODE_GC_Co, UNICODE_GC_Cn, UNICODE_GC_Zl, UNICODE_GC_Zp,
            UNICODE_GC_Me, UNICODE_GC_Mn]),
          POP_PROP UNICODE_PROP_Other_Grapheme_Extend, POP_UNION, POP_INVERT, POP_END]
      else if prop_idx = UNICODE_PROP_Grapheme_Extend then
        Some [POP_GC (M_GC [UNICODE_GC_Me, UNICODE_GC_Mn]), POP_PROP UNICODE_PROP_Other_Grapheme_Extend, POP_UNION, POP_END]
      else if prop_idx = UNICODE_PROP_XID_Start then
        Some [POP_GC (M_GC [UNICODE_GC_Lu, UNICODE_GC_Ll, UNICODE_GC_Lt, UNICODE_GC_Lm, UNICODE_GC_Lo, UNICODE_GC_Nl]),
          POP_PROP UNICODE_PROP_Other_ID_Start, POP_UNION,
          POP_PROP UNICODE_PROP_Pattern_Syntax, POP_PROP UNICODE_PROP_Pattern_White_Space, POP_UNION,
          POP_PROP UNICODE_PROP_XID_Start1, POP_UNION, POP_INVERT, POP_INTER, POP_END]
      else if prop_idx = UNICODE_PROP_XID_Continue then
        Some [POP_GC (M_GC [UNICODE_GC_Lu, UNICODE_GC_Ll, UNICODE_GC_Lt, UNICODE_GC_Lm, UNICODE_GC_Lo, UNICODE_GC_Nl,
            UNICODE_GC_Mn, UNICODE_GC_Mc, UNICODE_GC_Nd, UNICODE_GC_Pc]),
          POP_PROP UNICODE_PROP_Other_ID_Start, POP_UNION, POP_PROP UNICODE_PROP_Other_ID_Continue, POP_UNION,
          POP_PROP UNICODE_PROP_Pattern_Syntax, POP_PROP UNICODE_PROP_Pattern_White_Space, POP_UNION,
          POP_PROP UNICODE_PROP_XID_Continue1, POP_UNION, POP_INVERT, POP_INTER, POP_END]
      else if prop_idx = UNICODE_PROP_Changes_When_Titlecased then
        Some [POP_CASE CASE_U, POP_PROP UNICODE_PROP_Changes_When_Titlecased1, POP_XOR, POP_END]
      else if prop_idx = UNICODE_PROP_Changes_When_Casefolded then
        Some [POP_CASE CASE_F, POP_PROP UNICODE_PROP_Changes_When_Casefolded1, POP_XOR, POP_END]
      else if prop_idx = UNICODE_PROP_Changes_When_NFKC_Casefolded then
        Some [POP_CASE CASE_F, POP_PROP UNICODE_PROP_Changes_When_NFKC_Casefolded1, POP_XOR, POP_END]
      else if prop_idx = UNICODE_PROP_ID_Continue then
        Some [POP_PROP UNICODE_PROP_ID_Start, POP_PROP UNICODE_PROP_ID_Continue1, POP_XOR, POP_END]
      else None)"

definition unicode_prop :: "'m cr_realloc_f \<Rightarrow> string \<Rightarrow> 'm \<Rightarrow> CharRange \<Rightarrow> 'm cr_result" where
  "unicode_prop ra prop_name m cr = do {
     pos \<leftarrow> unicode_find_name unicode_prop_name_table prop_name;
     if pos < 0 then Some (m, cr, -2)
     else let prop_idx = pos + UNICODE_PROP_ASCII_Hex_Digit in
       if prop_idx = UNICODE_PROP_ASCII then add_then ra True m cr 0 0x80 (\<lambda>m cr. Some (m, cr, 0))
       else if prop_idx = UNICODE_PROP_Any then add_then ra True m cr 0 0x110000 (\<lambda>m cr. Some (m, cr, 0))
       else if prop_idx = UNICODE_PROP_Changes_When_Uppercased then unicode_case1 ra CASE_U m cr
       else if prop_idx = UNICODE_PROP_Changes_When_Lowercased then unicode_case1 ra CASE_L m cr
       else if prop_idx = UNICODE_PROP_Changes_When_Casemapped then unicode_case1 ra (CASE_U OR CASE_L OR CASE_F) m cr
       else (case prop_program prop_idx of
           Some ops \<Rightarrow> unicode_prop_ops ra ops m cr
         | None \<Rightarrow> if prop_idx \<ge> int (length unicode_prop_table) then Some (m, cr, -2) else unicode_prop1_at ra prop_idx m cr) }"

section \<open>Finding names\<close>

text \<open>The alternatives of an entry and the position of the first entry that has a name.\<close>

function split_comma :: "string \<Rightarrow> string list" where
  "split_comma e = takeWhile (\<lambda>c. c \<noteq> CHR '','') e #
     (if CHR '','' \<in> set e then split_comma (tl (dropWhile (\<lambda>c. c \<noteq> CHR '','') e)) else [])"
  by pat_completeness auto
termination
proof (relation "measure length")
  fix e :: string
  assume "CHR '','' \<in> set e"
  then have "dropWhile (\<lambda>c. c \<noteq> CHR '','') e \<noteq> []" by (auto simp: dropWhile_eq_Nil_conv)
  then show "(tl (dropWhile (\<lambda>c. c \<noteq> CHR '','') e), e) \<in> measure length"
    using length_dropWhile_le [of "\<lambda>c. c \<noteq> CHR '',''" e] by (cases "dropWhile (\<lambda>c. c \<noteq> CHR '','') e") auto
qed simp

declare split_comma.simps [simp del]

fun name_pos :: "string \<Rightarrow> int \<Rightarrow> string list \<Rightarrow> int" where
  "name_pos name pos [] = -1"
| "name_pos name pos (e # es) = (if name \<in> set (split_comma e) then pos else name_pos name (pos + 1) es)"

lemma c_str_entry: "NUL \<notin> set e \<Longrightarrow> c_str (e @ NUL # rest) = Some e"
  by (auto simp: c_str_def takeWhile_append)

lemma find_in_entry_ok:
  "NUL \<notin> set e \<Longrightarrow> find_in_entry name (e @ NUL # rest) = Some (if name \<in> set (split_comma e) then None else Some rest)"
proof (induction e rule: split_comma.induct)
  case (1 e)
  let ?t = "takeWhile (\<lambda>c. c \<noteq> CHR '','') e" let ?d = "dropWhile (\<lambda>c. c \<noteq> CHR '','') e"
  have e: "e = ?t @ ?d" by simp
  have tk: "take (length ?t) (e @ NUL # rest) = ?t" by (subst (2) e) (simp del: takeWhile_dropWhile_id)
  show ?case
  proof (cases "CHR '','' \<in> set e")
    case True
    then have "?d \<noteq> []" by (auto simp: dropWhile_eq_Nil_conv)
    then obtain x d where d: "?d = x # d" by (cases ?d) auto
    have dr: "drop (length ?t + 1) (e @ NUL # rest) = d @ NUL # rest"
      using d by (subst e) (simp del: takeWhile_dropWhile_id)
    have "NUL \<notin> set d" using "1.prems" d set_dropWhileD [of _ "\<lambda>c. c \<noteq> CHR '',''" e] by auto
    then have "find_in_entry name (d @ NUL # rest) = Some (if name \<in> set (split_comma d) then None else Some rest)"
      using "1.IH" [OF True] d by simp
    then show ?thesis using "1.prems" True d dr tk
      by (subst find_in_entry.simps, subst split_comma.simps) (auto simp: c_str_entry Let_def)
  next
    case False
    then have "?t = e" unfolding takeWhile_eq_all_conv by blast
    moreover have "split_comma e = [?t]" using False by (subst split_comma.simps) simp
    ultimately have s: "split_comma e = [e]" "?t = e" by simp_all
    have c: "c_str (e @ NUL # rest) = Some e" using c_str_entry "1.prems" by blast
    show ?thesis unfolding s(1) find_in_entry.simps [of name "e @ NUL # rest"] c option.case Let_def s(2)
      using False by (cases "name = e") auto
  qed
qed

lemma find_name_loop_ok:
  "\<forall>e \<in> set es. e \<noteq> [] \<and> NUL \<notin> set e \<Longrightarrow> find_name_loop name (c_names es) pos = Some (name_pos name pos es)"
proof (induction es arbitrary: pos)
  case Nil
  show ?case by (subst find_name_loop.simps) (simp add: c_names_def)
next
  case (Cons e es)
  obtain c e' where e: "e = c # e'" "c \<noteq> NUL" using Cons.prems by (cases e) auto
  have c: "c_names (e # es) = e @ NUL # c_names es" by (simp add: c_names_def)
  have "find_in_entry name (c_names (e # es)) = Some (if name \<in> set (split_comma e) then None else Some (c_names es))"
    unfolding c using Cons.prems by (intro find_in_entry_ok) auto
  moreover have "find_name_loop name (c_names es) (pos + 1) = Some (name_pos name (pos + 1) es)" using Cons by simp
  moreover have "c_names (e # es) = c # e' @ NUL # c_names es" using c e by simp
  ultimately show ?case using e(2) by (subst find_name_loop.simps) auto
qed

end
