(* ===== verification/PropCheck.thy ===== *)
theory PropCheck
  imports PropTable
begin

text \<open>
  The tables of the program satisfy the checks of theory \<open>PropTable\<close>, by evaluation; hence what every
  lookup returns.
\<close>

section \<open>Evaluation on the tables\<close>

lemma Cased1_ok: "prop_table_ok unicode_prop_Cased1_table unicode_prop_Cased1_index"
  by code_simp

lemma Case_Ignorable_ok: "prop_table_ok unicode_prop_Case_Ignorable_table unicode_prop_Case_Ignorable_index"
  by code_simp

lemma ID_Start_ok: "prop_table_ok unicode_prop_ID_Start_table unicode_prop_ID_Start_index"
  by code_simp

lemma ID_Continue1_ok: "prop_table_ok unicode_prop_ID_Continue1_table unicode_prop_ID_Continue1_index"
  by code_simp

lemma cc_ok: "cc_table_ok unicode_cc_table unicode_cc_index"
  by code_simp

section \<open>Claims\<close>

text \<open>C29. Property lookups: for every code point the search through the index and the scan of one block
  stay inside the tables, end, and return whether the code point lies in the set that decoding the
  whole table from its start gives; at and after the end of the table the answer is no.\<close>

theorem property_lookup_correct:
  assumes "0 \<le> c"
  shows "lre_is_id_start c = Some (in_runs c 0 False (prop_runs unicode_prop_ID_Start_table))
    \<and> lre_is_id_continue c = Some (in_runs c 0 False (prop_runs unicode_prop_ID_Start_table)
        \<or> in_runs c 0 False (prop_runs unicode_prop_ID_Continue1_table))
    \<and> lre_is_case_ignorable c = Some (in_runs c 0 False (prop_runs unicode_prop_Case_Ignorable_table))"
  using lre_is_in_table_ok [OF ID_Start_ok assms] lre_is_in_table_ok [OF ID_Continue1_ok assms]
    lre_is_in_table_ok [OF Case_Ignorable_ok assms]
  by (simp add: lre_is_id_start_def lre_is_id_continue_def lre_is_case_ignorable_def)

theorem property_lookup_correct_witness:
  "lre_is_id_start 0x41 = Some (in_runs 0x41 0 False (prop_runs unicode_prop_ID_Start_table))"
  using property_lookup_correct [of "0x41"] by simp

text \<open>C30. Combining classes: for every code point \<open>unicode_get_cc\<close> stays inside its tables, ends, and returns
  the class that decoding the whole table gives, a number from 0 to 255.\<close>

theorem unicode_get_cc_correct:
  assumes "0 \<le> c"
  shows "unicode_get_cc c = Some (cc_at c 0 (cc_runs unicode_cc_table))
    \<and> 0 \<le> cc_at c 0 (cc_runs unicode_cc_table) \<and> cc_at c 0 (cc_runs unicode_cc_table) \<le> 255"
  using unicode_get_cc_eq [OF cc_ok assms] cc_at_bounds [of "cc_runs unicode_cc_table" 0 c] cc_ok assms
  by (simp add: cc_table_ok_def)

theorem unicode_get_cc_correct_witness: "\<exists>cc. unicode_get_cc 0x301 = Some cc \<and> cc \<le> 255"
  using unicode_get_cc_correct [of "0x301"] by simp

end
