(* ===== verification/PropOps_Check.thy ===== *)
theory PropOps_Check
  imports PropOps PropCheck
begin

text \<open>
  The tables of categories and properties pass the checks that the constructions from them rely on, by
  evaluation: no run is cut off, and no run ends after the last code point.
\<close>

section \<open>Checks of the tables\<close>

definition prop_ok :: "int list \<Rightarrow> bool" where
  "prop_ok t \<longleftrightarrow> prop_complete t \<and> list_all (\<lambda>b. 0 \<le> b) t \<and> span (\<lambda>r. r) (prop_runs t) \<le> 0x110000"

lemma prop_small_ok:
  shows
    "prop_ok unicode_prop_Hyphen_table" "prop_ok unicode_prop_Other_Math_table"
    "prop_ok unicode_prop_Other_Alphabetic_table" "prop_ok unicode_prop_Other_Lowercase_table"
    "prop_ok unicode_prop_Other_Uppercase_table" "prop_ok unicode_prop_Other_Grapheme_Extend_table"
    "prop_ok unicode_prop_Other_Default_Ignorable_Code_Point_table" "prop_ok unicode_prop_Other_ID_Start_table"
    "prop_ok unicode_prop_Other_ID_Continue_table" "prop_ok unicode_prop_Prepended_Concatenation_Mark_table"
    "prop_ok unicode_prop_XID_Start1_table" "prop_ok unicode_prop_XID_Continue1_table"
    "prop_ok unicode_prop_Changes_When_Titlecased1_table" "prop_ok unicode_prop_Changes_When_Casefolded1_table"
    "prop_ok unicode_prop_Changes_When_NFKC_Casefolded1_table" "prop_ok unicode_prop_ASCII_Hex_Digit_table"
    "prop_ok unicode_prop_Bidi_Control_table" "prop_ok unicode_prop_Dash_table"
    "prop_ok unicode_prop_Deprecated_table" "prop_ok unicode_prop_Diacritic_table"
    "prop_ok unicode_prop_Extender_table" "prop_ok unicode_prop_Hex_Digit_table"
    "prop_ok unicode_prop_IDS_Binary_Operator_table" "prop_ok unicode_prop_IDS_Trinary_Operator_table"
    "prop_ok unicode_prop_Ideographic_table" "prop_ok unicode_prop_Join_Control_table"
    "prop_ok unicode_prop_Logical_Order_Exception_table" "prop_ok unicode_prop_Noncharacter_Code_Point_table"
    "prop_ok unicode_prop_Pattern_Syntax_table" "prop_ok unicode_prop_Pattern_White_Space_table"
    "prop_ok unicode_prop_Quotation_Mark_table" "prop_ok unicode_prop_Radical_table"
    "prop_ok unicode_prop_Regional_Indicator_table" "prop_ok unicode_prop_Sentence_Terminal_table"
    "prop_ok unicode_prop_Soft_Dotted_table" "prop_ok unicode_prop_Terminal_Punctuation_table"
    "prop_ok unicode_prop_Unified_Ideograph_table" "prop_ok unicode_prop_Variation_Selector_table"
    "prop_ok unicode_prop_White_Space_table" "prop_ok unicode_prop_Bidi_Mirrored_table"
    "prop_ok unicode_prop_Emoji_table" "prop_ok unicode_prop_Emoji_Component_table"
    "prop_ok unicode_prop_Emoji_Modifier_table" "prop_ok unicode_prop_Emoji_Modifier_Base_table"
    "prop_ok unicode_prop_Emoji_Presentation_table" "prop_ok unicode_prop_Extended_Pictographic_table"
    "prop_ok unicode_prop_Default_Ignorable_Code_Point_table"
  by code_simp+

lemma prop_index_ok:
  assumes "prop_table_ok tbl idx" "last (le24s idx) \<le> 0x110000"
  shows "prop_ok tbl"
  using assms ptab.blocks_ok_complete [of tbl "le24s idx"] by (auto simp: prop_table_ok_def prop_ok_def)

lemma prop_last_index:
  "last (le24s unicode_prop_ID_Start_index) \<le> 0x110000" "last (le24s unicode_prop_ID_Continue1_index) \<le> 0x110000"
  "last (le24s unicode_prop_Case_Ignorable_index) \<le> 0x110000"
  by code_simp+

lemma prop_tables_ok: "list_all prop_ok unicode_prop_table"
  unfolding unicode_prop_table_def
  by (simp add: prop_small_ok prop_index_ok [OF ID_Start_ok] prop_index_ok [OF ID_Continue1_ok]
      prop_index_ok [OF Case_Ignorable_ok] prop_last_index)

lemma prop_table_length: "length unicode_prop_table = 50"
  by (simp add: unicode_prop_table_def)

text \<open>The table of categories is checked in pieces that end with a run.\<close>

definition gc_chunk_ok :: "int list \<Rightarrow> int \<Rightarrow> bool" where
  "gc_chunk_ok t n \<longleftrightarrow> gc_complete t \<and> list_all (\<lambda>r. 0 < fst r) (gc_runs t) \<and> span fst (gc_runs t) = n"

lemma gc_chunks_ok:
  shows
    "gc_chunk_ok unicode_gc_table_1 1480" "gc_chunk_ok unicode_gc_table_2 1223" "gc_chunk_ok unicode_gc_table_3 757"
    "gc_chunk_ok unicode_gc_table_4 1661" "gc_chunk_ok unicode_gc_table_5 2127" "gc_chunk_ok unicode_gc_table_6 1278"
    "gc_chunk_ok unicode_gc_table_7 3260" "gc_chunk_ok unicode_gc_table_8 31141"
    "gc_chunk_ok unicode_gc_table_9 21371" "gc_chunk_ok unicode_gc_table_10 2166"
    "gc_chunk_ok unicode_gc_table_11 2960" "gc_chunk_ok unicode_gc_table_12 1679"
    "gc_chunk_ok unicode_gc_table_13 2369" "gc_chunk_ok unicode_gc_table_14 45742"
    "gc_chunk_ok unicode_gc_table_15 5698" "gc_chunk_ok unicode_gc_table_16 5027"
    "gc_chunk_ok unicode_gc_table_17 984173"
  by code_simp+

lemma gc_count_append: "gc_count n p = Some (k, q) \<Longrightarrow> gc_count n (p @ r) = Some (k, q @ r)"
  by (auto simp: gc_count.simps split: if_splits list.splits)

lemma gc_runs_append:
  "gc_complete p \<Longrightarrow> gc_runs (p @ r) = gc_runs p @ gc_runs r \<and> gc_complete (p @ r) = gc_complete r"
proof (induction p rule: gc_complete.induct)
  case (2 b p)
  then obtain n q where g: "gc_count (drop_bit 5 b) p = Some (n, q)" "gc_complete q" by (auto split: option.splits)
  then show ?case using 2(1) [OF g(1) refl g(2)] gc_count_append [OF g(1), of r] by simp
qed simp

lemma span_append: "span len (a @ b) = span len a + span len b"
  by (induction a) auto

lemma gc_chunk_append: "gc_chunk_ok p n \<Longrightarrow> gc_chunk_ok (p @ r) m \<longleftrightarrow> gc_chunk_ok r (m - n)"
  using gc_runs_append [of p r] by (auto simp: gc_chunk_ok_def span_append)

lemma gc_chunk_Nil: "gc_chunk_ok [] m \<longleftrightarrow> m = 0"
  by (auto simp: gc_chunk_ok_def)

lemma gc_table_ok: "gc_chunk_ok unicode_gc_table 0x110000"
  unfolding unicode_gc_table_def concat.simps by (simp add: gc_chunks_ok [THEN gc_chunk_append] gc_chunk_Nil del: append_Nil2)

end
