(* ===== verification/PropOps_Sets.thy ===== *)
theory PropOps_Sets
  imports PropOps_Check
begin

text \<open>
  The sets that named categories and properties denote: the stack machine implements the evaluation of its
  program over sets, and \<open>prop_spec\<close> says for every property which set results.
\<close>

section \<open>Sets of the tables\<close>

definition gc_set :: "int \<Rightarrow> u32 set" where
  "gc_set gm = {c. \<exists>g. gc_at (uint c) 0 (gc_runs unicode_gc_table) = Some g \<and> has_bit gm g}"

definition prop_set :: "int \<Rightarrow> u32 set" where
  "prop_set i = {c. in_runs (uint c) 0 False (prop_runs (unicode_prop_table ! nat i))}"

definition case_set :: "int \<Rightarrow> u32 set" where
  "case_set case_mask = {c. \<exists>k \<in> case_kinds case_mask. uint c \<in> case_changed k}"

text \<open>A sorted range with the code points \<open>S\<close>, and the result of building one.\<close>

definition range_of :: "CharRange \<Rightarrow> u32 set \<Rightarrow> bool" where
  "range_of cr S \<longleftrightarrow> cr_wf cr \<and> sorted (cr_pts cr) \<and> even (cr_len cr) \<and> cr_set (cr_pts cr) = S"

definition made :: "'m cr_realloc_f \<Rightarrow> nat \<Rightarrow> u32 set \<Rightarrow> 'm \<times> CharRange \<times> int \<Rightarrow> bool" where
  "made ra n S = (\<lambda>(m, cr, r). cr_wf cr \<and> (r = 0 \<and> range_of cr S \<and> cr_len cr \<le> n \<or> r = -1 \<and> \<not> never_refuses ra))"

lemma built_made:
  assumes "built ra S' t" "S = {c. uint c \<in> S'}"
  shows "made ra (2 ^ 22) S t"
proof -
  obtain m cr r where t: "t = (m, cr, r)" by (cases t)
  have b: "cr_wf cr" "never_refuses ra \<longrightarrow> r = 0" "r = 0 \<and> sorted (cr_pts cr) \<and> even (cr_len cr) \<and> cr_len cr \<le> 2 ^ 22
      \<and> (\<forall>c. c \<in> cr_set (cr_pts cr) \<longleftrightarrow> uint c \<in> S') \<or> r = -1"
    using assms(1) by (simp_all add: t built_def)
  show ?thesis
  proof (cases "r = 0")
    case True
    then show ?thesis using b assms(2) by (auto simp: t made_def range_of_def)
  next
    case False
    then show ?thesis using b by (auto simp: t made_def)
  qed
qed

lemma prop_runs_length: "prop_ok t \<Longrightarrow> int (length (prop_runs t)) \<le> 0x110000"
proof -
  assume p: "prop_ok t"
  have "int (length rs) \<le> span (\<lambda>r. r) rs" if "\<forall>r \<in> set rs. 0 < r" for rs :: "int list" using that by (induction rs) auto
  moreover have "\<forall>r \<in> set (prop_runs t). 0 < r" using p prop_runs_pos [of t] by (auto simp: prop_ok_def list_all_iff)
  ultimately show ?thesis using p unfolding prop_ok_def by (meson order.trans)
qed

context cr_alloc
begin

lemma gc1_made:
  assumes "cr_wf cr" "cr_pts cr = []"
  shows "ok (unicode_general_category1 ra unicode_gc_table gm m cr) (made ra (2 ^ 22) (gc_set gm))"
proof (rule ok_mono [OF unicode_general_category1_built [OF assms]])
  show "gc_complete unicode_gc_table" "\<forall>r \<in> set (gc_runs unicode_gc_table). 0 < fst r" "span fst (gc_runs unicode_gc_table) \<le> 2 ^ 21"
    using gc_table_ok by (auto simp: gc_chunk_ok_def list_all_iff)
  fix t
  assume "built ra {c. 0 \<le> c \<and> (\<exists>g. gc_at c 0 (gc_runs unicode_gc_table) = Some g \<and> has_bit gm g)} t"
  then show "made ra (2 ^ 22) (gc_set gm) t" by (rule built_made) (simp add: gc_set_def)
qed

lemma prop1_made:
  assumes "cr_wf cr" "cr_pts cr = []" "0 \<le> i" "i < 50"
  shows "ok (unicode_prop1_at ra i m cr) (made ra (2 ^ 22) (prop_set i))"
proof -
  let ?t = "unicode_prop_table ! nat i"
  have r: "rdi unicode_prop_table i = Some ?t" using assms(3,4) prop_table_length by (simp add: rdi_def rd_def)
  have p: "prop_ok ?t" using prop_tables_ok assms(3,4) prop_table_length by (simp add: list_all_length)
  have "ok (unicode_prop1 ra ?t m cr) (made ra (2 ^ 22) (prop_set i))"
  proof (rule ok_mono [OF unicode_prop1_built [OF assms(1,2)]])
    show "prop_complete ?t" "\<forall>b \<in> set ?t. 0 \<le> b" "span (\<lambda>r. r) (prop_runs ?t) < 2 ^ 32" using p by (auto simp: prop_ok_def list_all_iff)
    show "length (prop_runs ?t) \<le> 2 ^ 21" using prop_runs_length [OF p] by simp
    fix t
    assume "built ra {c. 0 \<le> c \<and> in_runs c 0 False (prop_runs ?t)} t"
    then show "made ra (2 ^ 22) (prop_set i) t" by (rule built_made) (simp add: prop_set_def)
  qed
  then show ?thesis using r by (simp add: unicode_prop1_at_def)
qed

lemma case1_made:
  assumes "cr_wf cr" "cr_pts cr = []" "0 \<le> a" "a < 8"
  shows "ok (unicode_case1 ra a m cr) (made ra (2 ^ 22) (case_set a))"
  by (rule ok_mono [OF unicode_case1_built [OF assms]], rule built_made) (auto simp: case_set_def)

lemma cr_copy_made:
  assumes "cr_wf cr" "range_of s S" "cr_len s \<le> 2 ^ 28"
  shows "ok (cr_copy ra m cr s) (made ra (cr_len s) S)"
proof -
  have s: "cr_wf s" "cr_len s \<le> length (blk (cr_points s))" using assms(2) by (auto simp: range_of_def cr_wf_def)
  obtain m1 cr1 r where g: "cr_realloc ra m cr (cr_len s) = Some (m1, cr1, r)"
    and p: "cr_post cr (cr_pts cr) (m1, cr1, r)" "r = 0 \<longrightarrow> cr_len s \<le> cr_size cr1"
    using cr_realloc_ok [OF assms(1), of "cr_len s" m] assms(3) by (auto elim!: okE)
  show ?thesis
  proof (cases "r = 0")
    case False
    then have "r = -1" "\<not> never_refuses ra" using p(1) cr_realloc_granted [of ra m cr "cr_len s"] g by (auto simp: cr_post_def)
    then show ?thesis using g p(1) by (auto simp: cr_copy_def made_def cr_post_def)
  next
    case True
    then have c1: "cr_wf cr1" "cr_len s \<le> cr_size cr1" "cr_len s \<le> length (blk (cr_points cr1))" using p by (auto simp: cr_post_def cr_wf_def)
    show ?thesis
    proof (cases "cr_len s = 0")
      case z: True
      then have "cr_pts s = []" using length_cr_pts [OF s(1)] by simp
      then have "S = {}" using assms(2) by (auto simp: range_of_def cr_set_def)
      then show ?thesis using g True z c1 by (auto simp: cr_copy_def made_def range_of_def cr_wf_def cr_pts_def cr_set_def)
    next
      case False
      define b where "b = blk (cr_points cr1)"
      let ?x = "take (cr_len s) (blk (cr_points s))"
      have lx: "length ?x = cr_len s" using s(2) by simp
      have mc: "memcpy_at b 0 ?x = Some (?x @ drop (cr_len s) b)" using c1(3) lx by (simp add: memcpy_at_def b_def)
      define cr2 where "cr2 = cr1\<lparr>cr_points := Some (?x @ drop (cr_len s) b), cr_len := cr_len s\<rparr>"
      have "cr_copy ra m cr s = Some (m1, cr2, 0)" using g True False s(2) mc by (simp add: cr_copy_def b_def cr2_def)
      moreover have "cr_wf cr2" "cr_pts cr2 = cr_pts s" "cr_len cr2 = cr_len s"
        using c1 lx by (auto simp: cr2_def cr_wf_def cr_pts_def b_def)
      ultimately show ?thesis using assms(2) by (simp add: made_def range_of_def)
    qed
  qed
qed

end

section \<open>The stack machine over sets\<close>


text \<open>The value of a program from a stack of sets; nothing where the machine would fail an assertion.\<close>

fun pop_den :: "PropOP list \<Rightarrow> u32 set list \<Rightarrow> u32 set option" where
  "pop_den [] st = None"
| "pop_den (POP_GC a # ops) st = (if length st < 4 then pop_den ops (gc_set a # st) else None)"
| "pop_den (POP_PROP i # ops) st = (if length st < 4 \<and> 0 \<le> i \<and> i < 50 then pop_den ops (prop_set i # st) else None)"
| "pop_den (POP_CASE a # ops) st = (if length st < 4 \<and> 0 \<le> a \<and> a < 8 then pop_den ops (case_set a # st) else None)"
| "pop_den (POP_UNION # ops) st = (case st of b # a # r \<Rightarrow> if length r < 2 then pop_den ops ((a \<union> b) # r) else None | _ \<Rightarrow> None)"
| "pop_den (POP_INTER # ops) st = (case st of b # a # r \<Rightarrow> if length r < 2 then pop_den ops ((a \<inter> b) # r) else None | _ \<Rightarrow> None)"
| "pop_den (POP_XOR # ops) st = (case st of b # a # r \<Rightarrow> if length r < 2 then pop_den ops ((a - b \<union> (b - a)) # r) else None | _ \<Rightarrow> None)"
| "pop_den (POP_INVERT # ops) st = (case st of a # r \<Rightarrow> pop_den ops ((- a - {-1}) # r) | _ \<Rightarrow> None)"
| "pop_den (POP_END # ops) st = (case st of [a] \<Rightarrow> Some a | _ \<Rightarrow> None)"

definition stk :: "CharRange list \<Rightarrow> u32 set list \<Rightarrow> nat \<Rightarrow> bool" where
  "stk st Ss n \<longleftrightarrow> list_all2 range_of st Ss \<and> sum_list (map cr_len st) \<le> n * 2 ^ 22"

context cr_alloc
begin

lemma free_all_ok: "\<exists>m'. free_all ra st m = Some m'"
proof (induction st arbitrary: m)
  case (Cons s st)
  obtain m1 where "cr_free ra m s = Some m1" using cr_free_ok by blast
  then show ?case using Cons [of m1] by simp
qed simp

lemma prop_fail_made: "cr_wf cr \<Longrightarrow> \<not> never_refuses ra \<Longrightarrow> ok (prop_fail ra cr m st) (made ra n S)"
  using free_all_ok [of "rev st" m] by (auto simp: prop_fail_def made_def)

lemma prop_push_ok:
  assumes "cr_wf cr" "stk st Ss n" "length Ss < 4" "\<And>m. ok (build m cr_init) (made ra (2 ^ 22) S)"
    and "\<And>m st'. stk st' (S # Ss) (Suc n) \<Longrightarrow> ok (k m st') (made ra N R)"
  shows "ok (prop_push ra cr build k m st) (made ra N R)"
proof -
  have l: "length st < POP_STACK_LEN_MAX" using assms(2,3) by (auto simp: stk_def POP_STACK_LEN_MAX_def dest: list_all2_lengthD)
  obtain m1 s r where g: "build m cr_init = Some (m1, s, r)" "made ra (2 ^ 22) S (m1, s, r)" using assms(4) [of m] by (auto elim!: okE)
  show ?thesis
  proof (cases "r = 0")
    case True
    then have "stk (s # st) (S # Ss) (Suc n)" using g(2) assms(2) by (auto simp: made_def stk_def)
    then show ?thesis using g(1) True l assms(5) by (simp add: prop_push_def)
  next
    case False
    then have "\<not> never_refuses ra" using g(2) by (auto simp: made_def)
    then show ?thesis using g(1) False l prop_fail_made [OF assms(1)] by (simp add: prop_push_def)
  qed
qed

lemma prop_binary_ok:
  assumes "cr_wf cr" "stk st (B # A # Ss) n" "n \<le> 32" "length Ss < 2"
    and "\<And>m st'. stk st' ({c. is_in opr (c \<in> A) (c \<in> B)} # Ss) (Suc n) \<Longrightarrow> ok (k m st') (made ra N R)"
  shows "ok (prop_binary ra cr opr k m st) (made ra N R)"
proof -
  obtain b a rest where st: "st = b # a # rest" and ab: "range_of b B" "range_of a A" "list_all2 range_of rest Ss"
    using assms(2) by (auto simp: stk_def list_all2_Cons2)
  have l: "length st < POP_STACK_LEN_MAX" using ab(3) assms(4) st by (auto simp: POP_STACK_LEN_MAX_def dest: list_all2_lengthD)
  have sum: "cr_len b + (cr_len a + sum_list (map cr_len rest)) \<le> n * 2 ^ 22" using assms(2) st by (simp add: stk_def)
  have "n * 2 ^ 22 \<le> 32 * 2 ^ 22" using assms(3) by (rule mult_le_mono1)
  then have le: "cr_len a + cr_len b \<le> 2 ^ 28" using sum by simp
  have pa: "cr_wf a" "cr_wf b" "sorted (cr_pts a)" "sorted (cr_pts b)" "even (cr_len a)" "even (cr_len b)"
    "cr_set (cr_pts a) = A" "cr_set (cr_pts b) = B" using ab by (auto simp: range_of_def)
  obtain m1 c r where g: "cr_op ra m cr_init (blk (cr_points a)) (cr_len a) (blk (cr_points b)) (cr_len b) opr = Some (m1, c, r)" "cr_wf c"
    "r = 0 \<and> cr_normal (cr_pts c) \<and> cr_len c \<le> cr_len a + cr_len b \<and> cr_set (cr_pts c) = {c. is_in opr (c \<in> A) (c \<in> B)}
     \<or> r = -1 \<and> \<not> never_refuses ra"
    using cr_op_ranges [OF pa(1-6), of cr_init m opr] le pa(7,8) by (auto elim!: okE)
  obtain m2 m3 where f: "cr_free ra m1 a = Some m2" "cr_free ra m2 b = Some m3" using cr_free_ok by blast
  show ?thesis
  proof (cases "r = 0")
    case True
    then have "range_of c {c. is_in opr (c \<in> A) (c \<in> B)}" "cr_len c \<le> cr_len a + cr_len b"
      using g(2,3) length_cr_pts [OF g(2)] by (auto simp: range_of_def cr_normal_def strict_sorted_imp_sorted)
    then have "stk (c # rest) ({c. is_in opr (c \<in> A) (c \<in> B)} # Ss) (Suc n)" using ab(3) sum by (simp add: stk_def)
    then show ?thesis using g(1) f True l assms(5) by (simp add: prop_binary_def st)
  next
    case False
    then have "\<not> never_refuses ra" using g(3) by auto
    then show ?thesis using g(1) False l prop_fail_made [OF assms(1)] by (simp add: prop_binary_def st)
  qed
qed

lemma prop_invert_ok:
  assumes "cr_wf cr" "stk (s # rest) (A # Ss) n" "n \<le> 32"
    and "\<And>m st'. stk st' ((- A - {-1}) # Ss) (Suc n) \<Longrightarrow> ok (k m st') (made ra N R)"
  shows "ok (cr_invert ra m s \<bind> (\<lambda>(m, s', r). if r \<noteq> 0 then prop_fail ra cr m (s' # rest) else k m (s' # rest))) (made ra N R)"
proof -
  have a: "range_of s A" "list_all2 range_of rest Ss" "cr_len s + sum_list (map cr_len rest) \<le> n * 2 ^ 22" using assms(2) by (auto simp: stk_def)
  have "n * 2 ^ 22 \<le> 32 * 2 ^ 22" using assms(3) by (rule mult_le_mono1)
  then have le: "cr_len s \<le> 2 ^ 28" using a(3) by simp
  have p: "cr_wf s" "sorted (cr_pts s)" "even (cr_len s)" "cr_set (cr_pts s) = A" using a(1) by (auto simp: range_of_def)
  obtain m1 c r where g: "cr_invert ra m s = Some (m1, c, r)" "cr_wf c" "r = 0 \<and> cr_normal (cr_pts c) \<and> cr_set (cr_pts c) = - A - {-1}
      \<and> length (cr_pts c) \<le> cr_len s + 2 \<or> r = -1"
    using cr_invert_ok [OF p(1-3) le, of m] p(4) by (fastforce elim!: okE)
  show ?thesis
  proof (cases "r = 0")
    case True
    then have "range_of c (- A - {-1})" "cr_len c \<le> cr_len s + 2"
      using g(2,3) length_cr_pts [OF g(2)] by (auto simp: range_of_def cr_normal_def strict_sorted_imp_sorted)
    then have "stk (c # rest) ((- A - {-1}) # Ss) (Suc n)" using a(2,3) by (simp add: stk_def)
    then show ?thesis using g(1) True assms(4) by simp
  next
    case False
    then have "\<not> never_refuses ra" using cr_invert_granted [of ra m s m1 c r] g(1) by auto
    then show ?thesis using g(1) False prop_fail_made [OF assms(1)] by simp
  qed
qed

lemma is_in_sets:
  "{c. is_in CR_OP_UNION (c \<in> A) (c \<in> B)} = A \<union> B" "{c. is_in CR_OP_INTER (c \<in> A) (c \<in> B)} = A \<inter> B"
  "{c. is_in CR_OP_XOR (c \<in> A) (c \<in> B)} = A - B \<union> (B - A)"
  by auto

lemma prop_ops_loop_ok:
  assumes "stk st Ss n" "pop_den ops Ss = Some S" "n + length ops \<le> 32" "cr_wf cr" "2 ^ 27 \<le> N"
  shows "ok (prop_ops_loop ra cr ops m st) (made ra N S)"
  using assms
proof (induction ops arbitrary: st Ss n m)
  case (Cons op ops)
  have IH: "ok (prop_ops_loop ra cr ops m st') (made ra N S)" if "stk st' Ss' (Suc n)" "pop_den ops Ss' = Some S" for m st' Ss'
    using Cons.IH [OF that] Cons.prems by simp
  note push = prop_push_ok [OF Cons.prems(4,1)] and binary = prop_binary_ok [OF Cons.prems(4)]
  have n: "n \<le> 32" using Cons.prems(3) by simp
  have bin: "ok (prop_binary ra cr opr (prop_ops_loop ra cr ops) m st) (made ra N S)"
    if "Ss = B # A # Ss'" "length Ss' < 2" "pop_den ops (X # Ss') = Some S" "X = {c. is_in opr (c \<in> A) (c \<in> B)}" for opr A B X Ss'
    using Cons.prems(1) that(1,2) IH [OF _ that(3)] that(4) by (intro binary [OF _ n, of st B A Ss']) auto
  show ?case
  proof (cases op)
    case (POP_GC a)
    then have h: "length Ss < 4" "pop_den ops (gc_set a # Ss) = Some S" using Cons.prems(2) by (auto split: if_splits)
    show ?thesis unfolding POP_GC prop_ops_loop.simps by (rule push [OF h(1) gc1_made IH [OF _ h(2)]]) simp_all
  next
    case (POP_PROP i)
    then have h: "length Ss < 4" "0 \<le> i" "i < 50" "pop_den ops (prop_set i # Ss) = Some S" using Cons.prems(2) by (auto split: if_splits)
    show ?thesis unfolding POP_PROP prop_ops_loop.simps by (rule push [OF h(1) prop1_made IH [OF _ h(4)]]) (simp_all add: h(2,3))
  next
    case (POP_CASE a)
    then have h: "length Ss < 4" "0 \<le> a" "a < 8" "pop_den ops (case_set a # Ss) = Some S" using Cons.prems(2) by (auto split: if_splits)
    show ?thesis unfolding POP_CASE prop_ops_loop.simps by (rule push [OF h(1) case1_made IH [OF _ h(4)]]) (simp_all add: h(2,3))
  next
    case POP_UNION
    then obtain A B Ss' where h: "Ss = B # A # Ss'" "length Ss' < 2" "pop_den ops ((A \<union> B) # Ss') = Some S"
      using Cons.prems(2) by (auto split: list.splits if_splits)
    show ?thesis unfolding POP_UNION prop_ops_loop.simps by (rule bin [OF h is_in_sets(1) [symmetric]])
  next
    case POP_INTER
    then obtain A B Ss' where h: "Ss = B # A # Ss'" "length Ss' < 2" "pop_den ops ((A \<inter> B) # Ss') = Some S"
      using Cons.prems(2) by (auto split: list.splits if_splits)
    show ?thesis unfolding POP_INTER prop_ops_loop.simps by (rule bin [OF h is_in_sets(2) [symmetric]])
  next
    case POP_XOR
    then obtain A B Ss' where h: "Ss = B # A # Ss'" "length Ss' < 2" "pop_den ops ((A - B \<union> (B - A)) # Ss') = Some S"
      using Cons.prems(2) by (auto split: list.splits if_splits)
    show ?thesis unfolding POP_XOR prop_ops_loop.simps by (rule bin [OF h is_in_sets(3) [symmetric]])
  next
    case POP_INVERT
    then obtain A Ss' where S: "Ss = A # Ss'" "pop_den ops ((- A - {-1}) # Ss') = Some S" using Cons.prems(2) by (auto split: list.splits)
    then obtain s rest where st: "st = s # rest" using Cons.prems(1) by (auto simp: stk_def list_all2_Cons2)
    show ?thesis using POP_INVERT st prop_invert_ok [OF Cons.prems(4) Cons.prems(1) [unfolded st S(1)] n] IH [OF _ S(2)] by simp
  next
    case POP_END
    then have "Ss = [S]" using Cons.prems(2) by (auto split: list.splits)
    then obtain s where s: "st = [s]" "range_of s S" "cr_len s \<le> n * 2 ^ 22" using Cons.prems(1) by (auto simp: stk_def list_all2_Cons2)
    have "n * 2 ^ 22 \<le> 31 * 2 ^ 22" using Cons.prems(3) by (intro mult_le_mono1) simp
    then have le: "cr_len s \<le> 2 ^ 27" "cr_len s \<le> N" using s(3) Cons.prems(5) by simp_all
    then obtain m1 cr1 r where g: "cr_copy ra m cr s = Some (m1, cr1, r)" "made ra (cr_len s) S (m1, cr1, r)"
      using cr_copy_made [OF Cons.prems(4) s(2), of m] by (auto elim!: okE)
    obtain m2 where "cr_free ra m1 s = Some m2" using cr_free_ok by blast
    then show ?thesis using POP_END s(1) g le by (auto simp: made_def)
  qed
qed simp

lemma unicode_prop_ops_ok:
  assumes "pop_den ops [] = Some S" "length ops \<le> 32" "cr_wf cr"
  shows "ok (unicode_prop_ops ra ops m cr) (made ra (2 ^ 27) S)"
  unfolding unicode_prop_ops_def using assms by (intro prop_ops_loop_ok [of "[]" "[]" 0]) (auto simp: stk_def)

end

section \<open>Names of categories and properties\<close>

lemma name_pos_range: "0 \<le> pos \<Longrightarrow> name_pos name pos es = -1 \<or> pos \<le> name_pos name pos es \<and> name_pos name pos es < pos + int (length es)"
proof (induction es arbitrary: pos)
  case (Cons e es)
  show ?case using Cons.IH [of "pos + 1"] Cons.prems by auto
qed simp

lemma prop_names: "\<exists>es. unicode_prop_name_table = c_names es \<and> length es = 53 \<and> (\<forall>e \<in> set es. e \<noteq> [] \<and> NUL \<notin> set e)"
  unfolding unicode_prop_name_table_def by (rule exI, rule conjI [OF refl]) (simp add: NUL_def)

lemma gc_names: "\<exists>es. unicode_gc_name_table = c_names es \<and> length es = 38 \<and> (\<forall>e \<in> set es. e \<noteq> [] \<and> NUL \<notin> set e)"
  unfolding unicode_gc_name_table_def by (rule exI, rule conjI [OF refl]) (simp add: NUL_def)

lemma find_prop_name: "\<exists>pos. unicode_find_name unicode_prop_name_table name = Some pos \<and> -1 \<le> pos \<and> pos < 53"
proof -
  obtain es where "unicode_prop_name_table = c_names es" "length es = 53" "\<forall>e \<in> set es. e \<noteq> [] \<and> NUL \<notin> set e" using prop_names by blast
  then show ?thesis using find_name_loop_ok [of es name 0] name_pos_range [of 0 name es] by (auto simp: unicode_find_name_def)
qed

lemma find_gc_name: "\<exists>pos. unicode_find_name unicode_gc_name_table name = Some pos \<and> -1 \<le> pos \<and> pos < 38"
proof -
  obtain es where "unicode_gc_name_table = c_names es" "length es = 38" "\<forall>e \<in> set es. e \<noteq> [] \<and> NUL \<notin> set e" using gc_names by blast
  then show ?thesis using find_name_loop_ok [of es name 0] name_pos_range [of 0 name es] by (auto simp: unicode_find_name_def)
qed

section \<open>Specification\<close>

text \<open>The code points of some categories.\<close>

definition gcs :: "int list \<Rightarrow> u32 set" where
  "gcs ids = {c. \<exists>g \<in> set ids. gc_at (uint c) 0 (gc_runs unicode_gc_table) = Some g}"

lemma gc_runs_nonneg: "\<forall>(n, v) \<in> set (gc_runs p). 0 \<le> v"
proof (induction p rule: gc_runs.induct)
  case (2 b p)
  show ?case
  proof (cases "gc_count (drop_bit 5 b) p")
    case (Some t)
    obtain n q where t: "t = (n, q)" by (cases t)
    show ?thesis using 2 [OF Some t [symmetric]] Some t by simp
  qed simp
qed simp

lemma gc_at_nonneg: "\<forall>(n, v) \<in> set rs. 0 \<le> v \<Longrightarrow> gc_at c code rs = Some g \<Longrightarrow> 0 \<le> g"
  by (induction c code rs rule: gc_at.induct) (auto split: if_splits)

lemma has_bit_M_GC: "\<forall>i \<in> set ids. 0 \<le> i \<Longrightarrow> 0 \<le> g \<Longrightarrow> has_bit (M_GC ids) g \<longleftrightarrow> g \<in> set ids"
proof (induction ids)
  case Nil
  show ?case by (simp add: has_bit_def)
next
  case (Cons i ids)
  then show ?case by (auto simp: has_bit_bit bit_or_iff bit_exp_iff nat_eq_iff2)
qed

lemma gc_set_M_GC: "\<forall>i \<in> set ids. 0 \<le> i \<Longrightarrow> gc_set (M_GC ids) = gcs ids"
  using has_bit_M_GC [of ids] gc_at_nonneg [OF gc_runs_nonneg] unfolding gc_set_def gcs_def by blast

abbreviation (input) "gc_letters \<equiv> [UNICODE_GC_Lu, UNICODE_GC_Ll, UNICODE_GC_Lt, UNICODE_GC_Lm, UNICODE_GC_Lo, UNICODE_GC_Nl]"

abbreviation (input) "patterns \<equiv> prop_set UNICODE_PROP_Pattern_Syntax \<union> prop_set UNICODE_PROP_Pattern_White_Space"

abbreviation compl32 :: "u32 set \<Rightarrow> u32 set" where
  "compl32 A \<equiv> - A - {-1}"

abbreviation xor_set :: "u32 set \<Rightarrow> u32 set \<Rightarrow> u32 set" where
  "xor_set A B \<equiv> A - B \<union> (B - A)"

text \<open>The set of every property, by its number.  Complements are taken in the 32-bit values but the last.\<close>

definition prop_spec :: "int \<Rightarrow> u32 set" where
  "prop_spec i =
     (if i = UNICODE_PROP_ASCII then {c. c < 0x80}
      else if i = UNICODE_PROP_Any then {c. c < 0x110000}
      else if i = UNICODE_PROP_Assigned then compl32 (gcs [UNICODE_GC_Cn])
      else if i = UNICODE_PROP_Math then gcs [UNICODE_GC_Sm] \<union> prop_set UNICODE_PROP_Other_Math
      else if i = UNICODE_PROP_Lowercase then gcs [UNICODE_GC_Ll] \<union> prop_set UNICODE_PROP_Other_Lowercase
      else if i = UNICODE_PROP_Uppercase then gcs [UNICODE_GC_Lu] \<union> prop_set UNICODE_PROP_Other_Uppercase
      else if i = UNICODE_PROP_Cased then
        gcs [UNICODE_GC_Lu, UNICODE_GC_Ll, UNICODE_GC_Lt] \<union> prop_set UNICODE_PROP_Other_Uppercase \<union> prop_set UNICODE_PROP_Other_Lowercase
      else if i = UNICODE_PROP_Alphabetic then
        gcs gc_letters \<union> prop_set UNICODE_PROP_Other_Uppercase \<union> prop_set UNICODE_PROP_Other_Lowercase
          \<union> prop_set UNICODE_PROP_Other_Alphabetic
      else if i = UNICODE_PROP_Grapheme_Base then
        compl32 (gcs [UNICODE_GC_Cc, UNICODE_GC_Cf, UNICODE_GC_Cs, UNICODE_GC_Co, UNICODE_GC_Cn, UNICODE_GC_Zl, UNICODE_GC_Zp,
          UNICODE_GC_Me, UNICODE_GC_Mn] \<union> prop_set UNICODE_PROP_Other_Grapheme_Extend)
      else if i = UNICODE_PROP_Grapheme_Extend then gcs [UNICODE_GC_Me, UNICODE_GC_Mn] \<union> prop_set UNICODE_PROP_Other_Grapheme_Extend
      else if i = UNICODE_PROP_XID_Start then
        (gcs gc_letters \<union> prop_set UNICODE_PROP_Other_ID_Start) \<inter> compl32 (patterns \<union> prop_set UNICODE_PROP_XID_Start1)
      else if i = UNICODE_PROP_XID_Continue then
        (gcs (gc_letters @ [UNICODE_GC_Mn, UNICODE_GC_Mc, UNICODE_GC_Nd, UNICODE_GC_Pc]) \<union> prop_set UNICODE_PROP_Other_ID_Start
          \<union> prop_set UNICODE_PROP_Other_ID_Continue) \<inter> compl32 (patterns \<union> prop_set UNICODE_PROP_XID_Continue1)
      else if i = UNICODE_PROP_Changes_When_Uppercased then case_set CASE_U
      else if i = UNICODE_PROP_Changes_When_Lowercased then case_set CASE_L
      else if i = UNICODE_PROP_Changes_When_Casemapped then case_set (CASE_U OR CASE_L OR CASE_F)
      else if i = UNICODE_PROP_Changes_When_Titlecased then
        xor_set (case_set CASE_U) (prop_set UNICODE_PROP_Changes_When_Titlecased1)
      else if i = UNICODE_PROP_Changes_When_Casefolded then
        xor_set (case_set CASE_F) (prop_set UNICODE_PROP_Changes_When_Casefolded1)
      else if i = UNICODE_PROP_Changes_When_NFKC_Casefolded then
        xor_set (case_set CASE_F) (prop_set UNICODE_PROP_Changes_When_NFKC_Casefolded1)
      else if i = UNICODE_PROP_ID_Continue then xor_set (prop_set UNICODE_PROP_ID_Start) (prop_set UNICODE_PROP_ID_Continue1)
      else prop_set i)"

lemma prop_program_den: "prop_program i = Some ops \<Longrightarrow> pop_den ops [] = Some (prop_spec i) \<and> length ops \<le> 32"
  by (auto simp: prop_program_def prop_spec_def gc_set_M_GC simp del: M_GC.simps split: if_splits)

lemma prop_program_total:
  "50 \<le> i \<Longrightarrow> i < 69 \<Longrightarrow> i \<notin> {50, 52, 56, 57, 60} \<Longrightarrow> prop_program i \<noteq> None"
  unfolding prop_program_def by (simp, presburger)

lemma prop_program_none: "i < 50 \<Longrightarrow> prop_program i = None \<and> prop_spec i = prop_set i"
  by (simp add: prop_program_def prop_spec_def)

context cr_alloc
begin

lemma interval_made:
  assumes "cr_wf cr" "cr_pts cr = []" "0 < b" "b < 2 ^ 32"
  shows "ok (add_then ra True m cr 0 b (\<lambda>m cr. Some (m, cr, 0))) (made ra (2 ^ 22) {c. uint c < b})"
proof -
  have "ok (add_all ra [(0, b)] m cr (\<lambda>m cr. Some (m, cr, 0))) (built ra (ivs_set [(0, b)]))"
    using assms(3,4) by (intro add_all_built [OF assms(1,2), of _ b]) auto
  then have "ok (add_then ra True m cr 0 b (\<lambda>m cr. Some (m, cr, 0))) (built ra {0..<b})" by simp
  then show ?thesis by (rule ok_mono, elim built_made) auto
qed

lemma made_27: "ok f (made ra (2 ^ 22) S) \<Longrightarrow> ok f (made ra (2 ^ 27) S)"
  by (erule ok_mono) (auto simp: made_def)

lemma unicode_prop_ok:
  assumes "cr_wf cr" "cr_pts cr = []" "unicode_find_name unicode_prop_name_table name = Some pos" "0 \<le> pos" "pos < 53"
  shows "ok (unicode_prop ra name m cr) (made ra (2 ^ 27) (prop_spec (pos + 16)))"
proof -
  define i where "i = pos + 16"
  have i: "16 \<le> i" "i < 69" using assms(4,5) by (auto simp: i_def)
  note d = unicode_prop_def assms(3) bind.bind_lunit Let_def i_def [symmetric]
  have np: "\<not> pos < 0" using assms(4) by simp
  consider "i = 50" | "i = 52" | "i = 60" | "i = 57" | "i = 56" | "i < 50" | "50 \<le> i" "i \<notin> {50, 52, 56, 57, 60}" by fastforce
  then show ?thesis
  proof cases
    case 1
    have "{c :: u32. uint c < 0x80} = prop_spec i" using 1 by (auto simp: prop_spec_def word_less_def)
    then show ?thesis using made_27 [OF interval_made [OF assms(1,2), of "0x80" m]] 1 np by (simp add: d)
  next
    case 2
    have "{c :: u32. uint c < 0x110000} = prop_spec i" using 2 by (auto simp: prop_spec_def word_less_def)
    then show ?thesis using made_27 [OF interval_made [OF assms(1,2), of "0x110000" m]] 2 np by (simp add: d)
  next
    case 3
    then show ?thesis using made_27 [OF case1_made [OF assms(1,2), of CASE_U m]] np by (simp add: d prop_spec_def)
  next
    case 4
    then show ?thesis using made_27 [OF case1_made [OF assms(1,2), of CASE_L m]] np by (simp add: d prop_spec_def)
  next
    case 5
    then show ?thesis using made_27 [OF case1_made [OF assms(1,2), of "CASE_U OR CASE_L OR CASE_F" m]] np by (simp add: d prop_spec_def)
  next
    case 6
    then show ?thesis using made_27 [OF prop1_made [OF assms(1,2), of i m]] i prop_program_none [OF 6] prop_table_length np by (simp add: d)
  next
    case 7
    then obtain ops where o: "prop_program i = Some ops" using prop_program_total [of i] i by auto
    then show ?thesis using unicode_prop_ops_ok [of ops "prop_spec i" cr m] prop_program_den [OF o] assms(1) 7 np by (simp add: d)
  qed
qed

end

text \<open>The categories behind the names of \<open>unicode_gc_name_table\<close>.\<close>

definition gc_spec :: "int \<Rightarrow> int list" where
  "gc_spec pos =
     (if pos \<le> UNICODE_GC_Co then [pos]
      else [[UNICODE_GC_Lu, UNICODE_GC_Ll, UNICODE_GC_Lt],
        [UNICODE_GC_Lu, UNICODE_GC_Ll, UNICODE_GC_Lt, UNICODE_GC_Lm, UNICODE_GC_Lo],
        [UNICODE_GC_Mn, UNICODE_GC_Mc, UNICODE_GC_Me], [UNICODE_GC_Nd, UNICODE_GC_Nl, UNICODE_GC_No],
        [UNICODE_GC_Sm, UNICODE_GC_Sc, UNICODE_GC_Sk, UNICODE_GC_So],
        [UNICODE_GC_Pc, UNICODE_GC_Pd, UNICODE_GC_Ps, UNICODE_GC_Pe, UNICODE_GC_Pi, UNICODE_GC_Pf, UNICODE_GC_Po],
        [UNICODE_GC_Zs, UNICODE_GC_Zl, UNICODE_GC_Zp],
        [UNICODE_GC_Cc, UNICODE_GC_Cf, UNICODE_GC_Cs, UNICODE_GC_Co, UNICODE_GC_Cn]] ! nat (pos - UNICODE_GC_LC))"

lemma gc_mask_entry:
  assumes "30 \<le> pos" "pos < 38"
  shows "\<exists>mk. rdi unicode_gc_mask_table (pos - 30) = Some mk \<and> gc_set mk = gcs (gc_spec pos)"
proof -
  have "pos \<in> {30, 31, 32, 33, 34, 35, 36, 37}" using assms by auto
  then show ?thesis by (auto simp: unicode_gc_mask_table_def rdi_def rd_def gc_spec_def gc_set_M_GC simp del: M_GC.simps)
qed

context cr_alloc
begin

lemma unicode_general_category_ok:
  assumes "cr_wf cr" "cr_pts cr = []" "unicode_find_name unicode_gc_name_table name = Some pos" "0 \<le> pos" "pos < 38"
  shows "ok (unicode_general_category ra name m cr) (made ra (2 ^ 22) (gcs (gc_spec pos)))"
proof (cases "pos \<le> 29")
  case True
  have "M_GC [pos] = push_bit (nat pos) 1" by simp
  then have "gc_set (push_bit (nat pos) 1) = gcs [pos]" using gc_set_M_GC [of "[pos]"] assms(4) by simp
  then show ?thesis using gc1_made [OF assms(1,2), of "push_bit (nat pos) 1" m] True assms(3,4)
    by (simp add: unicode_general_category_def gc_spec_def)
next
  case False
  then obtain mk where k: "rdi unicode_gc_mask_table (pos - 30) = Some mk" "gc_set mk = gcs (gc_spec pos)"
    using gc_mask_entry [of pos] assms(5) by auto
  then show ?thesis using gc1_made [OF assms(1,2), of mk m] False assms(3,4) by (simp add: unicode_general_category_def)
qed

end

lemma find_Math: "unicode_find_name unicode_prop_name_table ''Math'' = Some 49" "unicode_find_name unicode_gc_name_table ''Math'' = Some (-1)"
  unfolding unicode_prop_name_table_def unicode_gc_name_table_def unicode_find_name_def
  by (subst find_name_loop_ok; simp add: NUL_def split_comma.simps)+

section \<open>Claims\<close>

text \<open>C35. \<open>unicode_find_name\<close> on a table of non-empty entries returns, for every name, the position of the first entry
  that has the name among its alternatives, and -1 when no entry has it; it never reads past the table.\<close>

theorem unicode_find_name_correct:
  assumes "\<forall>e \<in> set es. e \<noteq> [] \<and> NUL \<notin> set e"
  shows "unicode_find_name (c_names es) name = Some (name_pos name 0 es)"
  unfolding unicode_find_name_def by (rule find_name_loop_ok [OF assms])

theorem unicode_find_name_correct_witness:
  "unicode_find_name (c_names [''Cn,Unassigned'', ''Lu,Uppercase_Letter'']) ''Uppercase_Letter'' = Some 1"
  using unicode_find_name_correct [of "[''Cn,Unassigned'', ''Lu,Uppercase_Letter'']" "''Uppercase_Letter''"]
  by (simp add: NUL_def split_comma.simps)

text \<open>C33. \<open>unicode_prop_ops\<close> evaluates its program over sets: whenever the program can be evaluated on a stack of at most
  four sets, no assertion fails and no access is out of bounds, and the result is the sorted range of the
  set, or -1 when an allocation was refused.\<close>

theorem unicode_prop_ops_correct:
  assumes "cr_alloc ra" "pop_den ops [] = Some S" "length ops \<le> 32" "cr_wf cr"
  shows "\<exists>m' cr' r. unicode_prop_ops ra ops m cr = Some (m', cr', r)
    \<and> (r = 0 \<and> sorted (cr_pts cr') \<and> cr_set (cr_pts cr') = S \<or> r = -1 \<and> \<not> never_refuses ra)"
  using cr_alloc.unicode_prop_ops_ok [OF assms, of m] by (auto simp: made_def range_of_def elim!: okE)

theorem unicode_prop_ops_correct_witness:
  "\<exists>m' cr'. unicode_prop_ops granting_realloc [POP_CASE 1, POP_PROP 13, POP_XOR, POP_END] 0 cr_init = Some (m', cr', 0)
    \<and> cr_set (cr_pts cr') = case_set 1 - prop_set 13 \<union> (prop_set 13 - case_set 1)"
  using unicode_prop_ops_correct [OF granting_cr.cr_alloc_axioms, of "[POP_CASE 1, POP_PROP 13, POP_XOR, POP_END]"
      "case_set 1 - prop_set 13 \<union> (prop_set 13 - case_set 1)" cr_init 0] granting_never_refuses
  by auto

text \<open>C32. \<open>unicode_prop\<close> and \<open>unicode_general_category\<close> from an empty range, for any name: an unknown name gives -2 and changes
  nothing; every name in the tables gives the sorted range of its property or of its categories, or -1 when an
  allocation was refused.  No name of the table of properties ends without a definition.\<close>

theorem unicode_prop_correct:
  assumes "cr_alloc ra" "cr_wf cr" "cr_pts cr = []"
  shows "(\<exists>pos m' cr' r. unicode_find_name unicode_prop_name_table name = Some pos \<and> unicode_prop ra name m cr = Some (m', cr', r)
      \<and> (if pos = -1 then r = -2 \<and> m' = m \<and> cr' = cr
         else r = 0 \<and> sorted (cr_pts cr') \<and> cr_set (cr_pts cr') = prop_spec (pos + 16) \<or> r = -1 \<and> \<not> never_refuses ra))
    \<and> (\<exists>pos m' cr' r. unicode_find_name unicode_gc_name_table name = Some pos \<and> unicode_general_category ra name m cr = Some (m', cr', r)
      \<and> (if pos = -1 then r = -2 \<and> m' = m \<and> cr' = cr
         else r = 0 \<and> sorted (cr_pts cr') \<and> cr_set (cr_pts cr') = gcs (gc_spec pos) \<or> r = -1 \<and> \<not> never_refuses ra))"
proof
  obtain p where p: "unicode_find_name unicode_prop_name_table name = Some p" "-1 \<le> p" "p < 53" using find_prop_name by blast
  show "\<exists>pos m' cr' r. unicode_find_name unicode_prop_name_table name = Some pos \<and> unicode_prop ra name m cr = Some (m', cr', r)
      \<and> (if pos = -1 then r = -2 \<and> m' = m \<and> cr' = cr
         else r = 0 \<and> sorted (cr_pts cr') \<and> cr_set (cr_pts cr') = prop_spec (pos + 16) \<or> r = -1 \<and> \<not> never_refuses ra)"
  proof (cases "p = -1")
    case False
    then show ?thesis using cr_alloc.unicode_prop_ok [OF assms p(1) _ p(3), of m] p(1,2) by (auto simp: made_def range_of_def elim!: okE)
  qed (use p in \<open>simp add: unicode_prop_def\<close>)
  obtain q where q: "unicode_find_name unicode_gc_name_table name = Some q" "-1 \<le> q" "q < 38" using find_gc_name by blast
  show "\<exists>pos m' cr' r. unicode_find_name unicode_gc_name_table name = Some pos \<and> unicode_general_category ra name m cr = Some (m', cr', r)
      \<and> (if pos = -1 then r = -2 \<and> m' = m \<and> cr' = cr
         else r = 0 \<and> sorted (cr_pts cr') \<and> cr_set (cr_pts cr') = gcs (gc_spec pos) \<or> r = -1 \<and> \<not> never_refuses ra)"
  proof (cases "q = -1")
    case False
    then show ?thesis using cr_alloc.unicode_general_category_ok [OF assms q(1) _ q(3), of m] q(1,2) by (auto simp: made_def range_of_def elim!: okE)
  qed (use q in \<open>simp add: unicode_general_category_def\<close>)
qed

theorem unicode_prop_correct_witness:
  "\<exists>m' cr'. unicode_prop granting_realloc ''Math'' 0 cr_init = Some (m', cr', 0)
    \<and> cr_set (cr_pts cr') = gcs [UNICODE_GC_Sm] \<union> prop_set UNICODE_PROP_Other_Math"
  using unicode_prop_correct [OF granting_cr.cr_alloc_axioms, of cr_init "''Math''" 0] granting_never_refuses find_Math
  by (auto simp: prop_spec_def)

end
