(* ===== verification/IdProps.thy ===== *)
theory IdProps
  imports PropOps_Sets
begin

text \<open>
  The lookups of single code points and the ranges of the properties with the same names agree, although one
  searches a table through an index and the other decodes it, and one combines two tables by disjunction and the
  other by symmetric difference: the two tables are disjoint.
\<close>

fun disj_runs :: "int list \<Rightarrow> bool \<Rightarrow> int list \<Rightarrow> bool \<Rightarrow> bool" where
  "disj_runs [] a ss b = True"
| "disj_runs rs a [] b = True"
| "disj_runs (r # rs) a (s # ss) b =
     (\<not> (a \<and> b) \<and> (if r < s then disj_runs rs (\<not> a) ((s - r) # ss) b
        else if s < r then disj_runs ((r - s) # rs) a ss (\<not> b) else disj_runs rs (\<not> a) ss (\<not> b)))"

lemma disj_runs_ok: "disj_runs rs a ss b \<Longrightarrow> \<not> (in_runs c code a rs \<and> in_runs c code b ss)"
proof (induction rs a ss b arbitrary: code rule: disj_runs.induct)
  case (3 r rs a s ss b)
  consider "r < s" | "s < r" | "r = s" by linarith
  then show ?case
  proof cases
    case 1
    then show ?thesis using 3(1) [OF 1, of "code + r"] 3(4) by (auto split: if_splits)
  next
    case 2
    then show ?thesis using 3(2) [OF _ 2, of "code + s"] 3(4) by (auto split: if_splits)
  next
    case 3
    then show ?thesis using "3.IH"(3) [of "code + r"] "3.prems" by (auto split: if_splits)
  qed
qed simp_all

lemma id_tables_disjoint: "disj_runs (prop_runs unicode_prop_ID_Start_table) False (prop_runs unicode_prop_ID_Continue1_table) False"
  by code_simp

lemma id_prop_sets:
  "prop_set 48 = {c. in_runs (uint c) 0 False (prop_runs unicode_prop_ID_Start_table)}"
  "prop_set 10 = {c. in_runs (uint c) 0 False (prop_runs unicode_prop_ID_Continue1_table)}"
  "prop_set 49 = {c. in_runs (uint c) 0 False (prop_runs unicode_prop_Case_Ignorable_table)}"
  by (simp_all add: prop_set_def unicode_prop_table_def)

text \<open>C34. For every 32-bit value the lookups \<open>lre_is_id_start\<close>, \<open>lre_is_id_continue\<close> and \<open>lre_is_case_ignorable\<close> answer membership in the sets
  that \<open>unicode_prop\<close> builds for the properties \<open>ID_Start\<close>, \<open>ID_Continue\<close> and \<open>Case_Ignorable\<close>.\<close>

theorem lookups_agree_with_properties:
  "lre_is_id_start (uint c) = Some (c \<in> prop_spec 48)
   \<and> lre_is_id_continue (uint c) = Some (c \<in> prop_spec 63)
   \<and> lre_is_case_ignorable (uint c) = Some (c \<in> prop_spec 49)"
proof -
  have "\<not> (c \<in> prop_set 48 \<and> c \<in> prop_set 10)"
    using disj_runs_ok [OF id_tables_disjoint, of "uint c" 0] by (simp add: id_prop_sets)
  then have "c \<in> prop_spec 63 \<longleftrightarrow> c \<in> prop_set 48 \<or> c \<in> prop_set 10" by (auto simp: prop_spec_def)
  moreover have "prop_spec 48 = prop_set 48" "prop_spec 49 = prop_set 49" by (simp_all add: prop_spec_def)
  ultimately show ?thesis
    using lre_is_in_table_ok [OF ID_Start_ok, of "uint c"] lre_is_in_table_ok [OF ID_Continue1_ok, of "uint c"]
      lre_is_in_table_ok [OF Case_Ignorable_ok, of "uint c"]
    by (simp add: lre_is_id_start_def lre_is_id_continue_def lre_is_case_ignorable_def id_prop_sets)
qed

end
