(* ===== verification/UniScripts.thy ===== *)
theory UniScripts
  imports UniProps
begin

text \<open>
  Tables of \<open>src/native/quickjs/libunicode-table.h\<close> for scripts and script extensions.
\<close>

definition unicode_script_name_table :: string where
  "unicode_script_name_table = c_names [
    ''Adlam,Adlm'', ''Ahom,Ahom'', ''Anatolian_Hieroglyphs,Hluw'', ''Arabic,Arab'', ''Armenian,Armn'',
    ''Avestan,Avst'', ''Balinese,Bali'', ''Bamum,Bamu'', ''Bassa_Vah,Bass'', ''Batak,Batk'', ''Bengali,Beng'',
    ''Bhaiksuki,Bhks'', ''Bopomofo,Bopo'', ''Brahmi,Brah'', ''Braille,Brai'', ''Buginese,Bugi'', ''Buhid,Buhd'',
    ''Canadian_Aboriginal,Cans'', ''Carian,Cari'', ''Caucasian_Albanian,Aghb'', ''Chakma,Cakm'', ''Cham,Cham'',
    ''Cherokee,Cher'', ''Chorasmian,Chrs'', ''Common,Zyyy'', ''Coptic,Copt,Qaac'', ''Cuneiform,Xsux'',
    ''Cypriot,Cprt'', ''Cyrillic,Cyrl'', ''Cypro_Minoan,Cpmn'', ''Deseret,Dsrt'', ''Devanagari,Deva'',
    ''Dives_Akuru,Diak'', ''Dogra,Dogr'', ''Duployan,Dupl'', ''Egyptian_Hieroglyphs,Egyp'', ''Elbasan,Elba'',
    ''Elymaic,Elym'', ''Ethiopic,Ethi'', ''Georgian,Geor'', ''Glagolitic,Glag'', ''Gothic,Goth'', ''Grantha,Gran'',
    ''Greek,Grek'', ''Gujarati,Gujr'', ''Gunjala_Gondi,Gong'', ''Gurmukhi,Guru'', ''Han,Hani'', ''Hangul,Hang'',
    ''Hanifi_Rohingya,Rohg'', ''Hanunoo,Hano'', ''Hatran,Hatr'', ''Hebrew,Hebr'', ''Hiragana,Hira'',
    ''Imperial_Aramaic,Armi'', ''Inherited,Zinh,Qaai'', ''Inscriptional_Pahlavi,Phli'',
    ''Inscriptional_Parthian,Prti'', ''Javanese,Java'', ''Kaithi,Kthi'', ''Kannada,Knda'', ''Katakana,Kana'',
    ''Kawi,Kawi'', ''Kayah_Li,Kali'', ''Kharoshthi,Khar'', ''Khmer,Khmr'', ''Khojki,Khoj'',
    ''Khitan_Small_Script,Kits'', ''Khudawadi,Sind'', ''Lao,Laoo'', ''Latin,Latn'', ''Lepcha,Lepc'', ''Limbu,Limb'',
    ''Linear_A,Lina'', ''Linear_B,Linb'', ''Lisu,Lisu'', ''Lycian,Lyci'', ''Lydian,Lydi'', ''Makasar,Maka'',
    ''Mahajani,Mahj'', ''Malayalam,Mlym'', ''Mandaic,Mand'', ''Manichaean,Mani'', ''Marchen,Marc'',
    ''Masaram_Gondi,Gonm'', ''Medefaidrin,Medf'', ''Meetei_Mayek,Mtei'', ''Mende_Kikakui,Mend'',
    ''Meroitic_Cursive,Merc'', ''Meroitic_Hieroglyphs,Mero'', ''Miao,Plrd'', ''Modi,Modi'', ''Mongolian,Mong'',
    ''Mro,Mroo'', ''Multani,Mult'', ''Myanmar,Mymr'', ''Nabataean,Nbat'', ''Nag_Mundari,Nagm'', ''Nandinagari,Nand'',
    ''New_Tai_Lue,Talu'', ''Newa,Newa'', ''Nko,Nkoo'', ''Nushu,Nshu'', ''Nyiakeng_Puachue_Hmong,Hmnp'',
    ''Ogham,Ogam'', ''Ol_Chiki,Olck'', ''Old_Hungarian,Hung'', ''Old_Italic,Ital'', ''Old_North_Arabian,Narb'',
    ''Old_Permic,Perm'', ''Old_Persian,Xpeo'', ''Old_Sogdian,Sogo'', ''Old_South_Arabian,Sarb'', ''Old_Turkic,Orkh'',
    ''Old_Uyghur,Ougr'', ''Oriya,Orya'', ''Osage,Osge'', ''Osmanya,Osma'', ''Pahawh_Hmong,Hmng'', ''Palmyrene,Palm'',
    ''Pau_Cin_Hau,Pauc'', ''Phags_Pa,Phag'', ''Phoenician,Phnx'', ''Psalter_Pahlavi,Phlp'', ''Rejang,Rjng'',
    ''Runic,Runr'', ''Samaritan,Samr'', ''Saurashtra,Saur'', ''Sharada,Shrd'', ''Shavian,Shaw'', ''Siddham,Sidd'',
    ''SignWriting,Sgnw'', ''Sinhala,Sinh'', ''Sogdian,Sogd'', ''Sora_Sompeng,Sora'', ''Soyombo,Soyo'',
    ''Sundanese,Sund'', ''Syloti_Nagri,Sylo'', ''Syriac,Syrc'', ''Tagalog,Tglg'', ''Tagbanwa,Tagb'', ''Tai_Le,Tale'',
    ''Tai_Tham,Lana'', ''Tai_Viet,Tavt'', ''Takri,Takr'', ''Tamil,Taml'', ''Tangut,Tang'', ''Telugu,Telu'',
    ''Thaana,Thaa'', ''Thai,Thai'', ''Tibetan,Tibt'', ''Tifinagh,Tfng'', ''Tirhuta,Tirh'', ''Tangsa,Tnsa'',
    ''Toto,Toto'', ''Ugaritic,Ugar'', ''Vai,Vaii'', ''Vithkuqi,Vith'', ''Wancho,Wcho'', ''Warang_Citi,Wara'',
    ''Yezidi,Yezi'', ''Yi,Yiii'', ''Zanabazar_Square,Zanb'']"

definition unicode_script_table_1 :: "int list" where
  "unicode_script_table_1 = [
    0xc0, 0x19, 0x99, 0x47, 0x85, 0x19, 0x99, 0x47, 0xae, 0x19, 0x80, 0x47, 0x8e, 0x19, 0x80, 0x47, 0x84, 0x19, 0x96,
    0x47, 0x80, 0x19, 0x9e, 0x47, 0x80, 0x19, 0xe1, 0x60, 0x47, 0xa6, 0x19, 0x84, 0x47, 0x84, 0x19, 0x81, 0xd, 0x93,
    0x19, 0xe0, 0xf, 0x38, 0x83, 0x2c, 0x80, 0x19, 0x82, 0x2c, 0x1, 0x83, 0x2c, 0x80, 0x19, 0x80, 0x2c, 0x3, 0x80,
    0x2c, 0x80, 0x19, 0x80, 0x2c, 0x80, 0x19, 0x82, 0x2c, 0x0, 0x80, 0x2c, 0x0, 0x93, 0x2c, 0x0, 0xbe, 0x2c, 0x8d,
    0x1a, 0x8f, 0x2c, 0xe0, 0x24, 0x1d, 0x81, 0x38, 0xe0, 0x48, 0x1d, 0x0, 0xa5, 0x5, 0x1, 0xb1, 0x5, 0x1, 0x82, 0x5,
    0x0, 0xb6, 0x35, 0x7, 0x9a, 0x35, 0x3, 0x85, 0x35, 0xa, 0x84, 0x4, 0x80, 0x19, 0x85, 0x4, 0x80, 0x19, 0x8d, 0x4,
    0x80, 0x19, 0x82, 0x4, 0x80, 0x19, 0x9f, 0x4, 0x80, 0x19, 0x89, 0x4, 0x8a, 0x38, 0x99, 0x4, 0x80, 0x38, 0xe0, 0xb,
    0x4, 0x80, 0x19, 0xa1, 0x4, 0x8d, 0x8b, 0x0, 0xbb, 0x8b, 0x1, 0x82, 0x8b, 0xaf, 0x4, 0xb1, 0x95, 0xd, 0xba, 0x66,
    0x1, 0x82, 0x66, 0xad, 0x7f, 0x1, 0x8e, 0x7f, 0x0, 0x9b, 0x52, 0x1, 0x80, 0x52, 0x0, 0x8a, 0x8b, 0x4, 0x9e, 0x4,
    0x0, 0x81, 0x4, 0x5, 0xc9, 0x4, 0x80, 0x19, 0x9c, 0x4, 0xd0, 0x20, 0x83, 0x38, 0x8e, 0x20, 0x81, 0x19, 0x99, 0x20,
    0x83, 0xb, 0x0, 0x87, 0xb, 0x1, 0x81, 0xb, 0x1, 0x95, 0xb, 0x0, 0x86, 0xb, 0x0, 0x80, 0xb, 0x2, 0x83, 0xb, 0x1,
    0x88, 0xb, 0x1, 0x81, 0xb, 0x1, 0x83, 0xb, 0x7, 0x80, 0xb, 0x3, 0x81, 0xb, 0x0, 0x84, 0xb, 0x1, 0x98, 0xb, 0x1,
    0x82, 0x2f]"

definition unicode_script_table_2 :: "int list" where
  "unicode_script_table_2 = [
    0x0, 0x85, 0x2f, 0x3, 0x81, 0x2f, 0x1, 0x95, 0x2f, 0x0, 0x86, 0x2f, 0x0, 0x81, 0x2f, 0x0, 0x81, 0x2f, 0x0, 0x81,
    0x2f, 0x1, 0x80, 0x2f, 0x0, 0x84, 0x2f, 0x3, 0x81, 0x2f, 0x1, 0x82, 0x2f, 0x2, 0x80, 0x2f, 0x6, 0x83, 0x2f, 0x0,
    0x80, 0x2f, 0x6, 0x90, 0x2f, 0x9, 0x82, 0x2d, 0x0, 0x88, 0x2d, 0x0, 0x82, 0x2d, 0x0, 0x95, 0x2d, 0x0, 0x86, 0x2d,
    0x0, 0x81, 0x2d, 0x0, 0x84, 0x2d, 0x1, 0x89, 0x2d, 0x0, 0x82, 0x2d, 0x0, 0x82, 0x2d, 0x1, 0x80, 0x2d, 0xe, 0x83,
    0x2d, 0x1, 0x8b, 0x2d, 0x6, 0x86, 0x2d, 0x0, 0x82, 0x74, 0x0, 0x87, 0x74, 0x1, 0x81, 0x74, 0x1, 0x95, 0x74, 0x0,
    0x86, 0x74, 0x0, 0x81, 0x74, 0x0, 0x84, 0x74, 0x1, 0x88, 0x74, 0x1, 0x81, 0x74, 0x1, 0x82, 0x74, 0x6, 0x82, 0x74,
    0x3, 0x81, 0x74, 0x0, 0x84, 0x74, 0x1, 0x91, 0x74, 0x9, 0x81, 0x92, 0x0, 0x85, 0x92, 0x2, 0x82, 0x92, 0x0, 0x83,
    0x92, 0x2, 0x81, 0x92, 0x0, 0x80, 0x92, 0x0, 0x81, 0x92, 0x2, 0x81, 0x92, 0x2, 0x82, 0x92, 0x2, 0x8b, 0x92, 0x3,
    0x84, 0x92, 0x2, 0x82, 0x92, 0x0, 0x83, 0x92, 0x1, 0x80, 0x92, 0x5, 0x80, 0x92, 0xd, 0x94, 0x92, 0x4, 0x8c, 0x94,
    0x0, 0x82, 0x94, 0x0, 0x96, 0x94, 0x0, 0x8f, 0x94, 0x1, 0x88, 0x94, 0x0, 0x82, 0x94, 0x0, 0x83, 0x94, 0x6, 0x81,
    0x94, 0x0, 0x82, 0x94, 0x1, 0x80, 0x94, 0x1, 0x83, 0x94, 0x1, 0x89, 0x94, 0x6, 0x88, 0x94, 0x8c, 0x3d, 0x0, 0x82,
    0x3d, 0x0, 0x96, 0x3d, 0x0, 0x89, 0x3d, 0x0, 0x84, 0x3d, 0x1, 0x88, 0x3d, 0x0, 0x82, 0x3d, 0x0, 0x83, 0x3d, 0x6]"

definition unicode_script_table_3 :: "int list" where
  "unicode_script_table_3 = [
    0x81, 0x3d, 0x5, 0x81, 0x3d, 0x0, 0x83, 0x3d, 0x1, 0x89, 0x3d, 0x0, 0x82, 0x3d, 0xb, 0x8c, 0x51, 0x0, 0x82, 0x51,
    0x0, 0xb2, 0x51, 0x0, 0x82, 0x51, 0x0, 0x85, 0x51, 0x3, 0x8f, 0x51, 0x1, 0x99, 0x51, 0x0, 0x82, 0x85, 0x0, 0x91,
    0x85, 0x2, 0x97, 0x85, 0x0, 0x88, 0x85, 0x0, 0x80, 0x85, 0x1, 0x86, 0x85, 0x2, 0x80, 0x85, 0x3, 0x85, 0x85, 0x0,
    0x80, 0x85, 0x0, 0x87, 0x85, 0x5, 0x89, 0x85, 0x1, 0x82, 0x85, 0xb, 0xb9, 0x96, 0x3, 0x80, 0x19, 0x9b, 0x96, 0x24,
    0x81, 0x46, 0x0, 0x80, 0x46, 0x0, 0x84, 0x46, 0x0, 0x97, 0x46, 0x0, 0x80, 0x46, 0x0, 0x96, 0x46, 0x1, 0x84, 0x46,
    0x0, 0x80, 0x46, 0x0, 0x86, 0x46, 0x0, 0x89, 0x46, 0x1, 0x83, 0x46, 0x1f, 0xc7, 0x97, 0x0, 0xa3, 0x97, 0x3, 0xa6,
    0x97, 0x0, 0xa3, 0x97, 0x0, 0x8e, 0x97, 0x0, 0x86, 0x97, 0x83, 0x19, 0x81, 0x97, 0x24, 0xe0, 0x3f, 0x60, 0xa5,
    0x28, 0x0, 0x80, 0x28, 0x4, 0x80, 0x28, 0x1, 0xaa, 0x28, 0x80, 0x19, 0x83, 0x28, 0xe0, 0x9f, 0x31, 0xc8, 0x27,
    0x0, 0x83, 0x27, 0x1, 0x86, 0x27, 0x0, 0x80, 0x27, 0x0, 0x83, 0x27, 0x1, 0xa8, 0x27, 0x0, 0x83, 0x27, 0x1, 0xa0,
    0x27, 0x0, 0x83, 0x27, 0x1, 0x86, 0x27, 0x0, 0x80, 0x27, 0x0, 0x83, 0x27, 0x1, 0x8e, 0x27, 0x0, 0xb8, 0x27, 0x0,
    0x83, 0x27, 0x1, 0xc2, 0x27, 0x1, 0x9f, 0x27, 0x2, 0x99, 0x27, 0x5, 0xd5, 0x17, 0x1, 0x85, 0x17, 0x1, 0xe2, 0x1f,
    0x12, 0x9c, 0x69, 0x2, 0xca, 0x7e, 0x82, 0x19, 0x8a, 0x7e, 0x6, 0x95, 0x8c, 0x8, 0x80, 0x8c, 0x94, 0x33, 0x81,
    0x19, 0x8, 0x93, 0x11, 0xb, 0x8c, 0x8d, 0x0, 0x82, 0x8d, 0x0]"

definition unicode_script_table_4 :: "int list" where
  "unicode_script_table_4 = [
    0x81, 0x8d, 0xb, 0xdd, 0x42, 0x1, 0x89, 0x42, 0x5, 0x89, 0x42, 0x5, 0x81, 0x5d, 0x81, 0x19, 0x80, 0x5d, 0x80,
    0x19, 0x93, 0x5d, 0x5, 0xd8, 0x5d, 0x6, 0xaa, 0x5d, 0x4, 0xc5, 0x12, 0x9, 0x9e, 0x49, 0x0, 0x8b, 0x49, 0x3, 0x8b,
    0x49, 0x3, 0x80, 0x49, 0x2, 0x8b, 0x49, 0x9d, 0x8e, 0x1, 0x84, 0x8e, 0xa, 0xab, 0x64, 0x3, 0x99, 0x64, 0x5, 0x8a,
    0x64, 0x2, 0x81, 0x64, 0x9f, 0x42, 0x9b, 0x10, 0x1, 0x81, 0x10, 0xbe, 0x8f, 0x0, 0x9c, 0x8f, 0x1, 0x8a, 0x8f, 0x5,
    0x89, 0x8f, 0x5, 0x8d, 0x8f, 0x1, 0x9e, 0x38, 0x30, 0xcc, 0x7, 0x2, 0xae, 0x7, 0x0, 0xbf, 0x89, 0xb3, 0xa, 0x7,
    0x83, 0xa, 0xb7, 0x48, 0x2, 0x8e, 0x48, 0x2, 0x82, 0x48, 0xaf, 0x6a, 0x88, 0x1d, 0x6, 0xaa, 0x28, 0x1, 0x82, 0x28,
    0x87, 0x89, 0x7, 0x82, 0x38, 0x80, 0x19, 0x8c, 0x38, 0x80, 0x19, 0x86, 0x38, 0x83, 0x19, 0x80, 0x38, 0x85, 0x19,
    0x80, 0x38, 0x82, 0x19, 0x81, 0x38, 0x80, 0x19, 0x4, 0xa5, 0x47, 0x84, 0x2c, 0x80, 0x1d, 0xb0, 0x47, 0x84, 0x2c,
    0x83, 0x47, 0x84, 0x2c, 0x8c, 0x47, 0x80, 0x1d, 0xc5, 0x47, 0x80, 0x2c, 0xbf, 0x38, 0xe0, 0x9f, 0x47, 0x95, 0x2c,
    0x1, 0x85, 0x2c, 0x1, 0xa5, 0x2c, 0x1, 0x85, 0x2c, 0x1, 0x87, 0x2c, 0x0, 0x80, 0x2c, 0x0, 0x80, 0x2c, 0x0, 0x80,
    0x2c, 0x0, 0x9e, 0x2c, 0x1, 0xb4, 0x2c, 0x0, 0x8e, 0x2c, 0x0, 0x8d, 0x2c, 0x1, 0x85, 0x2c, 0x0, 0x92, 0x2c, 0x1,
    0x82, 0x2c, 0x0, 0x88, 0x2c, 0x0, 0x8b, 0x19, 0x81, 0x38, 0xd6, 0x19, 0x0, 0x8a, 0x19, 0x80, 0x47, 0x1, 0x8a,
    0x19, 0x80, 0x47, 0x8e, 0x19]"

definition unicode_script_table_5 :: "int list" where
  "unicode_script_table_5 = [
    0x0, 0x8c, 0x47, 0x2, 0xa0, 0x19, 0xe, 0xa0, 0x38, 0xe, 0xa5, 0x19, 0x80, 0x2c, 0x82, 0x19, 0x81, 0x47, 0x85,
    0x19, 0x80, 0x47, 0x9a, 0x19, 0x80, 0x47, 0x90, 0x19, 0xa8, 0x47, 0x82, 0x19, 0x3, 0xe2, 0x36, 0x19, 0x18, 0x8a,
    0x19, 0x14, 0xe3, 0x3f, 0x19, 0xe0, 0x9f, 0xf, 0xe2, 0x13, 0x19, 0x1, 0x9f, 0x19, 0x0, 0xe0, 0x8, 0x19, 0xdf,
    0x29, 0x9f, 0x47, 0xe0, 0x13, 0x1a, 0x4, 0x86, 0x1a, 0xa5, 0x28, 0x0, 0x80, 0x28, 0x4, 0x80, 0x28, 0x1, 0xb7,
    0x98, 0x6, 0x81, 0x98, 0xd, 0x80, 0x98, 0x96, 0x27, 0x8, 0x86, 0x27, 0x0, 0x86, 0x27, 0x0, 0x86, 0x27, 0x0, 0x86,
    0x27, 0x0, 0x86, 0x27, 0x0, 0x86, 0x27, 0x0, 0x86, 0x27, 0x0, 0x86, 0x27, 0x0, 0x9f, 0x1d, 0xdd, 0x19, 0x21, 0x99,
    0x30, 0x0, 0xd8, 0x30, 0xb, 0xe0, 0x75, 0x30, 0x19, 0x8b, 0x19, 0x3, 0x84, 0x19, 0x80, 0x30, 0x80, 0x19, 0x80,
    0x30, 0x98, 0x19, 0x88, 0x30, 0x83, 0x38, 0x81, 0x31, 0x87, 0x19, 0x83, 0x30, 0x83, 0x19, 0x0, 0xd5, 0x36, 0x1,
    0x81, 0x38, 0x81, 0x19, 0x82, 0x36, 0x80, 0x19, 0xd9, 0x3e, 0x81, 0x19, 0x82, 0x3e, 0x4, 0xaa, 0xd, 0x0, 0xdd,
    0x31, 0x0, 0x8f, 0x19, 0x9f, 0xd, 0xa3, 0x19, 0xb, 0x8f, 0x3e, 0x9e, 0x31, 0x0, 0xbf, 0x19, 0x9e, 0x31, 0xd0,
    0x19, 0xae, 0x3e, 0x80, 0x19, 0xd7, 0x3e, 0xe0, 0x47, 0x19, 0xf0, 0x9, 0x5f, 0x30, 0xbf, 0x19, 0xf0, 0x41, 0x9f,
    0x30, 0xe4, 0x2c, 0xa2, 0x2, 0xb6, 0xa2, 0x8, 0xaf, 0x4c, 0xe0, 0xcb, 0x9d, 0x13, 0xdf, 0x1d, 0xd7, 0x8, 0x7,
    0xa1, 0x19, 0xe0, 0x5, 0x47, 0x82, 0x19, 0xbf, 0x47, 0x4]"

definition unicode_script_table_6 :: "int list" where
  "unicode_script_table_6 = [
    0x81, 0x47, 0x0, 0x80, 0x47, 0x0, 0x84, 0x47, 0x17, 0x8d, 0x47, 0xac, 0x8a, 0x2, 0x89, 0x19, 0x5, 0xb7, 0x7a, 0x7,
    0xc5, 0x80, 0x7, 0x8b, 0x80, 0x5, 0x9f, 0x20, 0xad, 0x40, 0x80, 0x19, 0x80, 0x40, 0xa3, 0x7d, 0xa, 0x80, 0x7d,
    0x9c, 0x31, 0x2, 0xcd, 0x3b, 0x0, 0x80, 0x19, 0x89, 0x3b, 0x3, 0x81, 0x3b, 0x9e, 0x60, 0x0, 0xb6, 0x16, 0x8, 0x8d,
    0x16, 0x1, 0x89, 0x16, 0x1, 0x83, 0x16, 0x9f, 0x60, 0xc2, 0x90, 0x17, 0x84, 0x90, 0x96, 0x57, 0x9, 0x85, 0x27,
    0x1, 0x85, 0x27, 0x1, 0x85, 0x27, 0x8, 0x86, 0x27, 0x0, 0x86, 0x27, 0x0, 0xaa, 0x47, 0x80, 0x19, 0x88, 0x47, 0x80,
    0x2c, 0x83, 0x47, 0x81, 0x19, 0x3, 0xcf, 0x17, 0xad, 0x57, 0x1, 0x89, 0x57, 0x5, 0xf0, 0x1b, 0x43, 0x31, 0xb,
    0x96, 0x31, 0x3, 0xb0, 0x31, 0x70, 0x10, 0xa3, 0xe1, 0xd, 0x30, 0x1, 0xe0, 0x9, 0x30, 0x25, 0x86, 0x47, 0xb, 0x84,
    0x5, 0x4, 0x99, 0x35, 0x0, 0x84, 0x35, 0x0, 0x80, 0x35, 0x0, 0x81, 0x35, 0x0, 0x81, 0x35, 0x0, 0x89, 0x35, 0xe0,
    0x12, 0x4, 0xf, 0xe1, 0xa, 0x4, 0x81, 0x19, 0xcf, 0x4, 0x1, 0xb5, 0x4, 0x6, 0x80, 0x4, 0x1f, 0x8f, 0x4, 0x8f,
    0x38, 0x89, 0x19, 0x5, 0x8d, 0x38, 0x81, 0x1d, 0xa2, 0x19, 0x0, 0x92, 0x19, 0x0, 0x83, 0x19, 0x3, 0x84, 0x4, 0x0,
    0xe0, 0x26, 0x4, 0x1, 0x80, 0x19, 0x0, 0x9f, 0x19, 0x99, 0x47, 0x85, 0x19, 0x99, 0x47, 0x8a, 0x19, 0x89, 0x3e,
    0x80, 0x19, 0xac, 0x3e, 0x81, 0x19, 0x9e, 0x31, 0x2, 0x85, 0x31, 0x1, 0x85, 0x31, 0x1, 0x85, 0x31, 0x1, 0x82,
    0x31, 0x2, 0x86, 0x19, 0x0]"

definition unicode_script_table_7 :: "int list" where
  "unicode_script_table_7 = [
    0x86, 0x19, 0x9, 0x84, 0x19, 0x1, 0x8b, 0x4b, 0x0, 0x99, 0x4b, 0x0, 0x92, 0x4b, 0x0, 0x81, 0x4b, 0x0, 0x8e, 0x4b,
    0x1, 0x8d, 0x4b, 0x21, 0xe0, 0x1a, 0x4b, 0x4, 0x82, 0x19, 0x3, 0xac, 0x19, 0x2, 0x88, 0x19, 0xce, 0x2c, 0x0, 0x8c,
    0x19, 0x2, 0x80, 0x2c, 0x2e, 0xac, 0x19, 0x80, 0x38, 0x60, 0x21, 0x9c, 0x4d, 0x2, 0xb0, 0x13, 0xe, 0x80, 0x38,
    0x9a, 0x19, 0x3, 0xa3, 0x6c, 0x8, 0x82, 0x6c, 0x9a, 0x2a, 0x4, 0xaa, 0x6e, 0x4, 0x9d, 0x9c, 0x0, 0x80, 0x9c, 0xa3,
    0x6f, 0x3, 0x8d, 0x6f, 0x29, 0xcf, 0x1f, 0xaf, 0x82, 0x9d, 0x76, 0x1, 0x89, 0x76, 0x5, 0xa3, 0x75, 0x3, 0xa3,
    0x75, 0x3, 0xa7, 0x25, 0x7, 0xb3, 0x14, 0xa, 0x80, 0x14, 0x8a, 0x9e, 0x0, 0x8e, 0x9e, 0x0, 0x86, 0x9e, 0x0, 0x81,
    0x9e, 0x0, 0x8a, 0x9e, 0x0, 0x8e, 0x9e, 0x0, 0x86, 0x9e, 0x0, 0x81, 0x9e, 0x42, 0xe0, 0xd6, 0x4a, 0x8, 0x95, 0x4a,
    0x9, 0x87, 0x4a, 0x17, 0x85, 0x47, 0x0, 0xa9, 0x47, 0x0, 0x88, 0x47, 0x44, 0x85, 0x1c, 0x1, 0x80, 0x1c, 0x0, 0xab,
    0x1c, 0x0, 0x81, 0x1c, 0x2, 0x80, 0x1c, 0x1, 0x80, 0x1c, 0x95, 0x37, 0x0, 0x88, 0x37, 0x9f, 0x78, 0x9e, 0x61, 0x7,
    0x88, 0x61, 0x2f, 0x92, 0x34, 0x0, 0x81, 0x34, 0x4, 0x84, 0x34, 0x9b, 0x7b, 0x2, 0x80, 0x7b, 0x99, 0x4e, 0x4,
    0x80, 0x4e, 0x3f, 0x9f, 0x5a, 0x97, 0x59, 0x3, 0x93, 0x59, 0x1, 0xad, 0x59, 0x83, 0x41, 0x0, 0x81, 0x41, 0x4,
    0x87, 0x41, 0x0, 0x82, 0x41, 0x0, 0x9c, 0x41, 0x1, 0x82, 0x41, 0x3, 0x89, 0x41, 0x6, 0x88, 0x41, 0x6, 0x9f, 0x71,
    0x9f, 0x6d, 0x1f, 0xa6, 0x53, 0x3, 0x8b, 0x53, 0x8, 0xb5, 0x6, 0x2]"

definition unicode_script_table_8 :: "int list" where
  "unicode_script_table_8 = [
    0x86, 0x6, 0x95, 0x3a, 0x1, 0x87, 0x3a, 0x92, 0x39, 0x4, 0x87, 0x39, 0x91, 0x7c, 0x6, 0x83, 0x7c, 0xb, 0x86, 0x7c,
    0x4f, 0xc8, 0x72, 0x36, 0xb2, 0x6b, 0xc, 0xb2, 0x6b, 0x6, 0x85, 0x6b, 0xa7, 0x32, 0x7, 0x89, 0x32, 0x60, 0xc5,
    0x9e, 0x4, 0x0, 0xa9, 0xa1, 0x0, 0x82, 0xa1, 0x1, 0x81, 0xa1, 0x4a, 0x82, 0x4, 0xa7, 0x70, 0x7, 0xa9, 0x86, 0x15,
    0x99, 0x73, 0x25, 0x9b, 0x18, 0x13, 0x96, 0x26, 0x8, 0xcd, 0xe, 0x3, 0xa3, 0xe, 0x8, 0x80, 0xe, 0xc2, 0x3c, 0x9,
    0x80, 0x3c, 0x1, 0x98, 0x87, 0x6, 0x89, 0x87, 0x5, 0xb4, 0x15, 0x0, 0x91, 0x15, 0x7, 0xa6, 0x50, 0x8, 0xdf, 0x81,
    0x0, 0x93, 0x85, 0xa, 0x91, 0x43, 0x0, 0xae, 0x43, 0x3d, 0x86, 0x5f, 0x0, 0x80, 0x5f, 0x0, 0x83, 0x5f, 0x0, 0x8e,
    0x5f, 0x0, 0x8a, 0x5f, 0x5, 0xba, 0x45, 0x4, 0x89, 0x45, 0x5, 0x83, 0x2b, 0x0, 0x87, 0x2b, 0x1, 0x81, 0x2b, 0x1,
    0x95, 0x2b, 0x0, 0x86, 0x2b, 0x0, 0x81, 0x2b, 0x0, 0x84, 0x2b, 0x0, 0x80, 0x38, 0x88, 0x2b, 0x1, 0x81, 0x2b, 0x1,
    0x82, 0x2b, 0x1, 0x80, 0x2b, 0x5, 0x80, 0x2b, 0x4, 0x86, 0x2b, 0x1, 0x86, 0x2b, 0x2, 0x84, 0x2b, 0x60, 0x2a, 0xdb,
    0x65, 0x0, 0x84, 0x65, 0x1d, 0xc7, 0x99, 0x7, 0x89, 0x99, 0x60, 0x45, 0xb5, 0x83, 0x1, 0xa5, 0x83, 0x21, 0xc4,
    0x5c, 0xa, 0x89, 0x5c, 0x5, 0x8c, 0x5d, 0x12, 0xb9, 0x91, 0x5, 0x89, 0x91, 0x35, 0x9a, 0x2, 0x1, 0x8e, 0x2, 0x3,
    0x96, 0x2, 0x60, 0x58, 0xbb, 0x22, 0x60, 0x3, 0xd2, 0xa0, 0xb, 0x80, 0xa0, 0x86, 0x21, 0x1, 0x80, 0x21, 0x1, 0x87,
    0x21, 0x0]"

definition unicode_script_table_9 :: "int list" where
  "unicode_script_table_9 = [
    0x81, 0x21, 0x0, 0x9d, 0x21, 0x0, 0x81, 0x21, 0x1, 0x8b, 0x21, 0x8, 0x89, 0x21, 0x45, 0x87, 0x63, 0x1, 0xad, 0x63,
    0x1, 0x8a, 0x63, 0x1a, 0xc7, 0xa3, 0x7, 0xd2, 0x88, 0xc, 0x8f, 0x12, 0xb8, 0x79, 0x6, 0x89, 0x20, 0x60, 0x95,
    0x88, 0xc, 0x0, 0xac, 0xc, 0x0, 0x8d, 0xc, 0x9, 0x9c, 0xc, 0x2, 0x9f, 0x54, 0x1, 0x95, 0x54, 0x0, 0x8d, 0x54,
    0x48, 0x86, 0x55, 0x0, 0x81, 0x55, 0x0, 0xab, 0x55, 0x2, 0x80, 0x55, 0x0, 0x81, 0x55, 0x0, 0x88, 0x55, 0x7, 0x89,
    0x55, 0x5, 0x85, 0x2e, 0x0, 0x81, 0x2e, 0x0, 0xa4, 0x2e, 0x0, 0x81, 0x2e, 0x0, 0x85, 0x2e, 0x6, 0x89, 0x2e, 0x60,
    0xd5, 0x98, 0x4f, 0x6, 0x90, 0x3f, 0x0, 0xa8, 0x3f, 0x2, 0x9b, 0x3f, 0x55, 0x80, 0x4c, 0xe, 0xb1, 0x92, 0xc, 0x80,
    0x92, 0xe3, 0x39, 0x1b, 0x60, 0x5, 0xe0, 0xe, 0x1b, 0x0, 0x84, 0x1b, 0xa, 0xe0, 0x63, 0x1b, 0x69, 0xeb, 0xe0, 0x2,
    0x1e, 0xc, 0xe3, 0xf5, 0x24, 0x6f, 0x49, 0xe1, 0xe6, 0x3, 0x70, 0x11, 0x58, 0xe1, 0xd8, 0x8, 0x6, 0x9e, 0x5e, 0x0,
    0x89, 0x5e, 0x3, 0x81, 0x5e, 0xce, 0x9a, 0x0, 0x89, 0x9a, 0x5, 0x9d, 0x9, 0x1, 0x85, 0x9, 0x9, 0xc5, 0x77, 0x9,
    0x89, 0x77, 0x0, 0x86, 0x77, 0x0, 0x94, 0x77, 0x4, 0x92, 0x77, 0x62, 0x4f, 0xda, 0x56, 0x60, 0x4, 0xca, 0x5b, 0x3,
    0xb8, 0x5b, 0x6, 0x90, 0x5b, 0x3f, 0x80, 0x93, 0x80, 0x67, 0x81, 0x30, 0x80, 0x44, 0xa, 0x81, 0x30, 0xd, 0xf0,
    0x7, 0x97, 0x93, 0x7, 0xe2, 0x9f, 0x93, 0xe1, 0x75, 0x44, 0x29, 0x88, 0x93, 0x70, 0x12, 0x86, 0x83, 0x3e, 0x0,
    0x86, 0x3e, 0x0]"

definition unicode_script_table_10 :: "int list" where
  "unicode_script_table_10 = [
    0x81, 0x3e, 0x0, 0x80, 0x3e, 0xe0, 0xbe, 0x36, 0x82, 0x3e, 0xe, 0x80, 0x36, 0x1c, 0x82, 0x36, 0x1, 0x80, 0x3e,
    0xd, 0x83, 0x3e, 0x7, 0xe1, 0x2b, 0x67, 0x68, 0xa3, 0xe0, 0xa, 0x23, 0x4, 0x8c, 0x23, 0x2, 0x88, 0x23, 0x6, 0x89,
    0x23, 0x1, 0x83, 0x23, 0x83, 0x19, 0x70, 0x1, 0xfb, 0xad, 0x38, 0x1, 0x96, 0x38, 0x8, 0xe0, 0x13, 0x19, 0x3b,
    0xe0, 0x95, 0x19, 0x9, 0xa6, 0x19, 0x1, 0xbd, 0x19, 0x82, 0x38, 0x90, 0x19, 0x87, 0x38, 0x81, 0x19, 0x86, 0x38,
    0x9d, 0x19, 0x83, 0x38, 0xbc, 0x19, 0x14, 0xc5, 0x2c, 0x60, 0x19, 0x93, 0x19, 0xb, 0x93, 0x19, 0xb, 0xd6, 0x19,
    0x8, 0x98, 0x19, 0x60, 0x26, 0xd4, 0x19, 0x0, 0xc6, 0x19, 0x0, 0x81, 0x19, 0x1, 0x80, 0x19, 0x1, 0x81, 0x19, 0x1,
    0x83, 0x19, 0x0, 0x8b, 0x19, 0x0, 0x80, 0x19, 0x0, 0x86, 0x19, 0x0, 0xc0, 0x19, 0x0, 0x83, 0x19, 0x1, 0x87, 0x19,
    0x0, 0x86, 0x19, 0x0, 0x9b, 0x19, 0x0, 0x83, 0x19, 0x0, 0x84, 0x19, 0x0, 0x80, 0x19, 0x2, 0x86, 0x19, 0x0, 0xe0,
    0xf3, 0x19, 0x1, 0xe0, 0xc3, 0x19, 0x1, 0xb1, 0x19, 0xe2, 0x2b, 0x84, 0xe, 0x84, 0x84, 0x0, 0x8e, 0x84, 0x63,
    0xef, 0x9e, 0x47, 0x5, 0x85, 0x47, 0x60, 0x74, 0x86, 0x29, 0x0, 0x90, 0x29, 0x1, 0x86, 0x29, 0x0, 0x81, 0x29, 0x0,
    0x84, 0x29, 0x4, 0xbd, 0x1d, 0x20, 0x80, 0x1d, 0x60, 0xf, 0xac, 0x68, 0x2, 0x8d, 0x68, 0x1, 0x89, 0x68, 0x3, 0x81,
    0x68, 0x60, 0xdf, 0x9e, 0x9b, 0x10, 0xb9, 0x9f, 0x4, 0x80, 0x9f, 0x61, 0x6f, 0xa9, 0x62, 0x62, 0x85, 0x86, 0x27,
    0x0, 0x83, 0x27, 0x0, 0x81, 0x27]"

definition unicode_script_table_11 :: "int list" where
  "unicode_script_table_11 = [
    0x0, 0x8e, 0x27, 0x0, 0xe0, 0x64, 0x58, 0x1, 0x8f, 0x58, 0x28, 0xcb, 0x1, 0x3, 0x89, 0x1, 0x3, 0x81, 0x1, 0x62,
    0xb0, 0xc3, 0x19, 0x4b, 0xbc, 0x19, 0x60, 0x61, 0x83, 0x4, 0x0, 0x9a, 0x4, 0x0, 0x81, 0x4, 0x0, 0x80, 0x4, 0x1,
    0x80, 0x4, 0x0, 0x89, 0x4, 0x0, 0x83, 0x4, 0x0, 0x80, 0x4, 0x0, 0x80, 0x4, 0x5, 0x80, 0x4, 0x3, 0x80, 0x4, 0x0,
    0x80, 0x4, 0x0, 0x80, 0x4, 0x0, 0x82, 0x4, 0x0, 0x81, 0x4, 0x0, 0x80, 0x4, 0x1, 0x80, 0x4, 0x0, 0x80, 0x4, 0x0,
    0x80, 0x4, 0x0, 0x80, 0x4, 0x0, 0x80, 0x4, 0x0, 0x81, 0x4, 0x0, 0x80, 0x4, 0x1, 0x83, 0x4, 0x0, 0x86, 0x4, 0x0,
    0x83, 0x4, 0x0, 0x83, 0x4, 0x0, 0x80, 0x4, 0x0, 0x89, 0x4, 0x0, 0x90, 0x4, 0x4, 0x82, 0x4, 0x0, 0x84, 0x4, 0x0,
    0x90, 0x4, 0x33, 0x81, 0x4, 0x60, 0xad, 0xab, 0x19, 0x3, 0xe0, 0x3, 0x19, 0xb, 0x8e, 0x19, 0x1, 0x8e, 0x19, 0x0,
    0x8e, 0x19, 0x0, 0xa4, 0x19, 0x9, 0xe0, 0x4d, 0x19, 0x37, 0x99, 0x19, 0x80, 0x36, 0x81, 0x19, 0xc, 0xab, 0x19,
    0x3, 0x88, 0x19, 0x6, 0x81, 0x19, 0xd, 0x85, 0x19, 0x60, 0x39, 0xe3, 0x77, 0x19, 0x3, 0x90, 0x19, 0x2, 0x8c, 0x19,
    0x2, 0xe0, 0x16, 0x19, 0x3, 0xde, 0x19, 0x5, 0x8b, 0x19, 0x3, 0x80, 0x19, 0xe, 0x8b, 0x19, 0x3, 0xb7, 0x19, 0x7,
    0x89, 0x19, 0x5, 0xa7, 0x19, 0x7, 0x9d, 0x19, 0x1, 0x81, 0x19, 0x4d, 0xe0, 0xf3, 0x19, 0xb, 0x8d, 0x19, 0x1, 0x8c,
    0x19, 0x2, 0x88, 0x19, 0x6, 0xad, 0x19, 0x0, 0x86, 0x19, 0x7, 0x8d, 0x19, 0x3, 0x88, 0x19, 0x6]"

definition unicode_script_table_12 :: "int list" where
  "unicode_script_table_12 = [
    0x88, 0x19, 0x6, 0xe0, 0x32, 0x19, 0x0, 0xb6, 0x19, 0x24, 0x89, 0x19, 0x63, 0xa5, 0xf0, 0x96, 0x7f, 0x30, 0x1f,
    0xef, 0xd9, 0x30, 0x5, 0xe0, 0x7d, 0x30, 0x1, 0xf0, 0x6, 0x21, 0x30, 0xd, 0xf0, 0xc, 0xd0, 0x30, 0x6b, 0xbe, 0xe1,
    0xbd, 0x30, 0x65, 0x81, 0xf0, 0x2, 0xea, 0x30, 0x4, 0xef, 0xff, 0x30, 0x7a, 0xcb, 0xf0, 0x80, 0x19, 0x1d, 0xdf,
    0x19, 0x60, 0x1f, 0xe0, 0x8f, 0x38]"

definition unicode_script_table :: "int list" where
  "unicode_script_table = concat [unicode_script_table_1, unicode_script_table_2, unicode_script_table_3, unicode_script_table_4, unicode_script_table_5, unicode_script_table_6, unicode_script_table_7, unicode_script_table_8, unicode_script_table_9, unicode_script_table_10, unicode_script_table_11, unicode_script_table_12]"

definition unicode_script_ext_table :: "int list" where
  "unicode_script_ext_table = [
    0x82, 0xc1, 0x0, 0x0, 0x1, 0x2c, 0x1, 0x0, 0x0, 0x1, 0x2c, 0x1c, 0x0, 0xc, 0x1, 0x47, 0x80, 0x92, 0x0, 0x0, 0x2,
    0x1d, 0x6e, 0x0, 0x2, 0x1d, 0x29, 0x1, 0x2, 0x1d, 0x47, 0x0, 0x2, 0x1d, 0x29, 0x81, 0x3, 0x0, 0x0, 0x6, 0x4, 0x66,
    0x32, 0x8b, 0x95, 0xa1, 0xd, 0x0, 0x0, 0x6, 0x4, 0x66, 0x32, 0x8b, 0x95, 0xa1, 0x0, 0x3, 0x4, 0x8b, 0x95, 0x1,
    0x0, 0x0, 0x7, 0x1, 0x4, 0x66, 0x32, 0x8b, 0x95, 0xa1, 0x1f, 0x0, 0x0, 0x9, 0x1, 0x4, 0x52, 0x53, 0x73, 0x7c,
    0x32, 0x86, 0x8b, 0x9, 0x0, 0xa, 0x2, 0x4, 0x8b, 0x9, 0x0, 0x9, 0x3, 0x4, 0x95, 0xa1, 0x5, 0x0, 0x0, 0x2, 0x4,
    0x8b, 0x62, 0x0, 0x0, 0x2, 0x4, 0x32, 0x81, 0xfb, 0x0, 0x0, 0xd, 0xb, 0x20, 0x2b, 0x2d, 0x2f, 0x3d, 0x47, 0x51,
    0x74, 0x81, 0x92, 0x94, 0x99, 0x0, 0xc, 0xb, 0x20, 0x2b, 0x2d, 0x2f, 0x3d, 0x47, 0x51, 0x74, 0x92, 0x94, 0x99,
    0x10, 0x0, 0x0, 0x14, 0xb, 0x20, 0x22, 0x2e, 0x55, 0x2b, 0x2d, 0x2f, 0x3d, 0x50, 0x51, 0x63, 0x74, 0x45, 0x85,
    0x8a, 0x91, 0x92, 0x94, 0x99, 0x0, 0x15, 0xb, 0x20, 0x22, 0x2e, 0x55, 0x2b, 0x2d, 0x2f, 0x3d, 0x49, 0x50, 0x51,
    0x63, 0x74, 0x45, 0x85, 0x8a, 0x91, 0x92, 0x94, 0x99, 0x9, 0x4, 0x20, 0x22, 0x3c, 0x50, 0x75, 0x0, 0x9, 0x3, 0xb,
    0x15, 0x8a, 0x75, 0x0, 0x9, 0x2, 0x2f, 0x5f, 0x75, 0x0, 0x9, 0x2, 0x2d, 0x43, 0x80, 0x75, 0x0, 0xd, 0x2, 0x2b,
    0x92, 0x80, 0x71, 0x0, 0x9, 0x2, 0x3d, 0x63, 0x82, 0xcf, 0x0, 0x9, 0x3, 0x15, 0x60, 0x8e, 0x80, 0x30, 0x0, 0x0,
    0x2, 0x28, 0x47, 0x85, 0xb8, 0x0, 0x1, 0x4, 0x11, 0x33, 0x8d, 0x8c, 0x80, 0x4a, 0x0, 0x1, 0x2, 0x5d, 0x7a, 0x0,
    0x0, 0x0, 0x2, 0x5d, 0x7a, 0x84, 0x49, 0x0, 0x0, 0x4, 0xb, 0x20, 0x2b, 0x3d, 0x0, 0x1, 0x20, 0x0, 0x4, 0xb, 0x20,
    0x2b, 0x3d, 0x0, 0x2, 0x20, 0x2b, 0x0, 0x1, 0x20, 0x1, 0x2, 0xb, 0x20, 0x0, 0x2, 0x20, 0x81, 0x0, 0x2, 0xb, 0x20,
    0x0, 0x2, 0x20, 0x81, 0x0, 0x6, 0x20, 0x3d, 0x51, 0x74, 0x92, 0x94, 0x0, 0x1, 0x20, 0x1, 0x2, 0x20, 0x81, 0x1,
    0x1, 0x20, 0x0, 0x2, 0x20, 0x81, 0x0, 0x2, 0xb, 0x20, 0x6, 0x1, 0x20, 0x0, 0x2, 0x20, 0x63, 0x0, 0x2, 0xb, 0x20,
    0x1, 0x1, 0x20, 0x0, 0x2, 0xb, 0x20, 0x3, 0x1, 0x20, 0x0, 0x8, 0xb, 0x20, 0x2b, 0x3d, 0x63, 0x74, 0x94, 0x99, 0x0,
    0x2, 0x20, 0x2b, 0x0, 0x3, 0x20, 0x2b, 0x3d, 0x1, 0x2, 0xb, 0x20, 0x0, 0x1, 0xb, 0x1, 0x2, 0x20, 0x2b, 0x0, 0x1,
    0x63, 0x80, 0x44, 0x0, 0x1, 0x1, 0x2c, 0x35, 0x0, 0x0, 0x2, 0x1d, 0x8b, 0x0, 0x0, 0x0, 0x1, 0x8b, 0x81, 0xb3, 0x0,
    0x0, 0x2, 0x47, 0x5d, 0x80, 0x3f, 0x0, 0x0, 0x3, 0x20, 0x2b, 0x47, 0x8c, 0xd1, 0x0, 0x0, 0x2, 0x1d, 0x29, 0x81,
    0x3c, 0x0, 0x1, 0x6, 0xd, 0x31, 0x30, 0x36, 0x3e, 0xa2, 0x0, 0x5, 0xd, 0x31, 0x30, 0x36, 0x3e, 0x1, 0x0, 0x0, 0x1,
    0x30, 0x0, 0x0, 0x9, 0x6, 0xd, 0x31, 0x30, 0x36, 0x3e, 0xa2, 0x0, 0x0, 0x0, 0x5, 0xd, 0x31, 0x30, 0x36, 0x3e, 0x7,
    0x6, 0xd, 0x31, 0x30, 0x36, 0x3e, 0xa2, 0x3, 0x5, 0xd, 0x31, 0x30, 0x36, 0x3e, 0x9, 0x0, 0x3, 0x2, 0xd, 0x30, 0x1,
    0x0, 0x0, 0x5, 0xd, 0x31, 0x30, 0x36, 0x3e, 0x4, 0x2, 0x36, 0x3e, 0x0, 0x0, 0x0, 0x5, 0xd, 0x31, 0x30, 0x36, 0x3e,
    0x3, 0x0, 0x1, 0x3, 0x30, 0x36, 0x3e, 0x1, 0x1, 0x30, 0x58, 0x0, 0x3, 0x2, 0x36, 0x3e, 0x2, 0x0, 0x0, 0x2, 0x36,
    0x3e, 0x59, 0x0, 0x0, 0x6, 0xd, 0x31, 0x30, 0x36, 0x3e, 0xa2, 0x0, 0x2, 0x36, 0x3e, 0x80, 0x12, 0x0, 0xf, 0x1,
    0x30, 0x1f, 0x0, 0x23, 0x1, 0x30, 0x3b, 0x0, 0x27, 0x1, 0x30, 0x37, 0x0, 0x30, 0x1, 0x30, 0xe, 0x0, 0xb, 0x1,
    0x30, 0x32, 0x0, 0x0, 0x1, 0x30, 0x57, 0x0, 0x18, 0x1, 0x30, 0x9, 0x0, 0x4, 0x1, 0x30, 0x5f, 0x0, 0x1e, 0x1, 0x30,
    0xc0, 0x31, 0xef, 0x0, 0x0, 0x2, 0x1d, 0x29, 0x80, 0xf, 0x0, 0x7, 0x2, 0x30, 0x47, 0x80, 0xa7, 0x0, 0x2, 0xe,
    0x20, 0x22, 0x2d, 0x2f, 0x43, 0x3d, 0x3c, 0x50, 0x51, 0x5c, 0x63, 0x45, 0x91, 0x99, 0x2, 0xd, 0x20, 0x22, 0x2d,
    0x2f, 0x43, 0x3d, 0x3c, 0x50, 0x5c, 0x63, 0x45, 0x91, 0x99, 0x3, 0xb, 0x20, 0x22, 0x2d, 0x2f, 0x43, 0x3c, 0x50,
    0x5c, 0x45, 0x91, 0x99, 0x80, 0x36, 0x0, 0x0, 0x2, 0xb, 0x20, 0x0, 0x0, 0x0, 0x2, 0x20, 0x92, 0x39, 0x0, 0x0, 0x3,
    0x40, 0x47, 0x60, 0x80, 0x1f, 0x0, 0x0, 0x2, 0x10, 0x3b, 0xc0, 0x12, 0xed, 0x0, 0x1, 0x2, 0x4, 0x66, 0x80, 0x31,
    0x0, 0x0, 0x2, 0x4, 0x95, 0x9, 0x0, 0x0, 0x2, 0x4, 0x95, 0x46, 0x0, 0x1, 0x5, 0xd, 0x31, 0x30, 0x36, 0x3e, 0x80,
    0x99, 0x0, 0x4, 0x6, 0xd, 0x31, 0x30, 0x36, 0x3e, 0xa2, 0x9, 0x0, 0x0, 0x2, 0x36, 0x3e, 0x2c, 0x0, 0x1, 0x2, 0x36,
    0x3e, 0x80, 0xdf, 0x0, 0x1, 0x3, 0x1e, 0x1c, 0x4b, 0x0, 0x2, 0x1c, 0x4b, 0x3, 0x0, 0x2c, 0x3, 0x1c, 0x4a, 0x4b,
    0x2, 0x0, 0x8, 0x2, 0x1c, 0x4b, 0x81, 0x1f, 0x0, 0x1b, 0x2, 0x4, 0x1a, 0x87, 0x75, 0x0, 0x0, 0x2, 0x53, 0x73,
    0x87, 0x8d, 0x0, 0x0, 0x2, 0x2b, 0x92, 0x0, 0x0, 0x0, 0x2, 0x2b, 0x92, 0x36, 0x0, 0x1, 0x2, 0x2b, 0x92, 0x8c,
    0x12, 0x0, 0x1, 0x2, 0x2b, 0x92, 0x0, 0x0, 0x0, 0x2, 0x2b, 0x92, 0xc0, 0x5c, 0x4b, 0x0, 0x3, 0x1, 0x23, 0x96,
    0x3b, 0x0, 0x11, 0x1, 0x30, 0x9e, 0x5d, 0x0, 0x1, 0x1, 0x30, 0xce, 0xcd, 0x2d, 0x0]"

end
