(* ===== verification/Script.thy ===== *)
theory Script
  imports PropOps_Sets UniScripts
begin

text \<open>
  \<open>unicode_script\<close> of \<open>src/native/quickjs/libunicode.c\<close>: the characters of a script, with or without the script
  extensions.  The label \<open>fail\<close> frees the two ranges and jumps to itself.  Its passes are bounded by fuel, so that an
  execution that returns, one that is undefined (it frees a block a second time) and one that still runs are different
  results.
\<close>

section \<open>Operation\<close>

abbreviation (input) "UNICODE_SCRIPT_Unknown \<equiv> 0 :: int"
abbreviation (input) "UNICODE_SCRIPT_Common \<equiv> 25 :: int"
abbreviation (input) "UNICODE_SCRIPT_Inherited \<equiv> 56 :: int"

text \<open>The length of a run, its script and the rest of the bytes.\<close>

fun script_count :: "int \<Rightarrow> int list \<Rightarrow> (int \<times> int list) option" where
  "script_count n p =
     (if n < 96 then Some (n, p)
      else if n < 112 then (case p of [] \<Rightarrow> None | b0 # q \<Rightarrow> Some ((push_bit 8 (n - 96) OR b0) + 96, q))
      else (case p of b0 # b1 # q \<Rightarrow> Some ((push_bit 16 (n - 112) OR push_bit 8 b0 OR b1) + 96 + 2 ^ 12, q) | _ \<Rightarrow> None))"

definition script_run :: "int \<Rightarrow> int list \<Rightarrow> (int \<times> int \<times> int list) option" where
  "script_run b p = (case script_count (b AND 0x7f) p of
       None \<Rightarrow> None
     | Some (n, q) \<Rightarrow>
         if drop_bit 7 b = 0 then Some (n, 0, q) else (case q of [] \<Rightarrow> None | v # q' \<Rightarrow> Some (n, v, q')))"

lemma script_count_shorter: "script_count n p = Some (k, q) \<Longrightarrow> length q \<le> length p"
  by (auto split: if_splits list.splits)

lemma script_run_shorter: "script_run b p = Some (n, v, q) \<Longrightarrow> length q \<le> length p"
  by (auto simp: script_run_def simp del: script_count.simps dest!: script_count_shorter split: option.splits if_splits list.splits)

declare script_count.simps [simp del]

text \<open>The loops have a result other than 0 where the code goes to \<open>fail\<close>.\<close>

function (sequential) script_loop :: "'m cr_realloc_f \<Rightarrow> int \<Rightarrow> int list \<Rightarrow> int \<Rightarrow> 'm \<Rightarrow> CharRange \<Rightarrow> 'm cr_result" where
  "script_loop ra script_idx [] c m cr = Some (m, cr, 0)"
| "script_loop ra script_idx (b # p) c m cr = (case script_run b p of
       None \<Rightarrow> None
     | Some (n, v, q) \<Rightarrow>
         let c1 = u32 (c + n + 1) in add_then ra (v = script_idx) m cr c c1 (script_loop ra script_idx q c1))"
  by pat_completeness auto
termination by (relation "measure (\<lambda>(ra, i, p, _). length p)") (auto dest: script_run_shorter)

text \<open>An entry of the extensions: the length of the run, its scripts and the rest.\<close>

fun ext_count :: "int \<Rightarrow> int list \<Rightarrow> (int \<times> int list) option" where
  "ext_count b p =
     (if b < 128 then Some (b, p)
      else if b < 128 + 64 then (case p of [] \<Rightarrow> None | b0 # q \<Rightarrow> Some ((push_bit 8 (b - 128) OR b0) + 128, q))
      else (case p of b0 # b1 # q \<Rightarrow> Some ((push_bit 16 (b - 128 - 64) OR push_bit 8 b0 OR b1) + 128 + 2 ^ 14, q) | _ \<Rightarrow> None))"

definition ext_run :: "int \<Rightarrow> int list \<Rightarrow> (int \<times> int list \<times> int list) option" where
  "ext_run b p = (case ext_count b p of
       None \<Rightarrow> None
     | Some (n, []) \<Rightarrow> None
     | Some (n, v_len # q) \<Rightarrow> if int (length q) < v_len then None else Some (n, take (nat v_len) q, drop (nat v_len) q))"

lemma ext_count_shorter: "ext_count b p = Some (n, q) \<Longrightarrow> length q \<le> length p"
  by (auto split: if_splits list.splits)

lemma ext_run_shorter: "ext_run b p = Some (n, vs, q) \<Longrightarrow> length q \<le> length p"
  by (auto simp: ext_run_def simp del: ext_count.simps dest!: ext_count_shorter split: option.splits if_splits list.splits)

declare ext_count.simps [simp del]

definition ext_wanted :: "bool \<Rightarrow> int \<Rightarrow> int list \<Rightarrow> bool" where
  "ext_wanted is_common script_idx vs = (if is_common then vs \<noteq> [] else script_idx \<in> set vs)"

function (sequential) ext_loop ::
  "'m cr_realloc_f \<Rightarrow> bool \<Rightarrow> int \<Rightarrow> int list \<Rightarrow> int \<Rightarrow> 'm \<Rightarrow> CharRange \<Rightarrow> 'm cr_result" where
  "ext_loop ra is_common script_idx [] c m cr = Some (m, cr, 0)"
| "ext_loop ra is_common script_idx (b # p) c m cr = (case ext_run b p of
       None \<Rightarrow> None
     | Some (n, vs, q) \<Rightarrow>
         let c1 = u32 (c + n + 1) in
         add_then ra (ext_wanted is_common script_idx vs) m cr c c1 (ext_loop ra is_common script_idx q c1))"
  by pat_completeness auto
termination by (relation "measure (\<lambda>(ra, ic, i, p, _). length p)") (auto dest: ext_run_shorter)

text \<open>An execution returns, is undefined, or still runs when the fuel is used up.\<close>

datatype 'a exec = Return 'a | Undef | Running

text \<open>The label \<open>fail\<close>.  From the second pass on the ranges have been freed, and freeing one that has a block again is
  undefined.\<close>

fun script_fail :: "'m cr_realloc_f \<Rightarrow> bool \<Rightarrow> nat \<Rightarrow> bool \<Rightarrow> 'm \<Rightarrow> CharRange \<Rightarrow> CharRange \<Rightarrow> 'a exec" where
  "script_fail ra is_ext 0 freed m cr1 cr2 = Running"
| "script_fail ra is_ext (Suc fuel) freed m cr1 cr2 =
     (if is_ext then
        (if freed \<and> (cr_points cr1 \<noteq> None \<or> cr_points cr2 \<noteq> None) then Undef
         else (case do { m \<leftarrow> cr_free ra m cr1; cr_free ra m cr2 } of
             None \<Rightarrow> Undef
           | Some m' \<Rightarrow> script_fail ra is_ext fuel True m' cr1 cr2))
      else script_fail ra is_ext fuel freed m cr1 cr2)"

text \<open>\<open>if (f) goto fail;\<close>\<close>

definition or_fail :: "'m cr_result \<Rightarrow> ('m \<Rightarrow> CharRange \<Rightarrow> 'a exec) \<Rightarrow> ('m \<Rightarrow> CharRange \<Rightarrow> 'a exec) \<Rightarrow> 'a exec" where
  "or_fail f fail k = (case f of None \<Rightarrow> Undef | Some (m, cr, r) \<Rightarrow> if r \<noteq> 0 then fail m cr else k m cr)"

text \<open>The end of \<open>unicode_script\<close> with extensions: \<open>cr1\<close> holds the script, \<open>cr2\<close> the extensions.\<close>

definition script_combine ::
  "'m cr_realloc_f \<Rightarrow> nat \<Rightarrow> bool \<Rightarrow> CharRange \<Rightarrow> 'm \<Rightarrow> CharRange \<Rightarrow> CharRange \<Rightarrow> ('m \<times> CharRange \<times> int) exec" where
  "script_combine ra fuel is_common cr m cr1 cr2 =
     or_fail (if is_common then cr_invert ra m cr2 else Some (m, cr2, 0)) (\<lambda>m cr2. script_fail ra True fuel False m cr1 cr2)
      (\<lambda>m cr2. or_fail (cr_op ra m cr (blk (cr_points cr1)) (cr_len cr1) (blk (cr_points cr2)) (cr_len cr2)
            (if is_common then CR_OP_INTER else CR_OP_UNION)) (\<lambda>m cr. script_fail ra True fuel False m cr1 cr2)
        (\<lambda>m cr. case do { m \<leftarrow> cr_free ra m cr1; cr_free ra m cr2 } of
             None \<Rightarrow> Undef
           | Some m \<Rightarrow> Return (m, cr, 0)))"

definition unicode_script ::
  "'m cr_realloc_f \<Rightarrow> nat \<Rightarrow> string \<Rightarrow> bool \<Rightarrow> 'm \<Rightarrow> CharRange \<Rightarrow> ('m \<times> CharRange \<times> int) exec" where
  "unicode_script ra fuel script_name is_ext m cr =
     (case unicode_find_name unicode_script_name_table script_name of
        None \<Rightarrow> Undef
      | Some pos \<Rightarrow>
          if pos < 0 then Return (m, cr, -2)
          else let script_idx = pos + (UNICODE_SCRIPT_Unknown + 1);
                   is_common = (script_idx = UNICODE_SCRIPT_Common \<or> script_idx = UNICODE_SCRIPT_Inherited) in
            if \<not> is_ext then
              or_fail (script_loop ra script_idx unicode_script_table 0 m cr)
                (\<lambda>m cr. script_fail ra is_ext fuel False m cr cr_init) (\<lambda>m cr. Return (m, cr, 0))
            else
              or_fail (script_loop ra script_idx unicode_script_table 0 m cr_init)
                (\<lambda>m cr1. script_fail ra is_ext fuel False m cr1 cr_init)
              (\<lambda>m cr1. or_fail (ext_loop ra is_common script_idx unicode_script_ext_table 0 m cr_init)
                (\<lambda>m cr2. script_fail ra is_ext fuel False m cr1 cr2)
              (\<lambda>m cr2. script_combine ra fuel is_common cr m cr1 cr2)))"

section \<open>Runs with a value\<close>

fun sel_ivs :: "('v \<Rightarrow> bool) \<Rightarrow> int \<Rightarrow> (int \<times> 'v) list \<Rightarrow> (int \<times> int) list" where
  "sel_ivs P code [] = []"
| "sel_ivs P code ((n, v) # rs) = (if P v then [(code, code + n)] else []) @ sel_ivs P (code + n) rs"

fun run_at :: "int \<Rightarrow> int \<Rightarrow> (int \<times> 'v) list \<Rightarrow> 'v option" where
  "run_at c code [] = None"
| "run_at c code ((n, v) # rs) = (if c < code + n then Some v else run_at c (code + n) rs)"

lemma sel_ivs_sorted: "\<forall>r \<in> set rs. 0 < fst r \<Longrightarrow> ivs_sorted code (sel_ivs P code rs) (code + span fst rs)"
proof (induction P code rs rule: sel_ivs.induct)
  case (2 P code n v rs)
  then have "ivs_sorted (code + n) (sel_ivs P (code + n) rs) (code + n + span fst rs)" by auto
  then show ?case using 2(2) ivs_sorted_weaken [of "code + n" _ _ code] by (auto simp: add.assoc)
qed simp

lemma sel_ivs_length: "length (sel_ivs P code rs) \<le> length rs"
  by (induction P code rs rule: sel_ivs.induct) auto

lemma sel_ivs_set:
  "\<forall>r \<in> set rs. 0 < fst r \<Longrightarrow> code \<le> c \<Longrightarrow> c \<in> ivs_set (sel_ivs P code rs) \<longleftrightarrow> (\<exists>v. run_at c code rs = Some v \<and> P v)"
proof (induction P code rs rule: sel_ivs.induct)
  case (2 P code n v rs)
  have "c \<notin> ivs_set (sel_ivs P (code + n) rs)" if "c < code + n"
    using ivs_sorted_bounds [OF sel_ivs_sorted [of rs "code + n" P], of c] 2(2) that by auto
  then show ?case using 2 by auto
qed simp

lemma sel_ivs_append: "sel_ivs P code (xs @ ys) = sel_ivs P code xs @ sel_ivs P (code + span fst xs) ys"
  by (induction P code xs rule: sel_ivs.induct) (auto simp: add.assoc)

lemma add_then_all:
  "add_then ra b m cr c c1 (\<lambda>m cr. add_all ra ivs m cr k) = add_all ra ((if b then [(c, c1)] else []) @ ivs) m cr k"
  by (auto simp: add_then_def)

text \<open>Adding a list of intervals and nothing else.\<close>

abbreviation add_only :: "'m cr_realloc_f \<Rightarrow> (int \<times> int) list \<Rightarrow> 'm \<Rightarrow> CharRange \<Rightarrow> 'm cr_result" where
  "add_only ra ivs m cr \<equiv> add_all ra ivs m cr (\<lambda>m cr. Some (m, cr, 0))"

section \<open>Decoding\<close>

function (sequential) script_runs :: "int list \<Rightarrow> (int \<times> int) list" where
  "script_runs [] = []"
| "script_runs (b # p) = (case script_run b p of None \<Rightarrow> [] | Some (n, v, q) \<Rightarrow> (n + 1, v) # script_runs q)"
  by pat_completeness auto
termination by (relation "measure length") (auto dest: script_run_shorter)

function (sequential) script_complete :: "int list \<Rightarrow> bool" where
  "script_complete [] = True"
| "script_complete (b # p) = (case script_run b p of None \<Rightarrow> False | Some (n, v, q) \<Rightarrow> script_complete q)"
  by pat_completeness auto
termination by (relation "measure length") (auto dest: script_run_shorter)

function (sequential) ext_runs :: "int list \<Rightarrow> (int \<times> int list) list" where
  "ext_runs [] = []"
| "ext_runs (b # p) = (case ext_run b p of None \<Rightarrow> [] | Some (n, v, q) \<Rightarrow> (n + 1, v) # ext_runs q)"
  by pat_completeness auto
termination by (relation "measure length") (auto dest: ext_run_shorter)

function (sequential) ext_complete :: "int list \<Rightarrow> bool" where
  "ext_complete [] = True"
| "ext_complete (b # p) = (case ext_run b p of None \<Rightarrow> False | Some (n, v, q) \<Rightarrow> ext_complete q)"
  by pat_completeness auto
termination by (relation "measure length") (auto dest: ext_run_shorter)

lemma script_loop_all:
  assumes "script_complete p" "\<forall>r \<in> set (script_runs p). 0 < fst r" "0 \<le> code" "code + span fst (script_runs p) < 2 ^ 32"
  shows "script_loop ra i p code m cr = add_only ra (sel_ivs (\<lambda>v. v = i) code (script_runs p)) m cr"
  using assms
proof (induction p arbitrary: code m cr rule: script_complete.induct)
  case 1
  show ?case by simp
next
  case (2 b p)
  then obtain n v q where g: "script_run b p = Some (n, v, q)" "script_complete q" by (auto split: option.splits)
  have sp: "0 \<le> span fst (script_runs q)" using 2(3) g by (intro span_fst_nonneg) auto
  have t: "code + (n + 1) + span fst (script_runs q) < 2 ^ 32" "0 < n + 1" using 2(3,5) g by auto
  have e: "u32 (code + n + 1) = code + (n + 1)" using sp t 2(4) by (subst u32_id) auto
  have IH: "script_loop ra i q (code + (n + 1)) = add_only ra (sel_ivs (\<lambda>v. v = i) (code + (n + 1)) (script_runs q))"
    using 2(1) [OF g(1) refl refl g(2)] 2(3,4) g t by (intro ext) auto
  show ?case using g IH e add_then_all [of ra "v = i"] by (simp add: Let_def)
qed

lemma ext_loop_all:
  assumes "ext_complete p" "\<forall>r \<in> set (ext_runs p). 0 < fst r" "0 \<le> code" "code + span fst (ext_runs p) < 2 ^ 32"
  shows "ext_loop ra ic i p code m cr = add_only ra (sel_ivs (ext_wanted ic i) code (ext_runs p)) m cr"
  using assms
proof (induction p arbitrary: code m cr rule: ext_complete.induct)
  case 1
  show ?case by simp
next
  case (2 b p)
  then obtain n v q where g: "ext_run b p = Some (n, v, q)" "ext_complete q" by (auto split: option.splits)
  have sp: "0 \<le> span fst (ext_runs q)" using 2(3) g by (intro span_fst_nonneg) auto
  have t: "code + (n + 1) + span fst (ext_runs q) < 2 ^ 32" "0 < n + 1" using 2(3,5) g by auto
  have e: "u32 (code + n + 1) = code + (n + 1)" using sp t 2(4) by (subst u32_id) auto
  have IH: "ext_loop ra ic i q (code + (n + 1)) = add_only ra (sel_ivs (ext_wanted ic i) (code + (n + 1)) (ext_runs q))"
    using 2(1) [OF g(1) refl refl g(2)] 2(3,4) g t by (intro ext) auto
  show ?case using g IH e add_then_all [of ra "ext_wanted ic i v"] by (simp add: Let_def)
qed

section \<open>Checks of the tables\<close>

definition script_chunk_ok :: "int list \<Rightarrow> int \<Rightarrow> bool" where
  "script_chunk_ok t n \<longleftrightarrow> script_complete t \<and> list_all (\<lambda>r. 0 < fst r) (script_runs t) \<and> span fst (script_runs t) = n"

lemma script_chunks_ok:
  shows
    "script_chunk_ok unicode_script_table_1 2564" "script_chunk_ok unicode_script_table_2 721"
    "script_chunk_ok unicode_script_table_3 2717" "script_chunk_ok unicode_script_table_4 2333"
    "script_chunk_ok unicode_script_table_5 34625" "script_chunk_ok unicode_script_table_6 22552"
    "script_chunk_ok unicode_script_table_7 2897" "script_chunk_ok unicode_script_table_8 3548"
    "script_chunk_ok unicode_script_table_9 38632" "script_chunk_ok unicode_script_table_10 14322"
    "script_chunk_ok unicode_script_table_11 4865" "script_chunk_ok unicode_script_table_12 788224"
  by code_simp+

lemma script_count_append: "script_count n p = Some (k, q) \<Longrightarrow> script_count n (p @ r) = Some (k, q @ r)"
  by (auto simp: script_count.simps split: if_splits list.splits)

lemma script_run_append: "script_run b p = Some (n, v, q) \<Longrightarrow> script_run b (p @ r) = Some (n, v, q @ r)"
  by (auto simp: script_run_def dest: script_count_append [where r = r] split: option.splits if_splits list.splits)

lemma script_runs_append:
  "script_complete p \<Longrightarrow> script_runs (p @ r) = script_runs p @ script_runs r \<and> script_complete (p @ r) = script_complete r"
proof (induction p rule: script_complete.induct)
  case (2 b p)
  then obtain n v q where g: "script_run b p = Some (n, v, q)" "script_complete q" by (auto split: option.splits)
  then show ?case using 2(1) [OF g(1) refl refl g(2)] script_run_append [OF g(1), of r] by simp
qed simp

lemma script_chunk_append: "script_chunk_ok p n \<Longrightarrow> script_chunk_ok (p @ r) m \<longleftrightarrow> script_chunk_ok r (m - n)"
  using script_runs_append [of p r] by (auto simp: script_chunk_ok_def span_append)

lemma script_chunk_Nil: "script_chunk_ok [] m \<longleftrightarrow> m = 0"
  by (auto simp: script_chunk_ok_def)

lemma script_table_ok: "script_chunk_ok unicode_script_table 918000"
  unfolding unicode_script_table_def concat.simps
  by (simp add: script_chunks_ok [THEN script_chunk_append] script_chunk_Nil del: append_Nil2)

lemma ext_table_ok:
  "ext_complete unicode_script_ext_table \<and> list_all (\<lambda>r. 0 < fst r) (ext_runs unicode_script_ext_table)
   \<and> span fst (ext_runs unicode_script_ext_table) \<le> 0x110000"
  by code_simp

text \<open>Every script of the list of names has a character: for every script a part of the table that has a run of it.\<close>

fun covers :: "int list \<Rightarrow> int list \<Rightarrow> bool" where
  "covers vs [] = True"
| "covers vs (i # is) = (list_ex (\<lambda>v. v = i) vs \<and> covers vs is)"

definition script_seen :: "(int list \<times> int list) list" where
  "script_seen = [
    (unicode_script_table_8,
      [2, 4, 6, 14, 21, 24, 33, 34, 38, 43, 50, 56, 57, 58, 60, 67, 69, 80, 92, 93, 95, 101, 107, 112, 114, 115, 124,
      129, 131, 133, 134, 135, 145, 153, 160, 161]),
    (unicode_script_table_7,
      [19, 20, 25, 28, 31, 37, 42, 44, 52, 55, 65, 71, 74, 75, 77, 78, 83, 89, 90, 97, 108, 109, 110, 111, 113, 117,
      118, 120, 123, 130, 156, 158]),
    (unicode_script_table_9,
      [3, 8, 9, 12, 18, 27, 30, 32, 36, 46, 48, 62, 63, 68, 76, 79, 84, 85, 86, 91, 94, 99, 103, 119, 121, 136, 146,
      147, 154, 163]),
    (unicode_script_table_6,
      [5, 22, 23, 29, 39, 49, 53, 59, 64, 87, 96, 122, 125, 128, 138, 144]),
    (unicode_script_table_4,
      [7, 10, 16, 40, 66, 72, 73, 100, 106, 137, 141, 142, 143]),
    (unicode_script_table_5,
      [13, 15, 26, 41, 54, 152, 157, 162]),
    (unicode_script_table_3,
      [17, 51, 61, 70, 81, 105, 126, 140, 150, 151]),
    (unicode_script_table_1,
      [11, 47, 82, 102, 127, 139, 149]),
    (unicode_script_table_10,
      [35, 98, 104, 132, 155, 159]),
    (unicode_script_table_2,
      [45, 116, 148]),
    (unicode_script_table_11,
      [1, 88])]"

lemma script_seen_ok: "list_all (\<lambda>p. covers (map snd (script_runs (fst p))) (snd p)) script_seen"
  by code_simp

lemma script_seen_all: "covers (concat (map snd script_seen)) [1..163]"
  by code_simp

lemma covers_iff: "covers vs is \<longleftrightarrow> set is \<subseteq> set vs"
  by (induction "is") (auto simp: list_ex_iff)

lemma script_runs_parts: "script_runs unicode_script_table = concat (map script_runs [unicode_script_table_1, unicode_script_table_2, unicode_script_table_3, unicode_script_table_4, unicode_script_table_5, unicode_script_table_6, unicode_script_table_7, unicode_script_table_8, unicode_script_table_9, unicode_script_table_10, unicode_script_table_11, unicode_script_table_12])"
  unfolding unicode_script_table_def concat.simps
  by (simp add: script_chunks_ok [unfolded script_chunk_ok_def] script_runs_append del: append_Nil2)

lemma script_seen_parts: "p \<in> set script_seen \<Longrightarrow> set (script_runs (fst p)) \<subseteq> set (script_runs unicode_script_table)"
  unfolding script_runs_parts script_seen_def by auto

lemma script_used:
  assumes "1 \<le> i" "i \<le> 163"
  shows "\<exists>r \<in> set (script_runs unicode_script_table). snd r = i"
proof -
  have "i \<in> set (concat (map snd script_seen))" using script_seen_all assms by (auto simp only: covers_iff set_upto atLeastAtMost_iff)
  then obtain p where p: "p \<in> set script_seen" "i \<in> set (snd p)" by auto
  then have "i \<in> set (map snd (script_runs (fst p)))" using script_seen_ok by (auto simp only: list_all_iff covers_iff)
  then show ?thesis using script_seen_parts [OF p(1)] by auto
qed

end
