(* ===== verification/Script_Sets.thy ===== *)
theory Script_Sets
  imports Script
begin

text \<open>
  The characters of a script: the decoded tables as functions of the code point, and \<open>unicode_script\<close> against the set
  that a script denotes, with and without extensions.
\<close>

section \<open>Scripts and extensions of code points\<close>

definition script_of :: "u32 \<Rightarrow> int option" where
  "script_of c = run_at (uint c) 0 (script_runs unicode_script_table)"

definition extensions_of :: "u32 \<Rightarrow> int list" where
  "extensions_of c = (case run_at (uint c) 0 (ext_runs unicode_script_ext_table) of None \<Rightarrow> [] | Some vs \<Rightarrow> vs)"

text \<open>With extensions a character belongs to all scripts it is used with; Common and Inherited keep the characters that
  have no extension.\<close>

definition script_spec :: "int \<Rightarrow> bool \<Rightarrow> u32 set" where
  "script_spec i is_ext =
     (if \<not> is_ext then {c. script_of c = Some i}
      else if i = UNICODE_SCRIPT_Common \<or> i = UNICODE_SCRIPT_Inherited then {c. script_of c = Some i \<and> extensions_of c = []}
      else {c. script_of c = Some i \<or> i \<in> set (extensions_of c)})"

lemma run_at_bound: "run_at c code rs = Some v \<Longrightarrow> \<forall>r \<in> set rs. 0 < fst r \<Longrightarrow> c < code + span fst rs"
proof (induction c code rs rule: run_at.induct)
  case (2 c code n v rs)
  have "0 \<le> span fst rs" using 2(3) by (intro span_fst_nonneg) auto
  then show ?case using 2 by (auto simp: add.assoc split: if_splits)
qed simp

lemmas script_table_facts = script_table_ok [unfolded script_chunk_ok_def list_all_iff]

lemmas ext_table_facts = ext_table_ok [unfolded list_all_iff]

lemma script_of_last: "script_of (-1) = None"
  using run_at_bound [of "uint (-1 :: u32)" 0 "script_runs unicode_script_table"] script_table_facts
  by (cases "script_of (-1)") (auto simp: script_of_def unsigned_minus_1_eq_mask mask_eq_exp_minus_1)

text \<open>Either an allocation was refused and the function does not return, or it returns with \<open>Q\<close>.\<close>

definition done_or_hung :: "'m cr_realloc_f \<Rightarrow> 'a exec \<Rightarrow> ('a \<Rightarrow> bool) \<Rightarrow> bool" where
  "done_or_hung ra f Q = (case f of Return x \<Rightarrow> Q x | _ \<Rightarrow> \<not> never_refuses ra)"

text \<open>The label \<open>fail\<close> never returns; without blocks it runs for ever, with one it frees it twice.\<close>

lemma script_fail_no_return: "script_fail ra is_ext fuel freed m cr1 cr2 \<noteq> Return x"
  by (induction ra is_ext fuel freed m cr1 cr2 rule: script_fail.induct) (auto split: option.splits)

lemma script_fail_running:
  "\<not> is_ext \<or> cr_points cr1 = None \<and> cr_points cr2 = None \<and> (\<forall>m. ra m None 0 = Some (m, None)) \<Longrightarrow>
   script_fail ra is_ext fuel freed m cr1 cr2 = Running"
  by (induction ra is_ext fuel freed m cr1 cr2 rule: script_fail.induct) (auto simp: cr_free_def)

lemma script_fail_twice:
  "2 \<le> fuel \<Longrightarrow> cr_points cr1 \<noteq> None \<or> cr_points cr2 \<noteq> None \<Longrightarrow> script_fail ra True fuel freed m cr1 cr2 = Undef"
  by (cases fuel; cases "fuel - 1") (auto split: option.splits)

lemma done_or_hung_fail: "\<not> never_refuses ra \<Longrightarrow> done_or_hung ra (script_fail ra' is_ext fuel freed m cr1 cr2) Q"
  by (auto simp: done_or_hung_def script_fail_no_return split: exec.splits)

lemma done_or_hung_or_fail:
  assumes "ok f (\<lambda>(m, cr, r). r = 0 \<and> P m cr \<or> r \<noteq> 0 \<and> \<not> never_refuses ra)"
    "\<And>m cr. P m cr \<Longrightarrow> done_or_hung ra (k m cr) Q"
  shows "done_or_hung ra (or_fail f (\<lambda>m cr. script_fail ra' is_ext fuel freed (m1 m cr) (c1 m cr) (c2 m cr)) k) Q"
  using assms by (auto simp: or_fail_def done_or_hung_fail elim!: okE)

lemma span_length: "\<forall>r \<in> set rs. 0 < fst r \<Longrightarrow> int (length rs) \<le> span fst rs"
  by (induction rs) auto

context cr_alloc
begin

lemma add_only_made:
  assumes "cr_wf cr" "cr_pts cr = []" "\<forall>r \<in> set rs. 0 < fst r" "span fst rs \<le> 2 ^ 21"
  shows "ok (add_only ra (sel_ivs P 0 rs) m cr) (\<lambda>(m', cr', r).
    r = 0 \<and> range_of cr' {c. \<exists>v. run_at (uint c) 0 rs = Some v \<and> P v} \<and> cr_len cr' \<le> 2 ^ 22 \<or> r \<noteq> 0 \<and> \<not> never_refuses ra)"
proof -
  let ?ivs = "sel_ivs P 0 rs"
  have so: "ivs_sorted 0 ?ivs (span fst rs)" using sel_ivs_sorted [OF assms(3), of 0 P] by simp
  have "ok (add_all ra ?ivs m cr (\<lambda>m cr. Some (m, cr, 0))) (built ra (ivs_set ?ivs))"
    using sel_ivs_length [of P 0 rs] span_length [OF assms(3)] assms(4) by (intro add_all_built [OF assms(1,2) so]) auto
  then obtain t where t: "add_all ra ?ivs m cr (\<lambda>m cr. Some (m, cr, 0)) = Some t" "built ra (ivs_set ?ivs) t" by (auto elim!: okE)
  have "made ra (2 ^ 22) {c. \<exists>v. run_at (uint c) 0 rs = Some v \<and> P v} t"
    using sel_ivs_set [OF assms(3), of 0 _ P] by (intro built_made [OF t(2)]) simp
  then show ?thesis using t(1) by (auto simp: made_def split: prod.splits)
qed

lemma script_loop_made:
  assumes "cr_wf cr" "cr_pts cr = []"
  shows "ok (script_loop ra i unicode_script_table 0 m cr) (\<lambda>(m', cr', r).
    r = 0 \<and> range_of cr' {c. script_of c = Some i} \<and> cr_len cr' \<le> 2 ^ 22 \<or> r \<noteq> 0 \<and> \<not> never_refuses ra)"
  using add_only_made [OF assms, of "script_runs unicode_script_table" "\<lambda>v. v = i" m] script_table_facts
  by (subst script_loop_all) (auto simp: script_of_def)

lemma ext_loop_made:
  assumes "cr_wf cr" "cr_pts cr = []"
  shows "ok (ext_loop ra ic i unicode_script_ext_table 0 m cr) (\<lambda>(m', cr', r).
    r = 0 \<and> range_of cr' {c. ext_wanted ic i (extensions_of c)} \<and> cr_len cr' \<le> 2 ^ 22 \<or> r \<noteq> 0 \<and> \<not> never_refuses ra)"
proof -
  have "{c. \<exists>v. run_at (uint c) 0 (ext_runs unicode_script_ext_table) = Some v \<and> ext_wanted ic i v} = {c. ext_wanted ic i (extensions_of c)}"
    by (auto simp: extensions_of_def ext_wanted_def split: option.splits if_splits)
  then show ?thesis using add_only_made [OF assms, of "ext_runs unicode_script_ext_table" "ext_wanted ic i" m] ext_table_facts
    by (subst ext_loop_all) auto
qed

lemma invert_or_fail:
  assumes "range_of cr S" "cr_len cr \<le> 2 ^ 22"
  shows "ok (if b then cr_invert ra m cr else Some (m, cr, 0))
    (\<lambda>(m', cr', r). r = 0 \<and> range_of cr' (if b then compl32 S else S) \<and> cr_len cr' \<le> 2 ^ 23 \<or> r \<noteq> 0 \<and> \<not> never_refuses ra)"
proof (cases b)
  case True
  have p: "cr_wf cr" "sorted (cr_pts cr)" "even (cr_len cr)" "cr_set (cr_pts cr) = S" "cr_len cr \<le> 2 ^ 28"
    using assms by (auto simp: range_of_def)
  obtain m1 c r where g: "cr_invert ra m cr = Some (m1, c, r)" "cr_wf c" "r = 0 \<and> cr_normal (cr_pts c) \<and> cr_set (cr_pts c) = - S - {-1}
      \<and> length (cr_pts c) \<le> cr_len cr + 2 \<or> r = -1"
    using cr_invert_ok [OF p(1-3,5), of m] p(4) by (fastforce elim!: okE)
  show ?thesis
  proof (cases "r = 0")
    case r: True
    then have "range_of c (compl32 S)" "cr_len c \<le> cr_len cr + 2"
      using g(2,3) length_cr_pts [OF g(2)] by (auto simp: range_of_def cr_normal_def strict_sorted_imp_sorted)
    then show ?thesis using g(1) True r assms(2) by simp
  next
    case False
    then have "\<not> never_refuses ra" using cr_invert_granted [of ra m cr m1 c r] g(1) by auto
    then show ?thesis using g(1) True False by simp
  qed
next
  case False
  then show ?thesis using assms by simp
qed

lemma op_or_fail:
  assumes "range_of a A" "range_of b B" "cr_len a \<le> 2 ^ 22" "cr_len b \<le> 2 ^ 23" "cr_wf cr" "cr_pts cr = []"
  shows "ok (cr_op ra m cr (blk (cr_points a)) (cr_len a) (blk (cr_points b)) (cr_len b) opr)
    (\<lambda>(m', c, r). r = 0 \<and> range_of c {c. is_in opr (c \<in> A) (c \<in> B)} \<or> r \<noteq> 0 \<and> \<not> never_refuses ra)"
proof -
  have pa: "cr_wf a" "cr_wf b" "sorted (cr_pts a)" "sorted (cr_pts b)" "even (cr_len a)" "even (cr_len b)"
    "cr_set (cr_pts a) = A" "cr_set (cr_pts b) = B" using assms by (auto simp: range_of_def)
  have "cr_len cr = 0" using assms(5,6) length_cr_pts by fastforce
  then obtain m1 c r where g: "cr_op ra m cr (blk (cr_points a)) (cr_len a) (blk (cr_points b)) (cr_len b) opr = Some (m1, c, r)" "cr_wf c"
    "r = 0 \<and> cr_normal (cr_pts c) \<and> cr_len c \<le> cr_len a + cr_len b \<and> cr_set (cr_pts c) = {c. is_in opr (c \<in> A) (c \<in> B)}
     \<or> r = -1 \<and> \<not> never_refuses ra"
    using cr_op_ranges [OF pa(1-6) assms(5), of m opr] assms(3,4) pa(7,8) by (auto elim!: okE)
  then have "range_of c {c. is_in opr (c \<in> A) (c \<in> B)}" if "r = 0"
    using that length_cr_pts [OF g(2)] by (auto simp: range_of_def cr_normal_def strict_sorted_imp_sorted)
  then show ?thesis using g(1,3) by (cases "r = 0") simp_all
qed

lemma script_combine_done:
  assumes "range_of a A" "cr_len a \<le> 2 ^ 22" "range_of b B" "cr_len b \<le> 2 ^ 22" "cr_wf cr" "cr_pts cr = []"
  shows "done_or_hung ra (script_combine ra fuel ic cr m a b)
    (\<lambda>(m', cr', r). r = 0 \<and> range_of cr' (if ic then A \<inter> compl32 B else A \<union> B))"
proof -
  let ?B = "if ic then compl32 B else B" and ?o = "if ic then CR_OP_INTER else CR_OP_UNION"
  have S: "{c. is_in ?o (c \<in> A) (c \<in> ?B)} = (if ic then A \<inter> compl32 B else A \<union> B)" by auto
  have i: "ok (if ic then cr_invert ra m b else Some (m, b, 0))
      (\<lambda>(m', b', r). r = 0 \<and> (range_of b' ?B \<and> cr_len b' \<le> 2 ^ 23) \<or> r \<noteq> 0 \<and> \<not> never_refuses ra)"
    using invert_or_fail [OF assms(3,4), of ic m] by simp
  show ?thesis unfolding script_combine_def
  proof (rule done_or_hung_or_fail [OF i], elim conjE, rule done_or_hung_or_fail)
    fix m1 b1
    assume b1: "range_of b1 ?B" "cr_len b1 \<le> 2 ^ 23"
    show "ok (cr_op ra m1 cr (blk (cr_points a)) (cr_len a) (blk (cr_points b1)) (cr_len b1) ?o)
      (\<lambda>(m', c, r). r = 0 \<and> range_of c {c. is_in ?o (c \<in> A) (c \<in> ?B)} \<or> r \<noteq> 0 \<and> \<not> never_refuses ra)"
      by (rule op_or_fail [OF assms(1) b1(1) assms(2) b1(2) assms(5,6)])
    fix m2 c
    assume c: "range_of c {c. is_in ?o (c \<in> A) (c \<in> ?B)}"
    obtain m3 m4 where "cr_free ra m2 a = Some m3" "cr_free ra m3 b1 = Some m4" using cr_free_ok by blast
    then show "done_or_hung ra (case do { m \<leftarrow> cr_free ra m2 a; cr_free ra m b1 } of None \<Rightarrow> Undef | Some m \<Rightarrow> Return (m, c, 0))
      (\<lambda>(m', cr', r). r = 0 \<and> range_of cr' (if ic then A \<inter> compl32 B else A \<union> B))"
      using c S by (simp add: done_or_hung_def)
  qed
qed

lemma unicode_script_done:
  assumes "cr_wf cr" "cr_pts cr = []" "unicode_find_name unicode_script_name_table name = Some pos" "0 \<le> pos"
  shows "done_or_hung ra (unicode_script ra fuel name is_ext m cr) (\<lambda>(m', cr', r). r = 0 \<and> range_of cr' (script_spec (pos + 1) is_ext))"
proof -
  define i where "i = pos + 1"
  define ic where "ic = (i = UNICODE_SCRIPT_Common \<or> i = UNICODE_SCRIPT_Inherited)"
  let ?A = "{c. script_of c = Some i}" and ?E = "{c. ext_wanted ic i (extensions_of c)}"
  have S: "script_spec i is_ext = (if \<not> is_ext then ?A else if ic then ?A \<inter> compl32 ?E else ?A \<union> ?E)"
    using script_of_last by (auto simp: script_spec_def ic_def ext_wanted_def)
  note sl = script_loop_made [of _ i, THEN done_or_hung_or_fail] and el = ext_loop_made [THEN done_or_hung_or_fail]
  show ?thesis
  proof (cases is_ext)
    case False
    have "done_or_hung ra (or_fail (script_loop ra i unicode_script_table 0 m cr)
        (\<lambda>m cr. script_fail ra is_ext fuel False m cr cr_init) (\<lambda>m cr. Return (m, cr, 0)))
      (\<lambda>(m', cr', r). r = 0 \<and> range_of cr' (script_spec i is_ext))"
      by (rule sl [OF assms(1,2)]) (use False S in \<open>simp add: done_or_hung_def\<close>)
    then show ?thesis using assms(3,4) False by (simp add: unicode_script_def i_def Let_def)
  next
    case True
    have "done_or_hung ra (or_fail (script_loop ra i unicode_script_table 0 m cr_init)
        (\<lambda>m cr1. script_fail ra is_ext fuel False m cr1 cr_init)
        (\<lambda>m cr1. or_fail (ext_loop ra ic i unicode_script_ext_table 0 m cr_init)
          (\<lambda>m cr2. script_fail ra is_ext fuel False m cr1 cr2) (\<lambda>m cr2. script_combine ra fuel ic cr m cr1 cr2)))
      (\<lambda>(m', cr', r). r = 0 \<and> range_of cr' (script_spec i is_ext))"
    proof (rule sl, simp, simp, rule el, simp, simp, elim conjE)
      fix m1 a m2 b
      assume h: "range_of a ?A" "cr_len a \<le> 2 ^ 22" "range_of b ?E" "cr_len b \<le> 2 ^ 22"
      show "done_or_hung ra (script_combine ra fuel ic cr m2 a b) (\<lambda>(m', cr', r). r = 0 \<and> range_of cr' (script_spec i is_ext))"
        using script_combine_done [OF h assms(1,2), of fuel ic m2] True S by simp
    qed
    then show ?thesis using assms(3,4) True by (simp add: unicode_script_def i_def ic_def Let_def)
  qed
qed

end

section \<open>Names and refused allocations\<close>

lemma script_names: "\<exists>es. unicode_script_name_table = c_names es \<and> length es = 163 \<and> (\<forall>e \<in> set es. e \<noteq> [] \<and> NUL \<notin> set e)"
  unfolding unicode_script_name_table_def by (rule exI, rule conjI [OF refl]) (simp add: NUL_def)

lemma find_script_name: "\<exists>pos. unicode_find_name unicode_script_name_table name = Some pos \<and> -1 \<le> pos \<and> pos < 163"
proof -
  obtain es where "unicode_script_name_table = c_names es" "length es = 163" "\<forall>e \<in> set es. e \<noteq> [] \<and> NUL \<notin> set e" using script_names by blast
  then show ?thesis using find_name_loop_ok [of es name 0] name_pos_range [of 0 name es] by (auto simp: unicode_find_name_def)
qed

lemma find_Adlam: "unicode_find_name unicode_script_name_table ''Adlam'' = Some 0"
  unfolding unicode_script_name_table_def unicode_find_name_def
  by (subst find_name_loop_ok) (simp_all add: NUL_def split_comma.simps)

text \<open>An allocation function that refuses every request; freeing the null pointer does nothing.\<close>

definition refuses :: "'m cr_realloc_f \<Rightarrow> bool" where
  "refuses ra \<longleftrightarrow> (\<forall>m p sz. sz \<noteq> 0 \<longrightarrow> ra m p sz = Some (m, None)) \<and> (\<forall>m. ra m None 0 = Some (m, None))"

lemma cr_add_interval_refused:
  assumes "refuses ra" "cr_size cr = 0" "cr_len cr = 0"
  shows "cr_add_interval ra m cr a b = Some (m, cr, -1)"
  using assms by (simp add: refuses_def cr_add_interval_def cr_realloc_def max_int_def)

lemma sel_ivs_nonempty: "\<exists>r \<in> set rs. P (snd r) \<Longrightarrow> sel_ivs P code rs \<noteq> []"
  by (induction P code rs rule: sel_ivs.induct) auto

lemma script_loop_refused:
  assumes "refuses ra" "cr_size cr = 0" "cr_len cr = 0" "1 \<le> i" "i \<le> 163"
  shows "script_loop ra i unicode_script_table 0 m cr = Some (m, cr, -1)"
proof -
  obtain iv ivs where "sel_ivs (\<lambda>v. v = i) 0 (script_runs unicode_script_table) = iv # ivs"
    using sel_ivs_nonempty [of "script_runs unicode_script_table" "\<lambda>v. v = i" 0] script_used [OF assms(4,5)]
    by (auto simp: neq_Nil_conv)
  moreover have "script_loop ra i unicode_script_table 0 m cr
      = add_only ra (sel_ivs (\<lambda>v. v = i) 0 (script_runs unicode_script_table)) m cr"
    using script_table_facts by (intro script_loop_all) auto
  ultimately show ?thesis using cr_add_interval_refused [OF assms(1-3)]
    by (cases iv) (simp add: add_then_def)
qed

section \<open>Claims\<close>

text \<open>C36. \<open>unicode_script\<close> from an empty range, for any name: an unknown name gives -2 and changes nothing; for every name of the
  table the function returns 0 with the sorted range of the characters of the script whenever no allocation is refused.
  With \<open>is_ext\<close> the range has the characters whose extensions name the script as well, except that Common and Inherited
  lose all characters that have extensions.  When the function returns at all, the result is that set, for any fuel.\<close>

theorem unicode_script_correct:
  assumes "cr_alloc ra" "cr_wf cr" "cr_pts cr = []"
  shows "\<exists>pos. unicode_find_name unicode_script_name_table name = Some pos
    \<and> (case unicode_script ra fuel name is_ext m cr of
         Return (m', cr', r) \<Rightarrow>
           if pos = -1 then r = -2 \<and> m' = m \<and> cr' = cr
           else r = 0 \<and> sorted (cr_pts cr') \<and> cr_set (cr_pts cr') = script_spec (pos + 1) is_ext
       | _ \<Rightarrow> pos \<noteq> -1 \<and> \<not> never_refuses ra)"
proof -
  obtain p where p: "unicode_find_name unicode_script_name_table name = Some p" "-1 \<le> p" using find_script_name by blast
  show ?thesis
  proof (cases "p = -1")
    case False
    then show ?thesis using cr_alloc.unicode_script_done [OF assms p(1), of fuel is_ext m] p
      by (auto simp: done_or_hung_def range_of_def split: exec.splits)
  qed (use p in \<open>simp add: unicode_script_def\<close>)
qed

theorem unicode_script_correct_witness:
  "\<exists>m' cr'. unicode_script granting_realloc 0 ''Adlam'' True 0 cr_init = Return (m', cr', 0)
    \<and> sorted (cr_pts cr') \<and> cr_set (cr_pts cr') = script_spec 1 True"
  using unicode_script_correct [OF granting_cr.cr_alloc_axioms, where cr = cr_init and name = "''Adlam''" and is_ext = True and m = 0
      and fuel = 0] granting_never_refuses find_Adlam
  by (auto split: exec.splits)

text \<open>C37. The error exit of \<open>unicode_script\<close> jumps to itself: with an allocation function that refuses everything, the call
  still runs after any number of passes, for every script of the table, with and without extensions; and from no state does
  the error exit return: with extensions and a range that has a block, the second pass frees the block again.\<close>

theorem unicode_script_refused_hangs:
  fixes x :: 'x
  assumes "refuses ra" "unicode_find_name unicode_script_name_table name = Some pos" "pos \<noteq> -1"
  shows "unicode_script ra fuel name is_ext m cr_init = Running
    \<and> script_fail ra' is_ext fuel False m' cr1 cr2 \<noteq> Return x
    \<and> (2 \<le> fuel \<and> (cr_points cr1 \<noteq> None \<or> cr_points cr2 \<noteq> None) \<longrightarrow> script_fail ra' True fuel False m' cr1 cr2 = (Undef :: 'x exec))"
proof -
  have "0 \<le> pos" "pos < 163" using find_script_name [of name] assms(2,3) by auto
  then have l: "script_loop ra (pos + 1) unicode_script_table 0 m cr_init = Some (m, cr_init, -1)"
    using script_loop_refused [OF assms(1), of cr_init "pos + 1"] by (simp add: cr_init_def)
  have "script_fail ra is_ext fuel False m cr_init cr_init = (Running :: ('a \<times> CharRange \<times> int) exec)" for is_ext
    using assms(1) by (intro script_fail_running) (simp add: refuses_def cr_init_def)
  then have "unicode_script ra fuel name is_ext m cr_init = Running"
    using assms(2) l \<open>0 \<le> pos\<close> by (simp add: unicode_script_def or_fail_def Let_def)
  then show ?thesis by (simp add: script_fail_no_return script_fail_twice)
qed

theorem unicode_script_refused_hangs_witness:
  "(\<forall>fuel. unicode_script (\<lambda>m p sz. Some (m, None)) fuel ''Adlam'' False () cr_init = Running)
   \<and> script_fail granting_realloc True 2 False 0 \<lparr>cr_len = 0, cr_size = 1, cr_points = Some [0]\<rparr> cr_init = (Undef :: unit exec)"
proof -
  have r: "refuses (\<lambda>m p sz. Some (m, None))" by (simp add: refuses_def)
  show ?thesis
    using unicode_script_refused_hangs [OF r find_Adlam, of _ False "()" granting_realloc 0
        "\<lparr>cr_len = 0, cr_size = 1, cr_points = Some [0]\<rparr>" cr_init "()"] by simp
qed

end
