(* ===== verification/Spec2Isabelle.thy ===== *)
theory Spec2Isabelle
  imports Utf8 Exchange DList Bridge IdProps Script_Sets
begin

text \<open>
  Verification of the C code of quickjs_runtime: the bridge between a Dart host and the QuickJS engine
  (\<open>src/native/quickjs_bridge.c\<close>), and the parts of the engine below it that can be treated on their own:
  the utilities of \<open>cutils.c\<close>, \<open>cutils.h\<close> and \<open>list.h\<close>, the allocator and the job queue of \<open>quickjs.c\<close>, and the
  Unicode library \<open>libunicode.c\<close> with the tables of \<open>libunicode-table.h\<close> (all in \<open>src/native/quickjs\<close>).

  \<^bold>\<open>How the parts interact.\<close>  The host registers callbacks with the bridge and evaluates scripts through it.  The engine
  calls the bridge back for every call of a host function, and the bridge drives the engine's queue of pending jobs, which
  is an intrusive list.  All memory comes from the allocator of the runtime, which keeps account of it; dynamic buffers and
  character ranges grow through it.  Regular expressions use the character ranges, which are built from the Unicode
  tables and sorted by \<open>rqsort\<close>.

  \<^bold>\<open>Reading of C.\<close>  An execution is an option value (theory \<open>Prelude\<close>): \<^term>\<open>None\<close> is undefined behaviour (an access
  outside an object, signed overflow), an abort or failed assertion, or a run that does not end.  Results and error codes that the code
  returns are values under \<^term>\<open>Some\<close>.  So a theorem that concludes \<open>f x = Some r\<close> says that the call returns and is memory safe.
  Unsigned integers of 8, 32 and 64 bits are words, or integers with the wrap-around written out where a table of integers is
  decoded.  Structures are records, pointers that are owned are the block they point to, and the list heap is a pair of maps.

  \<^bold>\<open>Theories, by component.\<close>
  \<^item> \<open>Utf8\<close>: \<open>unicode_to_utf8\<close>, \<open>unicode_from_utf8\<close>.  The two are inverse to each other in both directions, overlong forms are
    refused, and the decoder never reads past its input.
  \<^item> \<open>Rqsort\<close>, \<open>Rqsort_Order\<close>, \<open>Exchange\<close>: \<open>heapsortx\<close>, \<open>med3\<close>, \<open>rqsort\<close> on arrays of elements, and the \<open>exchange_*\<close> functions on
    bytes.  The comparison is a pure function of two elements.  For every such function the sort returns and permutes exactly its elements; for a total preorder
    (locale \<open>total_cmp\<close>) it sorts; the byte-level exchanges implement the exchange of elements.  The loop is verified once, in the locale
    \<open>rq_order\<close>.
  \<^item> \<open>CString\<close>, \<open>Bytes\<close>: the bounded string routines and the inline helpers of \<open>cutils.h\<close> (bit scans of both compilers, unaligned
    access, byte swaps).
  \<^item> \<open>Alloc\<close>: \<open>js_def_malloc\<close>, \<open>js_def_free\<close>, \<open>js_def_realloc\<close>, the wrappers of the runtime and of the context and the
    growing arrays.  The accounting is exact after any sequence of calls.  The locale \<open>realloc_contract\<close> is what growing containers rely on; it is
    interpreted for the runtime allocator and for the C library.
  \<^item> \<open>DynBuf\<close>: the dynamic buffers; any sequence of appending calls is safe and implements concatenation.  A failure of
    \<open>vsnprintf\<close> is a value of the model; \<open>dbuf_printf\<close> takes it for a large length and drops the last byte.
  \<^item> \<open>DList\<close>, \<open>Jobs\<close>: the intrusive lists as rings in a pointer heap, refined to sequences, and the job queue on top of them
    (\<open>JS_EnqueueJob\<close>, \<open>JS_ExecutePendingJob\<close>), which is first in, first out.  The locale \<open>job_runner\<close> is its contract.
  \<^item> \<open>Registration\<close>, \<open>Bridge\<close>: \<open>qjs_register_host_fn\<close> and its concurrent use as a step relation of interleaved atomic accesses;
    \<open>qjs_dispatch\<close>, \<open>qjs_bytes_dispatch\<close>, \<open>qjs_eval\<close>, \<open>qjs_set_global_json\<close>, \<open>qjs_sleep_ms\<close> and both job loops (locale \<open>job_pump\<close>).  No operation leaks a
    reference or a string on any path; a dispatch calls its callback once, or throws for the reasons the code lists; sleeping lasts at least as long
    as requested; and the capped loop ends.  The engine and the callbacks are parameters that act on the record \<open>world\<close>, which includes
    the tables of callbacks, so that they may re-enter the bridge; what the theorems rely on of them is stated by \<open>array_laws\<close>,
    \<open>sized_buffers\<close> and, for the system, \<open>posix_nanosleep\<close>.
  \<^item> \<open>CharRange\<close>, \<open>CharRange_Sets\<close>: \<open>cr_add_interval\<close>, \<open>cr_op\<close>, \<open>cr_invert\<close>, \<open>cr_sort_and_remove_overlap\<close> and the rest, against sets of code points
    (locale \<open>cr_alloc\<close>).
  \<^item> \<open>UniData\<close>, \<open>UniProps\<close>, \<open>UniScripts\<close>: the tables, element by element.  Long tables are given in parts that end at the end
    of a run.
  \<^item> \<open>PropTable\<close>, \<open>PropCheck\<close>, \<open>IdProps\<close>: \<open>get_index_pos\<close>, \<open>lre_is_in_table\<close>, \<open>lre_is_id_start\<close>, \<open>unicode_get_cc\<close> and their like.  The indexed search agrees
    with decoding the whole table (locale \<open>run_codec\<close>, for both encodings), and with the sets of the properties of the same names.
  \<^item> \<open>CaseConv\<close>, \<open>CaseConv_Props\<close>: \<open>lre_case_conv\<close>, \<open>lre_canonicalize\<close>, \<open>lre_is_cased\<close>: total on all 32-bit values.
  \<^item> \<open>CharBuild\<close>, \<open>RegexpCanon\<close>: \<open>unicode_prop1\<close>, \<open>unicode_general_category1\<close>, \<open>unicode_case1\<close>, \<open>cr_regexp_canonicalize\<close>: the ranges they build
    are the sets they stand for.
  \<^item> \<open>PropOps\<close>, \<open>PropOps_Check\<close>, \<open>PropOps_Sets\<close>: \<open>unicode_find_name\<close>, the stack machine \<open>unicode_prop_ops\<close>, \<open>unicode_prop\<close> and
    \<open>unicode_general_category\<close>, for every name of the tables.
  \<^item> \<open>Script\<close>, \<open>Script_Sets\<close>: \<open>unicode_script\<close> with and without script extensions.  Its error exit jumps to itself: after a refused
    allocation it runs for ever or frees a block twice, which are different values (\<open>Running\<close>, \<open>Undef\<close>) of the type \<open>exec\<close>.

  \<^bold>\<open>Allocation failures.\<close>  An allocation function is a parameter that keeps the contract of its locale.  It may refuse any
  request; results that depend on success are stated for functions that never refuse (\<open>never_refuses\<close>), and a result of -1 is
  shown to occur only for others.

  \<^bold>\<open>Bounds and termination.\<close>  All loops are recursive functions with a termination proof, except the loop over pending jobs
  without a cap and the loop around \<open>nanosleep\<close>, which need not end and are \<open>partial_function\<close>s (every result of the first is reached by a
  large enough cap; the second is shown to return when some call is not interrupted), the list iterations, which have fuel, where the number
  of elements is shown to be enough, and the error exit of \<open>unicode_script\<close>, whose theorems hold for every fuel.  The stack of \<open>rqsort\<close> has 50 entries
  as in the source, which is shown never to overflow.  Ranges in the claims are limited to lengths for which the C expressions on \<open>int\<close> do not overflow; the
  ranges built from the tables have at most \<open>2 ^ 22\<close> boundaries, far below.  Programs of the stack machine have at most 32
  instructions, the source's longest being shorter.  The facts about tables are evaluated on all their elements by the kernel.

  \<^bold>\<open>Not modelled.\<close>  Of \<open>libunicode.c\<close>: normalization (\<open>unicode_normalize\<close>, \<open>to_nfd_rec\<close>, \<open>sort_cc\<close>, \<open>compose_pair\<close> and the decomposition tables), whose
  termination depends on the contents of some 6000 decompositions; of the properties, those that the program is not compiled
  with.  Of \<open>quickjs.c\<close>: the parser, the compiler, the interpreter, objects, atoms and the garbage collector; the
  bridge's calls to them are fields of the record \<open>engine\<close>.  Further \<open>libregexp.c\<close>, \<open>libbf.c\<close>, \<open>quickjs-libc.c\<close>, the command line programs
  \<open>qjs.c\<close>, \<open>qjsc.c\<close> and \<open>run-test262.c\<close>, and the generator \<open>unicode_gen.c\<close>, which are input and output or too far from the interfaces
  above; the Dart package, whose callbacks are parameters; the reverse iteration macros of \<open>list.h\<close>; and of code selected by the platform, the
  \<open>Sleep\<close> of Windows and the allocation overhead of Apple's systems.
\<close>

section \<open>Sorting\<close>

text \<open>C2. \<open>rqsort\<close> returns for every comparison function, consistent or not: it stays inside the array,
  never overflows its local stack of 50 segments, and leaves a permutation of the first \<open>nmemb\<close>
  elements; the rest of the array is untouched.\<close>

theorem rqsort_safe_permutation:
  assumes "nmemb \<le> length xs"
  shows "\<exists>ys. rqsort cmp nmemb sz xs = Some ys \<and> mset ys = mset xs
    \<and> mset (take nmemb ys) = mset (take nmemb xs) \<and> drop nmemb ys = drop nmemb xs"
proof (cases "sz = 0")
  case True
  then show ?thesis by (simp add: rqsort_def)
next
  case False
  then obtain ys where ys: "rqsort cmp nmemb sz xs = Some ys" and p: "perm_range 0 nmemb xs ys"
    using any.rqsort_ok [OF assms, of sz cmp] by (auto elim!: okE)
  have "drop nmemb ys = drop nmemb xs"
    using perm_range_length [OF p] perm_range_outside [OF p] by (intro nth_equalityI) auto
  moreover have "mset (take nmemb ys) = mset (take nmemb xs)"
    using perm_range_mset_slice [OF p _ assms] by (simp add: slice_def)
  ultimately show ?thesis using ys p by (auto simp: perm_range_def)
qed

theorem rqsort_safe_permutation_witness:
  "\<exists>ys. rqsort (\<lambda>_ _. 1) 3 4 [5, 1, 4, 9 :: nat] = Some ys \<and> mset ys = {#5, 1, 4, 9#} \<and> drop 3 ys = [9]"
  using rqsort_safe_permutation [of 3 "[5, 1, 4, 9 :: nat]" "\<lambda>_ _. 1" 4] by auto

text \<open>C1. With a comparison function that is the sign of a total preorder, \<open>rqsort\<close> leaves the first
  \<open>nmemb\<close> elements in order.  The witness sorts the intervals of a character range with
  \<open>point_cmp\<close>.\<close>

theorem rqsort_sorts:
  assumes "\<And>a b. cmp a b > 0 \<longleftrightarrow> cmp b a < 0" "\<And>a b c. cmp a b \<le> 0 \<Longrightarrow> cmp b c \<le> 0 \<Longrightarrow> cmp a c \<le> 0"
    and "nmemb \<le> length xs" "0 < sz"
  shows "\<exists>ys. rqsort cmp nmemb sz xs = Some ys \<and> mset (take nmemb ys) = mset (take nmemb xs)
    \<and> sorted_wrt (\<lambda>x y. cmp x y \<le> 0) (take nmemb ys)"
proof -
  have "total_cmp cmp" by (intro total_cmp.intro) (fact assms)+
  note sorted = total_cmp.rqsort_sorted [OF this assms(3,4)]
  obtain ys where ys: "rqsort cmp nmemb sz xs = Some ys" and p: "perm_range 0 nmemb xs ys"
    and s: "sorted_range (\<lambda>x y. cmp x y \<le> 0) 0 nmemb ys"
    using sorted by (auto elim!: okE)
  have "mset (take nmemb ys) = mset (take nmemb xs)"
    using perm_range_mset_slice [OF p _ assms(3)] by (simp add: slice_def)
  then show ?thesis
    using ys s perm_range_length [OF p] assms(3) by (auto simp: sorted_range_def sorted_wrt_iff_nth_less)
qed

theorem rqsort_sorts_witness:
  "\<exists>ys. rqsort point_cmp 3 8 [(7, 9), (2, 3), (5, 6)] = Some ys
    \<and> sorted_wrt (\<lambda>x y. point_cmp x y \<le> 0) (take 3 ys)"
  using rqsort_sorts [of point_cmp 3 "[(7, 9), (2, 3), (5, 6)]" 8] pts.cmp_swap pts.cmp_trans by auto

end
